theory Spec2Isabelle
  imports Complex_Main
begin

section \<open>Exceptions and collaborators\<close>

text \<open>
  The Python exceptions that the worker raises or receives from its collaborators. The
  string is the exception's message (\<^verbatim>\<open>str(e)\<close>).
\<close>

datatype py_error =
    KeyError string
  | TypeError string
  | ValueError string
  | RuntimeError string
  | ImportError string
  | ZeroDivisionError string
  | IndexError string
  | AttributeError string
  | OverflowError string
  | OtherError string

fun str :: "py_error \<Rightarrow> string" where
  "str (KeyError k) = [CHR 0x27] @ k @ [CHR 0x27]"
| "str (TypeError m) = m"
| "str (ValueError m) = m"
| "str (RuntimeError m) = m"
| "str (ImportError m) = m"
| "str (ZeroDivisionError m) = m"
| "str (IndexError m) = m"
| "str (AttributeError m) = m"
| "str (OverflowError m) = m"
| "str (OtherError m) = m"

datatype service = StyleTransfer | RagChat | Recommendation

text \<open>
  The handle that \<^verbatim>\<open>model_load\<close> leaves in the module global \<^verbatim>\<open>ip_model\<close>:
  the IP-Adapter wrapper (it has a \<^verbatim>\<open>generate\<close> method) or, when wrapping fails,
  the bare pipeline.
\<close>

datatype model_handle = IPAdapter | Pipe

text \<open>A row of \<^verbatim>\<open>tourism_with_id.csv\<close>, with the columns the worker reads.\<close>

record place =
  Place_Id :: int
  Place_Name :: string
  Description :: string
  Category :: string
  City :: string
  Price :: rat
  Rating :: rat
  Time_Minutes :: rat
  Lat :: rat
  Long :: rat

text \<open>
  A PIL image, reduced to what the worker's control flow reads: its size and its mode.
  The pixels stay with the collaborators.
\<close>

record image =
  width :: nat
  height :: nat
  mode :: string

text \<open>
  The Python values that reach \<^verbatim>\<open>style_trans\<close> as arguments: a \<^verbatim>\<open>str\<close>, a
  \<^verbatim>\<open>float\<close>, a PIL image or \<^verbatim>\<open>None\<close>, and the name of the type of each.
\<close>

datatype py_value = PStr string | PNum rat | PImage image | PNone

fun type_name :: "py_value \<Rightarrow> string" where
  "type_name (PStr s) = ''str''"
| "type_name (PNum r) = ''float''"
| "type_name (PImage im) = ''Image''"
| "type_name PNone = ''NoneType''"

text \<open>The keyword arguments of the call \<^verbatim>\<open>ip_model.generate(...)\<close>.\<close>

record gen_args =
  pil_image :: image
  prompt :: string
  negative_prompt :: string
  scale :: py_value
  guidance_scale :: rat
  num_samples :: nat
  num_inference_steps :: nat
  canny_image :: image
  controlnet_conditioning_scale :: rat
  gen_height :: nat
  gen_width :: nat

text \<open>
  The job dictionary that \<^verbatim>\<open>json.loads\<close> yields. A key that is absent is \<open>None\<close>;
  a key that is present holds a value of the type the message format gives it.
\<close>

record prefs =
  category :: "string option"
  city :: "string option"
  max_price :: "rat option"
  min_rating :: "rat option"

record job_data =
  job_id :: "string option"
  content_image :: "string option"
  style_image :: "string option"
  strength :: "rat option"
  question :: "string option"
  user_id :: "string option"
  preferences :: "prefs option"
  limit :: "int option"
  start_time :: "int option"

record message =
  message_id :: nat
  content :: string

text \<open>
  What the outside world answers during one polling cycle: the outcome of every call
  that leaves the worker (downloads, pipeline set-up, database opening, CSV reading,
  decoding, generation, retrieval, the blob store, the queues, the clock). For a call
  without a result, \<open>None\<close> means that it returns normally and \<open>Some e\<close> that it
  raises \<open>e\<close>. \<open>w_b64decode\<close> takes the \<^verbatim>\<open>validate\<close> flag first; \<open>w_convert\<close>
  is \<^verbatim>\<open>image.convert("RGB")\<close>; \<open>w_repr\<close> is the text Python prints for a number;
  \<open>w_receive\<close> gives, for each queue, the messages that are visible when the queue is
  polled. \<open>w_float\<close> is the rounding of the platform's floating-point arithmetic: the
  \<^verbatim>\<open>float\<close> that stands for the exact result of an operation.
\<close>

record world =
  w_build_pipeline :: "py_error option"
  w_build_ip_adapter :: "py_error option"
  w_chroma_open :: "py_error option"
  w_get_collection :: "py_error option"
  w_ollama :: "py_error option"
  w_read_tourism :: "py_error + place list"
  w_read_rating :: "py_error option"
  w_read_user :: "py_error option"
  w_b64decode :: "bool \<Rightarrow> string \<Rightarrow> py_error + string"
  w_image_open :: "string \<Rightarrow> py_error + image"
  w_convert :: "image \<Rightarrow> py_error option"
  w_repr :: "rat \<Rightarrow> string"
  w_float :: "rat \<Rightarrow> rat"
  w_generate :: "gen_args \<Rightarrow> py_error + image list"
  w_encode_jpeg :: "image \<Rightarrow> py_error + string"
  w_query :: "string \<Rightarrow> py_error + string list list"
  w_ollama_generate :: "string \<Rightarrow> py_error + string"
  w_upload :: "py_error option"
  w_now :: int
  w_json_loads :: "string \<Rightarrow> py_error + job_data"
  w_receive :: "service \<Rightarrow> py_error + message list"
  w_delete :: "py_error option"

section \<open>Processor state\<close>

text \<open>
  The attributes of \<^verbatim>\<open>MultiServiceProcessor\<close> together with the module global
  \<^verbatim>\<open>ip_model\<close> of \<^verbatim>\<open>ailibs.style_transfer\<close>. An attribute that has not been assigned
  yet is \<open>None\<close>; \<^verbatim>\<open>ollama_client\<close> is \<open>Some None\<close> when it was assigned Python's
  \<^verbatim>\<open>None\<close>. Four fields are instrumentation: the three \<open>_builds\<close> counters count
  how often the construction code of each loader was entered, and \<open>generate_calls\<close>
  lists the arguments of every call of \<^verbatim>\<open>ip_model.generate\<close>.
\<close>

record processor =
  style_transfer_loaded :: bool
  rag_system_loaded :: bool
  recommendation_data_loaded :: bool
  ip_model :: "model_handle option"
  chroma_client :: "unit option"
  rag_collection :: "unit option"
  ollama_client :: "unit option option"
  tourism_df :: "place list option"
  tourism_rating_df :: "unit option"
  user_df :: "unit option"
  style_builds :: nat
  rag_builds :: nat
  rec_builds :: nat
  generate_calls :: "gen_args list"

definition init_processor :: processor where
  "init_processor =
     \<lparr>style_transfer_loaded = False, rag_system_loaded = False,
      recommendation_data_loaded = False, ip_model = None, chroma_client = None,
      rag_collection = None, ollama_client = None, tourism_df = None,
      tourism_rating_df = None, user_df = None,
      style_builds = 0, rag_builds = 0, rec_builds = 0, generate_calls = []\<rparr>"

section \<open>Service loaders\<close>

text \<open>
  \<^verbatim>\<open>model_load\<close>: returns the cached handle when the global is set; otherwise it
  downloads and builds the pipeline (any failure propagates, the global stays unset),
  wraps it in the IP-Adapter (a failure there is caught, the bare pipeline is kept) and
  stores the handle in the global.
\<close>

definition model_load :: "world \<Rightarrow> processor \<Rightarrow> (py_error + model_handle) \<times> processor" where
  "model_load w s =
     (case ip_model s of
        Some m \<Rightarrow> (Inr m, s)
      | None \<Rightarrow>
          (let s1 = s\<lparr>style_builds := Suc (style_builds s)\<rparr> in
           case w_build_pipeline w of
             Some e \<Rightarrow> (Inl e, s1)
           | None \<Rightarrow>
               (case w_build_ip_adapter w of
                  None \<Rightarrow> (Inr IPAdapter, s1\<lparr>ip_model := Some IPAdapter\<rparr>)
                | Some e \<Rightarrow> (Inr Pipe, s1\<lparr>ip_model := Some Pipe\<rparr>))))"

text \<open>
  The loaders return \<open>None\<close> when they return normally and \<open>Some e\<close> when they
  re-raise \<open>e\<close>; the state is the one the Python object is left in.
\<close>

definition load_style_transfer_model :: "world \<Rightarrow> processor \<Rightarrow> py_error option \<times> processor" where
  "load_style_transfer_model w s =
     (if \<not> style_transfer_loaded s then
        (case model_load w s of
           (Inl e, s1) \<Rightarrow> (Some e, s1)
         | (Inr m, s1) \<Rightarrow> (None, s1\<lparr>style_transfer_loaded := True\<rparr>))
      else (None, s))"

definition load_rag_system :: "world \<Rightarrow> processor \<Rightarrow> py_error option \<times> processor" where
  "load_rag_system w s =
     (if \<not> rag_system_loaded s then
        (let s0 = s\<lparr>rag_builds := Suc (rag_builds s)\<rparr> in
         case w_chroma_open w of
           Some e \<Rightarrow> (Some e, s0)
         | None \<Rightarrow>
             (let s1 = s0\<lparr>chroma_client := Some ()\<rparr> in
              case w_get_collection w of
                Some e \<Rightarrow> (Some e, s1)
              | None \<Rightarrow>
                  (let s2 = s1\<lparr>rag_collection := Some ()\<rparr> in
                   case w_ollama w of
                     None \<Rightarrow>
                       (None, s2\<lparr>ollama_client := Some (Some ()), rag_system_loaded := True\<rparr>)
                   | Some (ImportError m) \<Rightarrow>
                       (None, s2\<lparr>ollama_client := Some None, rag_system_loaded := True\<rparr>)
                   | Some e \<Rightarrow> (Some e, s2))))
      else (None, s))"

definition load_recommendation_data :: "world \<Rightarrow> processor \<Rightarrow> py_error option \<times> processor" where
  "load_recommendation_data w s =
     (if \<not> recommendation_data_loaded s then
        (let s0 = s\<lparr>rec_builds := Suc (rec_builds s)\<rparr> in
         case w_read_tourism w of
           Inl e \<Rightarrow> (Some e, s0)
         | Inr df \<Rightarrow>
             (let s1 = s0\<lparr>tourism_df := Some df\<rparr> in
              case w_read_rating w of
                Some e \<Rightarrow> (Some e, s1)
              | None \<Rightarrow>
                  (let s2 = s1\<lparr>tourism_rating_df := Some ()\<rparr> in
                   case w_read_user w of
                     Some e \<Rightarrow> (Some e, s2)
                   | None \<Rightarrow>
                       (None, s2\<lparr>user_df := Some (), recommendation_data_loaded := True\<rparr>))))
      else (None, s))"

text \<open>The three loaders under one name, to state what they have in common.\<close>

fun load_service :: "service \<Rightarrow> world \<Rightarrow> processor \<Rightarrow> py_error option \<times> processor" where
  "load_service StyleTransfer = load_style_transfer_model"
| "load_service RagChat = load_rag_system"
| "load_service Recommendation = load_recommendation_data"

fun is_loaded :: "service \<Rightarrow> processor \<Rightarrow> bool" where
  "is_loaded StyleTransfer = style_transfer_loaded"
| "is_loaded RagChat = rag_system_loaded"
| "is_loaded Recommendation = recommendation_data_loaded"

fun builds :: "service \<Rightarrow> processor \<Rightarrow> nat" where
  "builds StyleTransfer = style_builds"
| "builds RagChat = rag_builds"
| "builds Recommendation = rec_builds"

text \<open>The worlds in which the construction of a service raises nothing.\<close>

fun construction_ok :: "service \<Rightarrow> world \<Rightarrow> bool" where
  "construction_ok StyleTransfer w = (w_build_pipeline w = None)"
| "construction_ok RagChat w =
     (w_chroma_open w = None \<and> w_get_collection w = None \<and>
      (case w_ollama w of None \<Rightarrow> True | Some (ImportError m) \<Rightarrow> True | Some e \<Rightarrow> False))"
| "construction_ok Recommendation w =
     (case w_read_tourism w of Inl e \<Rightarrow> False
      | Inr df \<Rightarrow> w_read_rating w = None \<and> w_read_user w = None)"

text \<open>
  The exception that the construction of a service raises in a world, if it raises one. An
  \<^verbatim>\<open>ImportError\<close> of the ollama package and a failure to wrap the pipeline in the
  IP-Adapter are caught inside the construction.
\<close>

fun construction_error :: "service \<Rightarrow> world \<Rightarrow> py_error option" where
  "construction_error StyleTransfer w = w_build_pipeline w"
| "construction_error RagChat w =
     (case w_chroma_open w of
        Some e \<Rightarrow> Some e
      | None \<Rightarrow>
          (case w_get_collection w of
             Some e \<Rightarrow> Some e
           | None \<Rightarrow>
               (case w_ollama w of
                  None \<Rightarrow> None
                | Some (ImportError m) \<Rightarrow> None
                | Some e \<Rightarrow> Some e)))"
| "construction_error Recommendation w =
     (case w_read_tourism w of
        Inl e \<Rightarrow> Some e
      | Inr df \<Rightarrow> (case w_read_rating w of Some e \<Rightarrow> Some e | None \<Rightarrow> w_read_user w))"

text \<open>
  What a loader keeps for its service: the model handle in the global \<^verbatim>\<open>ip_model\<close>;
  the database client and the collection with the ollama client, which is \<open>None\<close> when
  the package is missing; the tourism table with the rating and user tables. A service has
  a handle when all of these are assigned. \<open>constructed\<close> is the handle that a
  construction without exception builds in a world.
\<close>

datatype handle = StyleHandle model_handle | RagHandle "unit option" | RecHandle "place list"

fun handle_of :: "service \<Rightarrow> processor \<Rightarrow> handle option" where
  "handle_of StyleTransfer s = map_option StyleHandle (ip_model s)"
| "handle_of RagChat s =
     (case (chroma_client s, rag_collection s, ollama_client s) of
        (Some c, Some r, Some oc) \<Rightarrow> Some (RagHandle oc)
      | _ \<Rightarrow> None)"
| "handle_of Recommendation s =
     (case (tourism_df s, tourism_rating_df s, user_df s) of
        (Some df, Some r, Some u) \<Rightarrow> Some (RecHandle df)
      | _ \<Rightarrow> None)"

fun constructed :: "service \<Rightarrow> world \<Rightarrow> handle" where
  "constructed StyleTransfer w =
     StyleHandle (case w_build_ip_adapter w of None \<Rightarrow> IPAdapter | Some e \<Rightarrow> Pipe)"
| "constructed RagChat w = RagHandle (case w_ollama w of None \<Rightarrow> Some () | Some e \<Rightarrow> None)"
| "constructed Recommendation w =
     RecHandle (case w_read_tourism w of Inl e \<Rightarrow> [] | Inr df \<Rightarrow> df)"

text \<open>A sequence of calls of one loader, each in its own world.\<close>

fun load_calls :: "service \<Rightarrow> world list \<Rightarrow> processor \<Rightarrow> processor" where
  "load_calls svc [] s = s"
| "load_calls svc (w # ws) s = load_calls svc ws (snd (load_service svc w s))"

text \<open>
  A world in which every collaborator answers: constructions succeed, the dataset is empty,
  decoding yields a 64 by 64 image, generation yields one image, retrieval finds nothing,
  the store accepts every write and the queues are empty. Its floating-point arithmetic is
  exact.
\<close>

definition good_world :: world where
  "good_world =
     \<lparr>w_build_pipeline = None, w_build_ip_adapter = None, w_chroma_open = None,
      w_get_collection = None, w_ollama = None, w_read_tourism = Inr [],
      w_read_rating = None, w_read_user = None,
      w_b64decode = (\<lambda>validate s. Inr s),
      w_image_open = (\<lambda>b. Inr \<lparr>width = 64, height = 64, mode = ''RGB''\<rparr>),
      w_convert = (\<lambda>i. None),
      w_repr = (\<lambda>r. ''0.0''),
      w_float = (\<lambda>q. q),
      w_generate = (\<lambda>a. Inr [\<lparr>width = gen_width a, height = gen_height a, mode = ''RGB''\<rparr>]),
      w_encode_jpeg = (\<lambda>i. Inr ''/9j/''),
      w_query = (\<lambda>q. Inr []),
      w_ollama_generate = (\<lambda>p. Inr ''jawaban''),
      w_upload = None,
      w_now = 0,
      w_json_loads = (\<lambda>c. Inl (ValueError ''Expecting value'')),
      w_receive = (\<lambda>q. Inr []),
      w_delete = None\<rparr>"

section \<open>Style transfer: \<^verbatim>\<open>ailibs/style_transfer.py\<close>\<close>

subsection \<open>String helpers of \<^verbatim>\<open>decode_base64_image\<close>\<close>

definition startswith :: "string \<Rightarrow> string \<Rightarrow> bool" where
  "startswith pre s = (take (length pre) s = pre)"

text \<open>\<^verbatim>\<open>s.split(sep, 1)[1]\<close> when \<^verbatim>\<open>sep in s\<close>: what follows the first occurrence.\<close>

fun split_after :: "string \<Rightarrow> string \<Rightarrow> string option" where
  "split_after sep [] = (if sep = [] then Some [] else None)"
| "split_after sep (c # cs) =
     (if startswith sep (c # cs) then Some (drop (length sep) (c # cs))
      else split_after sep cs)"

text \<open>
  The string that \<^verbatim>\<open>decode_base64_image\<close> receives is held as the bytes of its
  UTF-8 encoding. \<^verbatim>\<open>str.split()\<close> and
  \<^verbatim>\<open>str.strip()\<close> drop the characters that Python counts as whitespace: the ASCII
  ones (U+0009 to U+000D and U+001C to U+0020), which \<open>is_space\<close> recognises, and
  U+0085, U+00A0, U+1680, U+2000 to U+200A, U+2028, U+2029, U+202F, U+205F and U+3000,
  whose encodings are listed in \<open>unicode_spaces\<close>. \<open>whitespace_length s\<close> is the number
  of bytes of the whitespace character that \<open>s\<close> starts with, and 0 when it starts with
  none.
\<close>

definition is_space :: "char \<Rightarrow> bool" where
  "is_space c = (c \<in> set [CHR 0x20, CHR 0x09, CHR 0x0A, CHR 0x0B, CHR 0x0C, CHR 0x0D,
                            CHR 0x1C, CHR 0x1D, CHR 0x1E, CHR 0x1F])"

definition unicode_spaces :: "string list" where
  "unicode_spaces =
     [[CHR 0xC2, CHR 0x85], [CHR 0xC2, CHR 0xA0],
      [CHR 0xE1, CHR 0x9A, CHR 0x80],
      [CHR 0xE2, CHR 0x80, CHR 0x80], [CHR 0xE2, CHR 0x80, CHR 0x81],
      [CHR 0xE2, CHR 0x80, CHR 0x82], [CHR 0xE2, CHR 0x80, CHR 0x83],
      [CHR 0xE2, CHR 0x80, CHR 0x84], [CHR 0xE2, CHR 0x80, CHR 0x85],
      [CHR 0xE2, CHR 0x80, CHR 0x86], [CHR 0xE2, CHR 0x80, CHR 0x87],
      [CHR 0xE2, CHR 0x80, CHR 0x88], [CHR 0xE2, CHR 0x80, CHR 0x89],
      [CHR 0xE2, CHR 0x80, CHR 0x8A],
      [CHR 0xE2, CHR 0x80, CHR 0xA8], [CHR 0xE2, CHR 0x80, CHR 0xA9],
      [CHR 0xE2, CHR 0x80, CHR 0xAF], [CHR 0xE2, CHR 0x81, CHR 0x9F],
      [CHR 0xE3, CHR 0x80, CHR 0x80]]"

definition whitespace_length :: "string \<Rightarrow> nat" where
  "whitespace_length s =
     (case s of
        [] \<Rightarrow> 0
      | c # cs \<Rightarrow>
          if is_space c then 1
          else if take 2 s \<in> set unicode_spaces then 2
          else if take 3 s \<in> set unicode_spaces then 3
          else 0)"

text \<open>
  \<^verbatim>\<open>''.join(s.split())\<close>: the string without its whitespace characters. The counter
  is the number of bytes of the current whitespace character that are still to be dropped.
  The \<^verbatim>\<open>strip()\<close> that precedes it on a raw string removes whitespace that this
  removes as well.
\<close>

fun drop_whitespace :: "nat \<Rightarrow> string \<Rightarrow> string" where
  "drop_whitespace k [] = []"
| "drop_whitespace k (c # cs) =
     (if 0 < k then drop_whitespace (k - 1) cs
      else case whitespace_length (c # cs) of
             0 \<Rightarrow> c # drop_whitespace 0 cs
           | Suc n \<Rightarrow> drop_whitespace n cs)"

definition remove_whitespace :: "string \<Rightarrow> string" where
  "remove_whitespace s = drop_whitespace 0 s"

definition is_b64_char :: "char \<Rightarrow> bool" where
  "is_b64_char c =
     (let n = (of_char c :: nat) in
      (of_char CHR ''A'' \<le> n \<and> n \<le> of_char CHR ''Z'') \<or>
      (of_char CHR ''a'' \<le> n \<and> n \<le> of_char CHR ''z'') \<or>
      (of_char CHR ''0'' \<le> n \<and> n \<le> of_char CHR ''9'') \<or>
      c = CHR ''+'' \<or> c = CHR ''/'')"

text \<open>The regular expression \<^verbatim>\<open>^[A-Za-z0-9+/]*={0,2}$\<close> on a string without whitespace.\<close>

definition matches_base64 :: "string \<Rightarrow> bool" where
  "matches_base64 s = (dropWhile is_b64_char s \<in> set [[], ''='', ''==''])"

text \<open>
  The body of the \<^verbatim>\<open>try\<close> block of \<^verbatim>\<open>decode_base64_image\<close>. An argument that
  is not a string has no \<^verbatim>\<open>startswith\<close>.
\<close>

definition decode_base64_image_try :: "world \<Rightarrow> py_value \<Rightarrow> py_error + image" where
  "decode_base64_image_try w v =
     (case v of
        PStr base64_string \<Rightarrow>
          (case (if startswith ''data:'' base64_string then
                   (case split_after '';base64,'' base64_string of
                      Some d \<Rightarrow> Inr d
                    | None \<Rightarrow>
                        Inl (ValueError ''Invalid data URL format - missing ';base64,' separator''))
                 else Inr base64_string) of
             Inl e \<Rightarrow> Inl e
           | Inr d \<Rightarrow>
               (let base64_data = remove_whitespace d in
                if \<not> matches_base64 base64_data
                then Inl (ValueError ''Invalid base64 characters detected'')
                else
                  (case w_b64decode w True base64_data of
                     Inl e \<Rightarrow> Inl (ValueError (''Failed to decode base64 data: '' @ str e))
                   | Inr image_data \<Rightarrow>
                       (case w_image_open w image_data of
                          Inl e \<Rightarrow>
                            Inl (ValueError
                              (''Failed to create image from decoded data: '' @ str e))
                        | Inr im \<Rightarrow>
                            (case w_convert w im of
                               Some e \<Rightarrow>
                                 Inl (ValueError
                                   (''Failed to create image from decoded data: '' @ str e))
                             | None \<Rightarrow> Inr (im\<lparr>mode := ''RGB''\<rparr>))))))
      | _ \<Rightarrow>
          Inl (AttributeError
            ([CHR 0x27] @ type_name v @ [CHR 0x27] @ '' object has no attribute '' @
             [CHR 0x27] @ ''startswith'' @ [CHR 0x27])))"

text \<open>
  The \<^verbatim>\<open>except\<close> block prints \<^verbatim>\<open>base64_string[:100]\<close> before it raises the
  \<^verbatim>\<open>ValueError\<close>: for an argument that is not a string the slice itself raises a
  \<^verbatim>\<open>TypeError\<close>, which leaves the function.
\<close>

definition decode_base64_image :: "world \<Rightarrow> py_value \<Rightarrow> py_error + image" where
  "decode_base64_image w v =
     (case decode_base64_image_try w v of
        Inl e \<Rightarrow>
          (case v of
             PStr base64_string \<Rightarrow>
               Inl (ValueError (''Failed to decode base64 image: '' @ str e))
           | _ \<Rightarrow>
               Inl (TypeError
                 ([CHR 0x27] @ type_name v @ [CHR 0x27] @ '' object is not subscriptable'')))
      | Inr im \<Rightarrow> Inr im)"

subsection \<open>\<^verbatim>\<open>Image.thumbnail\<close>\<close>

text \<open>
  The size computation of Pillow's \<^verbatim>\<open>Image.thumbnail\<close>, with the floating-point
  operations where Pillow has them: \<open>fl\<close> rounds the exact result of each operation to a
  \<^verbatim>\<open>float\<close>. \<^verbatim>\<open>self.width / self.height\<close> and \<^verbatim>\<open>x / y\<close> divide integers:
  that raises \<^verbatim>\<open>ZeroDivisionError\<close> for a zero divisor and \<^verbatim>\<open>OverflowError\<close>
  for a quotient that rounds beyond the largest float; \<^verbatim>\<open>y * aspect\<close> and
  \<^verbatim>\<open>x / aspect\<close> convert the integer to a float first. \<^verbatim>\<open>round_aspect\<close> picks, of the
  floor and the ceiling of the scaled side, the one whose key is smaller (the floor on a
  tie), and never less than one pixel. An image that already fits is left as it is.
\<close>

definition float_overflow :: rat where
  "float_overflow = 2 ^ 1024 - 2 ^ 970"

definition round_aspect :: "rat \<Rightarrow> (int \<Rightarrow> rat) \<Rightarrow> int" where
  "round_aspect number key =
     max (let f = \<lfloor>number\<rfloor>; c = \<lceil>number\<rceil> in if key c < key f then c else f) 1"

definition preserve_aspect_ratio ::
  "(rat \<Rightarrow> rat) \<Rightarrow> nat \<times> nat \<Rightarrow> image \<Rightarrow> py_error + (nat \<times> nat) option" where
  "preserve_aspect_ratio fl provided_size im =
     (case provided_size of (x, y) \<Rightarrow>
        if x \<ge> width im \<and> y \<ge> height im then Inr None
        else if height im = 0 then Inl (ZeroDivisionError ''division by zero'')
        else if float_overflow \<le> rat_of_nat (width im) / rat_of_nat (height im)
        then Inl (OverflowError ''integer division result too large for a float'')
        else if y = 0 then Inl (ZeroDivisionError ''division by zero'')
        else
          (let aspect = fl (rat_of_nat (width im) / rat_of_nat (height im)) in
           if fl (rat_of_nat x / rat_of_nat y) \<ge> aspect
           then Inr (Some
                  (nat (round_aspect (fl (fl (rat_of_nat y) * aspect))
                          (\<lambda>n. \<bar>fl (aspect - fl (rat_of_int n / rat_of_nat y))\<bar>)), y))
           else if aspect = 0 then Inl (ZeroDivisionError ''float division by zero'')
           else Inr (Some
                  (x, nat (round_aspect (fl (fl (rat_of_nat x) / aspect))
                          (\<lambda>n. if n = 0 then 0
                               else \<bar>fl (aspect - fl (rat_of_nat x / rat_of_int n))\<bar>))))))"

definition thumbnail :: "(rat \<Rightarrow> rat) \<Rightarrow> nat \<times> nat \<Rightarrow> image \<Rightarrow> py_error + image" where
  "thumbnail fl sz im =
     (case preserve_aspect_ratio fl sz im of
        Inl e \<Rightarrow> Inl e
      | Inr None \<Rightarrow> Inr im
      | Inr (Some (fw, fh)) \<Rightarrow>
          Inr (if (width im, height im) \<noteq> (fw, fh) then im\<lparr>width := fw, height := fh\<rparr>
               else im))"

definition longest_side :: "image \<Rightarrow> nat" where
  "longest_side im = max (width im) (height im)"

subsection \<open>\<^verbatim>\<open>style_trans\<close>\<close>

text \<open>\<^verbatim>\<open>cv2.Canny\<close> on the content image: an edge map of the same size.\<close>

definition canny :: "image \<Rightarrow> image" where
  "canny im = im\<lparr>mode := ''L''\<rparr>"

text \<open>The text that an f-string puts in for a value.\<close>

fun format_value :: "world \<Rightarrow> py_value \<Rightarrow> string" where
  "format_value w (PStr s) = s"
| "format_value w (PNum r) = w_repr w r"
| "format_value w (PImage im) = ''<PIL.Image.Image>''"
| "format_value w PNone = ''None''"

text \<open>\<^verbatim>\<open>min(creativity, 15)\<close>: the first argument unless the second is smaller.\<close>

fun min_15 :: "py_value \<Rightarrow> py_error + rat" where
  "min_15 (PNum c) = Inr (if 15 < c then 15 else c)"
| "min_15 v = Inl (TypeError ''not supported between instances'')"

definition max_size :: nat where
  "max_size = 512"

text \<open>\<^verbatim>\<open>NUM_INFERENCE_STEPS\<close> of the environment, at its default.\<close>

definition INFERENCE_STEPS :: nat where
  "INFERENCE_STEPS = 10"

definition base_prompt :: "world \<Rightarrow> py_value \<Rightarrow> string" where
  "base_prompt w additional_prompt =
     ''a profile picture or avatar, fun, artistic, represent indonesian culture, traditional, art, fit for poster, good for instagram''
     @ [CHR 0x0A] @ format_value w additional_prompt @ ''.'' @ [CHR 0x0A]
     @ ''suitable for sharing on social media like Instagram.''"

definition the_negative_prompt :: string where
  "the_negative_prompt =
     ''nsfw, nude, mutated, ugly, watermark, lowres, low quality, worst quality, deformed, glitch, low contrast, noisy, saturation, blurry, boring, too formal, bad anatomy, propaganda, politics.''"

text \<open>The body of the \<^verbatim>\<open>try\<close> block of \<^verbatim>\<open>style_trans\<close>.\<close>

definition style_trans_try ::
  "world \<Rightarrow> py_value \<Rightarrow> py_value \<Rightarrow> py_value \<Rightarrow> py_value \<Rightarrow> py_value \<Rightarrow> processor
     \<Rightarrow> (py_error + image) \<times> processor" where
  "style_trans_try w content_image_b64 style_image_b64 influence creativity additional_prompt s =
     (case (case ip_model s of None \<Rightarrow> model_load w s | Some m \<Rightarrow> (Inr m, s)) of
        (Inl e, s1) \<Rightarrow> (Inl e, s1)
      | (Inr m, s1) \<Rightarrow>
          (case decode_base64_image w content_image_b64 of
             Inl e \<Rightarrow> (Inl e, s1)
           | Inr c0 \<Rightarrow>
          (case decode_base64_image w style_image_b64 of
             Inl e \<Rightarrow> (Inl e, s1)
           | Inr s0 \<Rightarrow>
          (case thumbnail (w_float w) (max_size, max_size) c0 of
             Inl e \<Rightarrow> (Inl e, s1)
           | Inr content_im \<Rightarrow>
          (case thumbnail (w_float w) (max_size, max_size) s0 of
             Inl e \<Rightarrow> (Inl e, s1)
           | Inr style_im \<Rightarrow>
          (case m of
             IPAdapter \<Rightarrow>
               (case min_15 creativity of
                  Inl e \<Rightarrow> (Inl e, s1)
                | Inr g \<Rightarrow>
                    (let args =
                       \<lparr>pil_image = style_im,
                        prompt = base_prompt w additional_prompt,
                        negative_prompt = the_negative_prompt,
                        scale = influence,
                        guidance_scale = g,
                        num_samples = 1,
                        num_inference_steps = INFERENCE_STEPS,
                        canny_image = canny content_im,
                        controlnet_conditioning_scale = 6 / 10,
                        gen_height = 512,
                        gen_width = 512\<rparr>;
                       s2 = s1\<lparr>generate_calls := generate_calls s1 @ [args]\<rparr>
                     in case w_generate w args of
                          Inl e \<Rightarrow> (Inl e, s2)
                        | Inr [] \<Rightarrow> (Inl (IndexError ''list index out of range''), s2)
                        | Inr (stylized_image # rest) \<Rightarrow> (Inr stylized_image, s2)))
           | Pipe \<Rightarrow> (Inr content_im, s1)))))))"

definition style_trans ::
  "world \<Rightarrow> py_value \<Rightarrow> py_value \<Rightarrow> py_value \<Rightarrow> py_value \<Rightarrow> py_value \<Rightarrow> processor
     \<Rightarrow> (py_error + image) \<times> processor" where
  "style_trans w content_image_b64 style_image_b64 influence creativity additional_prompt s =
     (case style_trans_try w content_image_b64 style_image_b64 influence creativity
             additional_prompt s of
        (Inl e, s1) \<Rightarrow> (Inl (RuntimeError (''Style transfer failed: '' @ str e)), s1)
      | (Inr im, s1) \<Rightarrow> (Inr im, s1))"

section \<open>Result store\<close>

text \<open>
  The projected row of a recommendation, the service-specific fields of a result, and the
  result dictionary that is serialised into the blob. \<open>ImageBody\<close> holds
  \<^verbatim>\<open>result_image\<close> and \<^verbatim>\<open>processing_time\<close>; \<open>ChatBody\<close> holds
  \<^verbatim>\<open>question\<close>, \<^verbatim>\<open>answer\<close> and \<^verbatim>\<open>context_used\<close>; \<open>RecommendationBody\<close>
  holds \<^verbatim>\<open>user_id\<close>, \<^verbatim>\<open>preferences_used\<close>, \<^verbatim>\<open>recommendations\<close> and
  \<^verbatim>\<open>total_found\<close>; \<open>ErrorBody\<close> holds \<^verbatim>\<open>error\<close>.
\<close>

record recommendation =
  r_place_id :: int
  r_place_name :: string
  r_description :: string
  r_category :: string
  r_city :: string
  r_price :: rat
  r_rating :: rat
  r_time_minutes :: rat
  r_latitude :: rat
  r_longitude :: rat

datatype body =
    ImageBody string int
  | ChatBody string string bool
  | RecommendationBody string prefs "recommendation list" nat
  | ErrorBody string

record result_data =
  r_job_id :: string
  r_service_type :: string
  r_status :: string
  r_body :: body
  r_timestamp :: int

type_synonym blob_store = "string \<rightharpoonup> result_data"

text \<open>
  \<^verbatim>\<open>blob_client.upload_blob(data, overwrite=...)\<close> on the container: the store may be
  unreachable; without \<^verbatim>\<open>overwrite\<close> an existing blob is an error; otherwise the blob
  of that name is replaced.
\<close>

definition upload_blob ::
  "world \<Rightarrow> string \<Rightarrow> result_data \<Rightarrow> bool \<Rightarrow> blob_store \<Rightarrow> py_error + blob_store" where
  "upload_blob w name d overwrite blobs =
     (case w_upload w of
        Some e \<Rightarrow> Inl e
      | None \<Rightarrow>
          if \<not> overwrite \<and> blobs name \<noteq> None
          then Inl (OtherError ''ResourceExistsError'')
          else Inr (blobs(name \<mapsto> d)))"

definition blob_name :: "string \<Rightarrow> string" where
  "blob_name jid = ''results/'' @ jid @ ''.json''"

definition upload_result ::
  "world \<Rightarrow> string \<Rightarrow> result_data \<Rightarrow> blob_store \<Rightarrow> py_error + blob_store" where
  "upload_result w jid d blobs = upload_blob w (blob_name jid) d True blobs"

text \<open>The processor object together with the blob container it writes to.\<close>

record system =
  proc :: processor
  blobs :: blob_store

definition service_name :: "service \<Rightarrow> string" where
  "service_name svc =
     (case svc of StyleTransfer \<Rightarrow> ''style_transfer'' | RagChat \<Rightarrow> ''rag_chat''
      | Recommendation \<Rightarrow> ''recommendation'')"

section \<open>Service handlers\<close>

text \<open>
  A handler returns \<open>Inr\<close> of its result when it returns normally and \<open>Inl e\<close> when
  the exception \<open>e\<close> leaves it. The \<^verbatim>\<open>except\<close> block is the same in the three
  handlers but for the service name: it builds the error result (reading
  \<^verbatim>\<open>job_data['job_id']\<close> again), uploads it, and re-raises the exception it caught;
  an exception raised inside the block replaces that one.
\<close>

definition on_exception ::
  "service \<Rightarrow> world \<Rightarrow> job_data \<Rightarrow> py_error \<Rightarrow> system \<Rightarrow> (py_error + result_data) \<times> system" where
  "on_exception svc w job e sys =
     (case job_id job of
        None \<Rightarrow> (Inl (KeyError ''job_id''), sys)
      | Some jid \<Rightarrow>
          (let error_result =
             \<lparr>r_job_id = jid, r_service_type = service_name svc, r_status = ''error'',
              r_body = ErrorBody (str e), r_timestamp = w_now w\<rparr>
           in case upload_result w jid error_result (blobs sys) of
                Inl e' \<Rightarrow> (Inl e', sys)
              | Inr b \<Rightarrow> (Inl e, sys\<lparr>blobs := b\<rparr>)))"

subsection \<open>Recommendation\<close>

definition filter_preferences :: "prefs \<Rightarrow> place list \<Rightarrow> place list" where
  "filter_preferences pr df =
     (let d1 = (case category pr of Some c \<Rightarrow> filter (\<lambda>r. Category r = c) df | None \<Rightarrow> df);
          d2 = (case city pr of Some c \<Rightarrow> filter (\<lambda>r. City r = c) d1 | None \<Rightarrow> d1);
          d3 = (case max_price pr of Some p \<Rightarrow> filter (\<lambda>r. Price r \<le> p) d2 | None \<Rightarrow> d2);
          d4 = (case min_rating pr of Some m \<Rightarrow> filter (\<lambda>r. Rating r \<ge> m) d3 | None \<Rightarrow> d3)
      in d4)"

text \<open>
  \<^verbatim>\<open>DataFrame.nlargest(n, 'Rating')\<close>: no row when \<open>n \<le> 0\<close>, otherwise the first
  \<open>n\<close> rows in descending order of rating. Rows of equal rating are kept here in the
  order of the frame.
\<close>

definition nlargest :: "int \<Rightarrow> place list \<Rightarrow> place list" where
  "nlargest n df = (if n \<le> 0 then [] else take (nat n) (sort_key (\<lambda>r. - Rating r) df))"

definition to_recommendation :: "place \<Rightarrow> recommendation" where
  "to_recommendation row =
     \<lparr>r_place_id = Place_Id row, r_place_name = Place_Name row,
      r_description = Description row, r_category = Category row, r_city = City row,
      r_price = Price row, r_rating = Rating row, r_time_minutes = Time_Minutes row,
      r_latitude = Lat row, r_longitude = Long row\<rparr>"

definition process_recommendation_try ::
  "world \<Rightarrow> job_data \<Rightarrow> system \<Rightarrow> (py_error + result_data) \<times> system" where
  "process_recommendation_try w job sys =
     (case load_recommendation_data w (proc sys) of
        (Some e, p1) \<Rightarrow> (Inl e, sys\<lparr>proc := p1\<rparr>)
      | (None, p1) \<Rightarrow>
          (let sys1 = sys\<lparr>proc := p1\<rparr> in
           case job_id job of None \<Rightarrow> (Inl (KeyError ''job_id''), sys1) | Some jid \<Rightarrow>
           case user_id job of None \<Rightarrow> (Inl (KeyError ''user_id''), sys1) | Some uid \<Rightarrow>
           case preferences job of None \<Rightarrow> (Inl (KeyError ''preferences''), sys1) | Some pr \<Rightarrow>
           case tourism_df p1 of None \<Rightarrow> (Inl (AttributeError ''tourism_df''), sys1) | Some df \<Rightarrow>
             (let lim = (case limit job of None \<Rightarrow> 10 | Some l \<Rightarrow> l);
                  filtered_df = filter_preferences pr df;
                  recommendations = nlargest lim filtered_df;
                  recommendation_list = map to_recommendation recommendations;
                  result =
                    \<lparr>r_job_id = jid, r_service_type = ''recommendation'',
                     r_status = ''completed'',
                     r_body = RecommendationBody uid pr recommendation_list
                                (length recommendation_list),
                     r_timestamp = w_now w\<rparr>
              in case upload_result w jid result (blobs sys1) of
                   Inl e \<Rightarrow> (Inl e, sys1)
                 | Inr b \<Rightarrow> (Inr result, sys1\<lparr>blobs := b\<rparr>))))"

definition process_recommendation ::
  "world \<Rightarrow> job_data \<Rightarrow> system \<Rightarrow> (py_error + result_data) \<times> system" where
  "process_recommendation w job sys =
     (case process_recommendation_try w job sys of
        (Inl e, sys1) \<Rightarrow> on_exception Recommendation w job e sys1
      | (Inr r, sys1) \<Rightarrow> (Inr r, sys1))"

subsection \<open>Chat\<close>

text \<open>ASCII lower-casing and the substring test \<^verbatim>\<open>sub in s\<close>.\<close>

definition lower :: "string \<Rightarrow> string" where
  "lower s =
     map (\<lambda>c. let n = (of_char c :: nat) in
               if of_char CHR ''A'' \<le> n \<and> n \<le> of_char CHR ''Z'' then char_of (n + 32) else c) s"

fun contains :: "string \<Rightarrow> string \<Rightarrow> bool" where
  "contains sub [] = (sub = [])"
| "contains sub (c # cs) = (startswith sub (c # cs) \<or> contains sub cs)"

definition generate_fallback_response :: "string \<Rightarrow> string \<Rightarrow> string" where
  "generate_fallback_response qn context =
     (if contains ''borobudur'' (lower qn) then
        ''Borobudur adalah candi Buddha terbesar di dunia yang terletak di Magelang, Jawa Tengah. Candi ini dibangun pada abad ke-8 hingga ke-9 oleh Dinasti Syailendra.''
      else if contains ''monas'' (lower qn) then
        ''Monumen Nasional (Monas) adalah monumen setinggi 132 meter yang terletak di Jakarta Pusat. Monas didirikan untuk mengenang perjuangan kemerdekaan Indonesia.''
      else
        ''Maaf, saya memerlukan informasi lebih lanjut untuk menjawab pertanyaan Anda tentang budaya Indonesia. Bisa tolong berikan pertanyaan yang lebih spesifik?'')"

text \<open>\<^verbatim>\<open>"\n".join(lines)\<close>.\<close>

fun join_lines :: "string list \<Rightarrow> string" where
  "join_lines [] = []"
| "join_lines [l] = l"
| "join_lines (l # ls) = l @ [CHR 0x0A] @ join_lines ls"

definition process_rag_chat_try ::
  "world \<Rightarrow> job_data \<Rightarrow> system \<Rightarrow> (py_error + result_data) \<times> system" where
  "process_rag_chat_try w job sys =
     (case load_rag_system w (proc sys) of
        (Some e, p1) \<Rightarrow> (Inl e, sys\<lparr>proc := p1\<rparr>)
      | (None, p1) \<Rightarrow>
          (let sys1 = sys\<lparr>proc := p1\<rparr> in
           case job_id job of None \<Rightarrow> (Inl (KeyError ''job_id''), sys1) | Some jid \<Rightarrow>
           case question job of None \<Rightarrow> (Inl (KeyError ''question''), sys1) | Some q \<Rightarrow>
           case rag_collection p1 of None \<Rightarrow> (Inl (AttributeError ''rag_collection''), sys1) | Some coll \<Rightarrow>
           case w_query w q of Inl e \<Rightarrow> (Inl e, sys1) | Inr documents \<Rightarrow>
           case ollama_client p1 of None \<Rightarrow> (Inl (AttributeError ''ollama_client''), sys1) | Some client \<Rightarrow>
             (let context = (case documents of [] \<Rightarrow> [] | d # ds \<Rightarrow> join_lines d);
                  answer =
                    (case client of
                       Some c \<Rightarrow>
                         (case w_ollama_generate w
                                 (''Context: '' @ context @ [CHR 0x0A, CHR 0x0A] @ ''Question: '' @ q
                                  @ [CHR 0x0A, CHR 0x0A] @ ''Answer:'') of
                            Inl e \<Rightarrow> generate_fallback_response q context
                          | Inr a \<Rightarrow> a)
                     | None \<Rightarrow> generate_fallback_response q context);
                  result =
                    \<lparr>r_job_id = jid, r_service_type = ''rag_chat'', r_status = ''completed'',
                     r_body = ChatBody q answer (length context > 0),
                     r_timestamp = w_now w\<rparr>
              in case upload_result w jid result (blobs sys1) of
                   Inl e \<Rightarrow> (Inl e, sys1)
                 | Inr b \<Rightarrow> (Inr result, sys1\<lparr>blobs := b\<rparr>))))"

definition process_rag_chat ::
  "world \<Rightarrow> job_data \<Rightarrow> system \<Rightarrow> (py_error + result_data) \<times> system" where
  "process_rag_chat w job sys =
     (case process_rag_chat_try w job sys of
        (Inl e, sys1) \<Rightarrow> on_exception RagChat w job e sys1
      | (Inr r, sys1) \<Rightarrow> (Inr r, sys1))"

subsection \<open>Style transfer\<close>

text \<open>
  Binding the arguments of a Python call to a function whose parameters are all
  positional-or-keyword, without defaults, \<^verbatim>\<open>*args\<close> or \<^verbatim>\<open>**kwargs\<close>: the
  positional arguments fill the parameters from the left; each keyword argument, in order,
  must name a parameter (else \<^verbatim>\<open>TypeError\<close>: unexpected keyword argument) that is
  not yet filled (else \<^verbatim>\<open>TypeError\<close>: multiple values); then there must be no
  positional argument too many and no parameter left unfilled.
\<close>

definition quote :: "string \<Rightarrow> string" where
  "quote k = [CHR 0x27] @ k @ [CHR 0x27]"

fun bind_keywords ::
  "string \<Rightarrow> string list \<Rightarrow> (string \<times> 'a) list \<Rightarrow> (string \<times> 'a) list
     \<Rightarrow> py_error + (string \<times> 'a) list" where
  "bind_keywords f params bound [] = Inr bound"
| "bind_keywords f params bound ((k, v) # kws) =
     (if k \<notin> set params
      then Inl (TypeError (f @ ''() got an unexpected keyword argument '' @ quote k))
      else if k \<in> set (map fst bound)
      then Inl (TypeError (f @ ''() got multiple values for argument '' @ quote k))
      else bind_keywords f params (bound @ [(k, v)]) kws)"

definition bind_arguments ::
  "string \<Rightarrow> string list \<Rightarrow> 'a list \<Rightarrow> (string \<times> 'a) list \<Rightarrow> py_error + (string \<times> 'a) list" where
  "bind_arguments f params args kwargs =
     (case bind_keywords f params (zip params args) kwargs of
        Inl e \<Rightarrow> Inl e
      | Inr bound \<Rightarrow>
          if length args > length params
          then Inl (TypeError (f @ ''() takes fewer positional arguments than were given''))
          else if \<exists>p \<in> set params. p \<notin> set (map fst bound)
          then Inl (TypeError (f @ ''() missing required positional arguments''))
          else Inr bound)"

text \<open>The parameters of \<^verbatim>\<open>style_trans\<close>, as its \<^verbatim>\<open>def\<close> line declares them.\<close>

definition style_trans_params :: "string list" where
  "style_trans_params =
     [''content_image_b64'', ''style_image_b64'', ''influence'', ''creativity'',
      ''additional_prompt'']"

definition call_style_trans ::
  "world \<Rightarrow> py_value list \<Rightarrow> (string \<times> py_value) list \<Rightarrow> processor
     \<Rightarrow> (py_error + image) \<times> processor" where
  "call_style_trans w args kwargs s =
     (case bind_arguments ''style_trans'' style_trans_params args kwargs of
        Inl e \<Rightarrow> (Inl e, s)
      | Inr bound \<Rightarrow>
          (case map (map_of bound) style_trans_params of
             [Some a, Some b, Some c, Some d, Some e] \<Rightarrow> style_trans w a b c d e s
           | _ \<Rightarrow> (Inl (TypeError ''style_trans() missing required positional arguments''), s)))"

definition process_style_transfer_try ::
  "world \<Rightarrow> job_data \<Rightarrow> system \<Rightarrow> (py_error + result_data) \<times> system" where
  "process_style_transfer_try w job sys =
     (case load_style_transfer_model w (proc sys) of
        (Some e, p1) \<Rightarrow> (Inl e, sys\<lparr>proc := p1\<rparr>)
      | (None, p1) \<Rightarrow>
          (let sys1 = sys\<lparr>proc := p1\<rparr> in
           case job_id job of None \<Rightarrow> (Inl (KeyError ''job_id''), sys1) | Some jid \<Rightarrow>
           case content_image job of None \<Rightarrow> (Inl (KeyError ''content_image''), sys1) | Some cb \<Rightarrow>
           case w_b64decode w False cb of Inl e \<Rightarrow> (Inl e, sys1) | Inr content_image_data \<Rightarrow>
           case style_image job of None \<Rightarrow> (Inl (KeyError ''style_image''), sys1) | Some sb \<Rightarrow>
           case w_b64decode w False sb of Inl e \<Rightarrow> (Inl e, sys1) | Inr style_image_data \<Rightarrow>
           case w_image_open w content_image_data of Inl e \<Rightarrow> (Inl e, sys1) | Inr content_im \<Rightarrow>
           case w_image_open w style_image_data of Inl e \<Rightarrow> (Inl e, sys1) | Inr style_im \<Rightarrow>
           case call_style_trans w [PImage content_im, PImage style_im]
                  [(''strength'', PNum (case strength job of None \<Rightarrow> 8 / 10 | Some x \<Rightarrow> x))] p1 of
             (Inl e, p2) \<Rightarrow> (Inl e, sys1\<lparr>proc := p2\<rparr>)
           | (Inr result_image, p2) \<Rightarrow>
               (let sys2 = sys1\<lparr>proc := p2\<rparr> in
                case w_encode_jpeg w result_image of Inl e \<Rightarrow> (Inl e, sys2) | Inr result_base64 \<Rightarrow>
                  (let result =
                     \<lparr>r_job_id = jid, r_service_type = ''style_transfer'',
                      r_status = ''completed'',
                      r_body = ImageBody result_base64
                                 (w_now w - (case start_time job of None \<Rightarrow> w_now w | Some t \<Rightarrow> t)),
                      r_timestamp = w_now w\<rparr>
                   in case upload_result w jid result (blobs sys2) of
                        Inl e \<Rightarrow> (Inl e, sys2)
                      | Inr b \<Rightarrow> (Inr result, sys2\<lparr>blobs := b\<rparr>)))))"

definition process_style_transfer ::
  "world \<Rightarrow> job_data \<Rightarrow> system \<Rightarrow> (py_error + result_data) \<times> system" where
  "process_style_transfer w job sys =
     (case process_style_transfer_try w job sys of
        (Inl e, sys1) \<Rightarrow> on_exception StyleTransfer w job e sys1
      | (Inr r, sys1) \<Rightarrow> (Inr r, sys1))"

section \<open>Dispatcher and idle shutdown: \<^verbatim>\<open>main\<close>\<close>

text \<open>
  What the dispatcher does, in order: \<open>Polled\<close> is a call of
  \<^verbatim>\<open>receive_messages\<close>, \<open>Received\<close> a message taken from its result,
  \<open>Returned\<close> and \<open>Raised\<close> the two ways a handler invocation ends,
  \<open>DeleteMessage\<close> a call of \<^verbatim>\<open>delete_message\<close>, \<open>Failed\<close> the error logged
  by the inner \<^verbatim>\<open>except\<close> and \<open>LoopError\<close> the one logged by the outer.
\<close>

datatype event =
    Polled service
  | Received service message
  | Returned service message
  | Raised service message py_error
  | DeleteMessage service message
  | Failed service message py_error
  | LoopError py_error

record dispatcher =
  handler_state :: system
  idle_count :: nat
  events :: "event list"

text \<open>The if/elif chain on \<^verbatim>\<open>service_name\<close>.\<close>

fun process :: "service \<Rightarrow> world \<Rightarrow> job_data \<Rightarrow> system \<Rightarrow> (py_error + result_data) \<times> system" where
  "process StyleTransfer = process_style_transfer"
| "process RagChat = process_rag_chat"
| "process Recommendation = process_recommendation"

text \<open>The keys of the \<^verbatim>\<open>queues\<close> dictionary, in insertion order.\<close>

definition queues :: "service list" where
  "queues = [StyleTransfer, RagChat, Recommendation]"

definition max_idle_time :: nat where
  "max_idle_time = 120"

text \<open>
  \<^verbatim>\<open>queue_client.receive_messages(max_messages=..., visibility_timeout=...)\<close>: at
  most \<open>max_messages\<close> of the visible messages. The visibility timeout is real time
  and has no effect within one cycle.
\<close>

definition receive_messages :: "world \<Rightarrow> service \<Rightarrow> nat \<Rightarrow> nat \<Rightarrow> py_error + message list" where
  "receive_messages w svc max_messages visibility_timeout =
     (case w_receive w svc of Inl e \<Rightarrow> Inl e | Inr ms \<Rightarrow> Inr (take max_messages ms))"

text \<open>The body of \<^verbatim>\<open>for message in messages\<close>.\<close>

definition handle_message :: "world \<Rightarrow> service \<Rightarrow> message \<Rightarrow> dispatcher \<Rightarrow> dispatcher" where
  "handle_message w svc m d0 =
     (let d = d0\<lparr>idle_count := 0, events := events d0 @ [Received svc m]\<rparr> in
      case w_json_loads w (content m) of
        Inl e \<Rightarrow> d\<lparr>events := events d @ [Failed svc m e]\<rparr>
      | Inr parsed \<Rightarrow>
          (let job = parsed\<lparr>start_time := Some (w_now w)\<rparr> in
           case process svc w job (handler_state d) of
             (Inl e, sys1) \<Rightarrow>
               d\<lparr>handler_state := sys1, events := events d @ [Raised svc m e, Failed svc m e]\<rparr>
           | (Inr r, sys1) \<Rightarrow>
               (let d1 = d\<lparr>handler_state := sys1,
                          events := events d @ [Returned svc m, DeleteMessage svc m]\<rparr> in
                case w_delete w of
                  Some e \<Rightarrow> d1\<lparr>events := events d1 @ [Failed svc m e]\<rparr>
                | None \<Rightarrow> d1)))"

fun handle_messages :: "world \<Rightarrow> service \<Rightarrow> message list \<Rightarrow> dispatcher \<Rightarrow> dispatcher" where
  "handle_messages w svc [] d = d"
| "handle_messages w svc (m # ms) d = handle_messages w svc ms (handle_message w svc m d)"

text \<open>
  The body of \<^verbatim>\<open>for service_name, queue_client in queues.items()\<close>, with the flag
  \<^verbatim>\<open>message_found\<close>. An exception of \<^verbatim>\<open>receive_messages\<close> leaves the loop.
\<close>

fun poll_queues ::
  "world \<Rightarrow> service list \<Rightarrow> bool \<Rightarrow> dispatcher \<Rightarrow> (py_error + bool) \<times> dispatcher" where
  "poll_queues w [] message_found d = (Inr message_found, d)"
| "poll_queues w (svc # rest) message_found d =
     (let d1 = d\<lparr>events := events d @ [Polled svc]\<rparr> in
      case receive_messages w svc 1 600 of
        Inl e \<Rightarrow> (Inl e, d1)
      | Inr messages \<Rightarrow>
          poll_queues w rest (message_found \<or> messages \<noteq> []) (handle_messages w svc messages d1))"

text \<open>
  One turn of \<^verbatim>\<open>while True\<close>; the flag returned is \<open>True\<close> when the turn ends in
  \<^verbatim>\<open>break\<close>.
\<close>

definition cycle :: "world \<Rightarrow> dispatcher \<Rightarrow> bool \<times> dispatcher" where
  "cycle w d =
     (case poll_queues w queues False d of
        (Inl e, d1) \<Rightarrow> (False, d1\<lparr>events := events d1 @ [LoopError e]\<rparr>)
      | (Inr message_found, d1) \<Rightarrow>
          if \<not> message_found then
            (let d2 = d1\<lparr>idle_count := idle_count d1 + 1\<rparr> in
             if idle_count d2 \<ge> max_idle_time then (True, d2) else (False, d2))
          else (False, d1))"

text \<open>
  The loop over the worlds of the successive cycles. \<open>Stopped n d\<close>: the loop ended
  in \<^verbatim>\<open>break\<close> in its \<open>n\<close>-th turn; \<open>Running d\<close>: all the given cycles are
  over and the loop is still polling.
\<close>

datatype run = Stopped nat dispatcher | Running dispatcher

fun main_loop :: "world list \<Rightarrow> dispatcher \<Rightarrow> run" where
  "main_loop [] d = Running d"
| "main_loop (w # ws) d =
     (case cycle w d of
        (True, d1) \<Rightarrow> Stopped 1 d1
      | (False, d1) \<Rightarrow>
          (case main_loop ws d1 of
             Stopped n d2 \<Rightarrow> Stopped (Suc n) d2
           | Running d2 \<Rightarrow> Running d2))"

text \<open>
  Start-up: the environment variable and the outcome of the calls made before the loop.
  A Python process whose \<^verbatim>\<open>main\<close> returns exits with status 0; one that ends in an
  uncaught exception exits with status 1.
\<close>

record startup =
  AZURE_STORAGE_CONNECTION_STRING :: "string option"
  gpu_check :: "py_error option"
  blob_service_client :: "py_error option"
  queue_clients :: "py_error option"

datatype outcome = Exited int | StillPolling

definition init_dispatcher :: dispatcher where
  "init_dispatcher =
     \<lparr>handler_state = \<lparr>proc = init_processor, blobs = Map.empty\<rparr>, idle_count = 0, events = []\<rparr>"

definition main :: "startup \<Rightarrow> world list \<Rightarrow> outcome" where
  "main st ws =
     (case (case gpu_check st of
              None \<Rightarrow> None
            | Some (ImportError m) \<Rightarrow> None
            | Some e \<Rightarrow> Some e) of
        Some e \<Rightarrow> Exited 1
      | None \<Rightarrow>
          if AZURE_STORAGE_CONNECTION_STRING st = None \<or>
             AZURE_STORAGE_CONNECTION_STRING st = Some []
          then Exited 0
          else
            (case blob_service_client st of
               Some e \<Rightarrow> Exited 1
             | None \<Rightarrow>
                 (case queue_clients st of
                    Some e \<Rightarrow> Exited 1
                  | None \<Rightarrow>
                      (case main_loop ws init_dispatcher of
                         Stopped n d \<Rightarrow> Exited 0
                       | Running d \<Rightarrow> StillPolling))))"

section \<open>Notions used to state the properties\<close>

text \<open>A world in which every decoded image is 1024 by 768.\<close>

definition big_world :: world where
  "big_world = good_world\<lparr>w_image_open := (\<lambda>b. Inr \<lparr>width = 1024, height = 768, mode = ''RGBA''\<rparr>)\<rparr>"


text \<open>The \<^verbatim>\<open>try\<close> bodies of the three handlers under one name.\<close>

fun process_try ::
  "service \<Rightarrow> world \<Rightarrow> job_data \<Rightarrow> system \<Rightarrow> (py_error + result_data) \<times> system" where
  "process_try StyleTransfer = process_style_transfer_try"
| "process_try RagChat = process_rag_chat_try"
| "process_try Recommendation = process_recommendation_try"

text \<open>The result dictionary that the \<^verbatim>\<open>except\<close> block of a handler builds.\<close>

definition error_result :: "service \<Rightarrow> world \<Rightarrow> string \<Rightarrow> py_error \<Rightarrow> result_data" where
  "error_result svc w jid e =
     \<lparr>r_job_id = jid, r_service_type = service_name svc, r_status = ''error'',
      r_body = ErrorBody (str e), r_timestamp = w_now w\<rparr>"

text \<open>
  What is assumed of the floating-point arithmetic, and holds of IEEE doubles rounded to
  nearest: rounding is monotone, the integers up to \<open>2 ^ 53\<close> are floats, and below
  the overflow threshold the rounding error is at most the relative error \<open>1 / 2 ^ 53\<close>
  plus half the spacing \<open>1 / 2 ^ 1074\<close> of the subnormal numbers.
\<close>

definition float_eps :: rat where
  "float_eps = 1 / 2 ^ 53"

definition float_tiny :: rat where
  "float_tiny = 1 / 2 ^ 1075"

definition double_rounding :: "(rat \<Rightarrow> rat) \<Rightarrow> bool" where
  "double_rounding fl =
     ((\<forall>a b. a \<le> b \<longrightarrow> fl a \<le> fl b) \<and>
      (\<forall>k::nat. k \<le> 2 ^ 53 \<longrightarrow> fl (rat_of_nat k) = rat_of_nat k) \<and>
      (\<forall>q. \<bar>q\<bar> < float_overflow \<longrightarrow> \<bar>fl q - q\<bar> \<le> \<bar>q\<bar> * float_eps + float_tiny))"

text \<open>
  A resized image keeps the aspect ratio of the original up to whole pixels: an image
  that fits the bound \<open>n\<close> is unchanged; otherwise its longest side becomes \<open>n\<close> and
  each side is within one pixel of its length scaled by \<open>n\<close> over the longest side of
  the original. The margin beyond the pixel, \<open>n / 2 ^ 51\<close>, covers the rounding of the
  floating-point operations.
\<close>

definition scaled_within :: "nat \<Rightarrow> image \<Rightarrow> image \<Rightarrow> bool" where
  "scaled_within n im im' =
     (if width im \<le> n \<and> height im \<le> n then width im' = width im \<and> height im' = height im
      else longest_side im' = n \<and>
           \<bar>rat_of_nat (width im') -
              rat_of_nat n * rat_of_nat (width im) / rat_of_nat (longest_side im)\<bar>
             < 1 + rat_of_nat n / 2 ^ 51 \<and>
           \<bar>rat_of_nat (height im') -
              rat_of_nat n * rat_of_nat (height im) / rat_of_nat (longest_side im)\<bar>
             < 1 + rat_of_nat n / 2 ^ 51)"

text \<open>A row meets the preferences: every key that is present holds for it.\<close>

definition meets :: "prefs \<Rightarrow> place \<Rightarrow> bool" where
  "meets pr r =
     ((case category pr of None \<Rightarrow> True | Some c \<Rightarrow> Category r = c) \<and>
      (case city pr of None \<Rightarrow> True | Some c \<Rightarrow> City r = c) \<and>
      (case max_price pr of None \<Rightarrow> True | Some p \<Rightarrow> Price r \<le> p) \<and>
      (case min_rating pr of None \<Rightarrow> True | Some m \<Rightarrow> Rating r \<ge> m))"

definition recommendations_of :: "result_data \<Rightarrow> recommendation list" where
  "recommendations_of r =
     (case r_body r of RecommendationBody uid pr recs n \<Rightarrow> recs | _ \<Rightarrow> [])"

text \<open>The events that a step appended, and what they say about one queue.\<close>

definition new_events :: "dispatcher \<Rightarrow> dispatcher \<Rightarrow> event list" where
  "new_events d d' = drop (length (events d)) (events d')"

fun polled_of :: "event list \<Rightarrow> service list" where
  "polled_of [] = []"
| "polled_of (Polled svc # es) = svc # polled_of es"
| "polled_of (e # es) = polled_of es"

fun received_of :: "service \<Rightarrow> event list \<Rightarrow> message list" where
  "received_of svc [] = []"
| "received_of svc (Received svc' m # es) =
     (if svc' = svc then m # received_of svc es else received_of svc es)"
| "received_of svc (e # es) = received_of svc es"

text \<open>A cycle in which every queue answers and none has a message.\<close>

definition quiet :: "world \<Rightarrow> bool" where
  "quiet w = list_all (\<lambda>svc. w_receive w svc = Inr []) queues"

definition receives_ok :: "world \<Rightarrow> bool" where
  "receives_ok w = list_all (\<lambda>svc. case w_receive w svc of Inl e \<Rightarrow> False | Inr ms \<Rightarrow> True) queues"

text \<open>
  A world in which the queue service cannot be reached: \<^verbatim>\<open>receive_messages\<close> raises
  for every queue.
\<close>

definition world_down :: world where
  "world_down = good_world\<lparr>w_receive := (\<lambda>q. Inl (OtherError ''ServiceRequestError''))\<rparr>"

text \<open>
  A recommendation job for Yogyakarta without \<^verbatim>\<open>user_id\<close>, the message that carries
  it and a world whose \<^verbatim>\<open>json.loads\<close> yields it.
\<close>

definition job_r1 :: job_data where
  "job_r1 = \<lparr>job_id = Some ''r1'', content_image = None, style_image = None, strength = None,
     question = None, user_id = None, preferences = Some \<lparr>category = None, city = Some ''Yogyakarta'',
       max_price = None, min_rating = None\<rparr>, limit = Some 2, start_time = None\<rparr>"

definition msg_r1 :: message where
  "msg_r1 = \<lparr>message_id = 1, content = ''{...r1...}''\<rparr>"

definition world_r1 :: world where
  "world_r1 = good_world\<lparr>w_json_loads := (\<lambda>c. Inr job_r1)\<rparr>"

text \<open>\<^verbatim>\<open>job_data.get('limit', 10)\<close>.\<close>

definition job_limit :: "job_data \<Rightarrow> int" where
  "job_limit job = (case limit job of None \<Rightarrow> 10 | Some l \<Rightarrow> l)"

text \<open>
  A small dataset, a world that reads it, a job asking for the best \<open>n\<close> places of
  category Budaya rated at least 4.5, and the result of that job for \<open>n = 2\<close>.
\<close>

definition tourism_example :: "place list" where
  "tourism_example =
     [\<lparr>Place_Id = 1, Place_Name = ''Monumen Nasional'', Description = ''Monumen'',
       Category = ''Budaya'', City = ''Jakarta'', Price = 20000, Rating = 46 / 10,
       Time_Minutes = 15, Lat = - 6, Long = 106\<rparr>,
      \<lparr>Place_Id = 2, Place_Name = ''Kota Tua'', Description = ''Kota'',
       Category = ''Budaya'', City = ''Jakarta'', Price = 0, Rating = 46 / 10,
       Time_Minutes = 90, Lat = - 6, Long = 106\<rparr>,
      \<lparr>Place_Id = 85, Place_Name = ''Taman Pintar'', Description = ''Taman'',
       Category = ''Taman Hiburan'', City = ''Yogyakarta'', Price = 6000, Rating = 45 / 10,
       Time_Minutes = 120, Lat = - 7, Long = 110\<rparr>,
      \<lparr>Place_Id = 86, Place_Name = ''Keraton'', Description = ''Keraton'',
       Category = ''Budaya'', City = ''Yogyakarta'', Price = 15000, Rating = 46 / 10,
       Time_Minutes = 60, Lat = - 7, Long = 110\<rparr>,
      \<lparr>Place_Id = 95, Place_Name = ''Candi Prambanan'', Description = ''Candi'',
       Category = ''Budaya'', City = ''Yogyakarta'', Price = 50000, Rating = 47 / 10,
       Time_Minutes = 120, Lat = - 7, Long = 110\<rparr>,
      \<lparr>Place_Id = 110, Place_Name = ''Pantai Parangtritis'', Description = ''Pantai'',
       Category = ''Bahari'', City = ''Yogyakarta'', Price = 10000, Rating = 4,
       Time_Minutes = 90, Lat = - 8, Long = 110\<rparr>]"

definition tourism_world :: world where
  "tourism_world = good_world\<lparr>w_read_tourism := Inr tourism_example\<rparr>"

definition job_budaya :: "int \<Rightarrow> job_data" where
  "job_budaya n =
     \<lparr>job_id = Some ''r2'', content_image = None, style_image = None, strength = None,
      question = None, user_id = Some ''u1'',
      preferences = Some \<lparr>category = Some ''Budaya'', city = None, max_price = None,
                           min_rating = Some (45 / 10)\<rparr>,
      limit = Some n, start_time = Some 0\<rparr>"

definition result_r2 :: result_data where
  "result_r2 =
     \<lparr>r_job_id = ''r2'', r_service_type = ''recommendation'', r_status = ''completed'',
      r_body = RecommendationBody ''u1''
        \<lparr>category = Some ''Budaya'', city = None, max_price = None, min_rating = Some (45 / 10)\<rparr>
        [\<lparr>r_place_id = 95, r_place_name = ''Candi Prambanan'', r_description = ''Candi'',
          r_category = ''Budaya'', r_city = ''Yogyakarta'', r_price = 50000, r_rating = 47 / 10,
          r_time_minutes = 120, r_latitude = - 7, r_longitude = 110\<rparr>,
         \<lparr>r_place_id = 1, r_place_name = ''Monumen Nasional'', r_description = ''Monumen'',
          r_category = ''Budaya'', r_city = ''Jakarta'', r_price = 20000, r_rating = 46 / 10,
          r_time_minutes = 15, r_latitude = - 6, r_longitude = 106\<rparr>] 2,
      r_timestamp = 0\<rparr>"

text \<open>The events that handling one message appends, by the way its handling ends.\<close>

definition message_events :: "world \<Rightarrow> service \<Rightarrow> message \<Rightarrow> system \<Rightarrow> event list" where
  "message_events w svc m st =
     (case w_json_loads w (content m) of
        Inl e \<Rightarrow> [Received svc m, Failed svc m e]
      | Inr parsed \<Rightarrow>
          (case fst (process svc w (parsed\<lparr>start_time := Some (w_now w)\<rparr>) st) of
             Inl e \<Rightarrow> [Received svc m, Raised svc m e, Failed svc m e]
           | Inr r \<Rightarrow>
               [Received svc m, Returned svc m, DeleteMessage svc m] @
               (case w_delete w of Some e \<Rightarrow> [Failed svc m e] | None \<Rightarrow> [])))"

text \<open>A style-transfer job, its message and a world whose \<^verbatim>\<open>json.loads\<close> yields it.\<close>

definition job_s1 :: job_data where
  "job_s1 =
     \<lparr>job_id = Some ''s1'', content_image = Some ''QUJD'', style_image = Some ''REVG'',
      strength = None, question = None, user_id = None, preferences = None, limit = None,
      start_time = Some 0\<rparr>"

definition msg_s1 :: message where
  "msg_s1 = \<lparr>message_id = 7, content = ''{...s1...}''\<rparr>"

definition world_s1 :: world where
  "world_s1 = good_world\<lparr>w_json_loads := (\<lambda>c. Inr job_s1)\<rparr>"

text \<open>The queue that an event belongs to.\<close>

fun event_service :: "event \<Rightarrow> service option" where
  "event_service (Polled s) = Some s"
| "event_service (Received s m) = Some s"
| "event_service (Returned s m) = Some s"
| "event_service (Raised s m e) = Some s"
| "event_service (DeleteMessage s m) = Some s"
| "event_service (Failed s m e) = Some s"
| "event_service (LoopError e) = None"

text \<open>
  What holds of the events of one pass over the queues \<open>qs\<close>: every event belongs to
  one of them, they are polled in order, each yields at most one message, and a message is
  deleted exactly when its handler returned.
\<close>

definition trace_ok :: "service list \<Rightarrow> event list \<Rightarrow> bool" where
  "trace_ok qs es =
     ((\<forall>ev \<in> set es. \<exists>s \<in> set qs. event_service ev = Some s) \<and>
      (\<exists>k. polled_of es = take k qs) \<and>
      (\<forall>svc. length (received_of svc es) \<le> 1) \<and>
      (\<forall>svc m. DeleteMessage svc m \<in> set es \<longleftrightarrow> Returned svc m \<in> set es) \<and>
      (\<forall>svc m e. Raised svc m e \<in> set es \<longrightarrow> DeleteMessage svc m \<notin> set es))"

text \<open>
  A start-up that reaches the polling loop: the GPU probe does not crash, the connection
  string is set and the storage clients are created.
\<close>

definition startup_ok :: "startup \<Rightarrow> bool" where
  "startup_ok st =
     ((case gpu_check st of None \<Rightarrow> True | Some (ImportError m) \<Rightarrow> True | Some e \<Rightarrow> False) \<and>
      (case AZURE_STORAGE_CONNECTION_STRING st of None \<Rightarrow> False | Some c \<Rightarrow> c \<noteq> []) \<and>
      blob_service_client st = None \<and> queue_clients st = None)"

text \<open>
  A cycle with work: one style-transfer message, no chat message and two recommendation
  messages visible.
\<close>

definition msg_r2 :: message where
  "msg_r2 = \<lparr>message_id = 2, content = ''r2''\<rparr>"

definition msg_r3 :: message where
  "msg_r3 = \<lparr>message_id = 3, content = ''r3''\<rparr>"

definition world_busy :: world where
  "world_busy =
     tourism_world
       \<lparr>w_json_loads := (\<lambda>c. if c = ''r2'' then Inr (job_budaya 2) else Inr job_s1),
        w_receive := (\<lambda>q. case q of StyleTransfer \<Rightarrow> Inr [msg_s1] | RagChat \<Rightarrow> Inr []
                         | Recommendation \<Rightarrow> Inr [msg_r2, msg_r3])\<rparr>"

section \<open>Properties of the loaders\<close>

lemma loaded_noop: "is_loaded svc s \<Longrightarrow> load_service svc w s = (None, s)"
  by (cases svc)
    (simp_all add: load_style_transfer_model_def load_rag_system_def
      load_recommendation_data_def)

lemma load_calls_loaded: "is_loaded svc s \<Longrightarrow> load_calls svc ws s = s"
  by (induction ws) (simp_all add: loaded_noop)

lemmas loader_defs =
  load_style_transfer_model_def load_rag_system_def load_recommendation_data_def
  model_load_def Let_def

lemma load_ok_loaded: "load_service svc w s = (None, s1) \<Longrightarrow> is_loaded svc s1"
  by (cases svc)
    (auto simp: loader_defs
      split: if_splits option.splits sum.splits prod.splits py_error.splits)

lemma load_ok_builds:
  "load_service svc w s = (None, s1) \<Longrightarrow> builds svc s1 \<le> Suc (builds svc s)"
  by (cases svc)
    (auto simp: loader_defs
      split: if_splits option.splits sum.splits prod.splits py_error.splits)

lemma load_fail:
  "load_service svc w s = (Some e, s') \<Longrightarrow>
     \<not> is_loaded svc s' \<and> builds svc s' = Suc (builds svc s) \<and>
     (svc = StyleTransfer \<longrightarrow> ip_model s' = None)"
  by (cases svc)
    (auto simp: loader_defs
      split: if_splits option.splits sum.splits prod.splits py_error.splits)

lemma load_retry:
  "\<not> is_loaded svc s \<Longrightarrow> (svc = StyleTransfer \<longrightarrow> ip_model s = None) \<Longrightarrow>
   construction_ok svc w \<Longrightarrow>
     fst (load_service svc w s) = None \<and>
     is_loaded svc (snd (load_service svc w s)) \<and>
     builds svc (snd (load_service svc w s)) = Suc (builds svc s)"
  by (cases svc)
    (auto simp: loader_defs
      split: if_splits option.splits sum.splits prod.splits py_error.splits)

lemma load_init_ok:
  "construction_ok svc w \<Longrightarrow>
     fst (load_service svc w init_processor) = None \<and>
     is_loaded svc (snd (load_service svc w init_processor)) \<and>
     builds svc (snd (load_service svc w init_processor)) = 1"
  using load_retry [of svc init_processor w]
  by (cases svc) (simp_all add: init_processor_def)

lemma load_calls_init:
  "list_all (construction_ok svc) ws \<Longrightarrow>
     builds svc (load_calls svc ws init_processor) = (if ws = [] then 0 else 1)"
proof (cases ws)
  case Nil
  then show ?thesis by (cases svc) (simp_all add: init_processor_def)
next
  case (Cons w ws')
  assume "list_all (construction_ok svc) ws"
  with Cons have ok: "construction_ok svc w" by simp
  from load_init_ok [OF ok] show ?thesis
    by (simp add: Cons load_calls_loaded)
qed

lemma construction_ok_iff: "construction_ok svc w \<longleftrightarrow> construction_error svc w = None"
  by (cases svc) (auto split: option.splits sum.splits py_error.splits)

lemma load_raises:
  "\<not> is_loaded svc s \<Longrightarrow> (svc = StyleTransfer \<longrightarrow> ip_model s = None) \<Longrightarrow>
   construction_error svc w = Some e \<Longrightarrow>
     fst (load_service svc w s) = Some e \<and>
     \<not> is_loaded svc (snd (load_service svc w s)) \<and>
     builds svc (snd (load_service svc w s)) = Suc (builds svc s) \<and>
     (svc = StyleTransfer \<longrightarrow> ip_model (snd (load_service svc w s)) = None)"
  by (cases svc)
    (auto simp: loader_defs
      split: if_splits option.splits sum.splits prod.splits py_error.splits)

lemma load_raised:
  "load_service svc w s = (Some e, s') \<Longrightarrow>
     \<not> is_loaded svc s \<and> construction_error svc w = Some e"
  by (cases svc)
    (auto simp: loader_defs
      split: if_splits option.splits sum.splits prod.splits py_error.splits)

lemma load_handle:
  "\<not> is_loaded svc s \<Longrightarrow> (svc = StyleTransfer \<longrightarrow> ip_model s = None) \<Longrightarrow>
   construction_ok svc w \<Longrightarrow>
     handle_of svc (snd (load_service svc w s)) = Some (constructed svc w)"
  by (cases svc)
    (auto simp: loader_defs
      split: if_splits option.splits sum.splits prod.splits py_error.splits)

lemma handle_init: "handle_of svc init_processor = None"
  by (cases svc) (simp_all add: init_processor_def)

lemma fresh_init:
  "\<not> is_loaded svc init_processor \<and> (svc = StyleTransfer \<longrightarrow> ip_model init_processor = None) \<and>
   builds svc init_processor = 0"
  by (cases svc) (simp_all add: init_processor_def)

lemma load_calls_builds:
  "\<not> is_loaded svc s \<Longrightarrow> (svc = StyleTransfer \<longrightarrow> ip_model s = None) \<Longrightarrow>
     builds svc (load_calls svc ws s) =
       builds svc s + length (takeWhile (\<lambda>w. \<not> construction_ok svc w) ws) +
       (if list_all (\<lambda>w. \<not> construction_ok svc w) ws then 0 else 1)"
proof (induction ws arbitrary: s)
  case Nil
  then show ?case by simp
next
  case (Cons w ws)
  show ?case
  proof (cases "construction_ok svc w")
    case True
    from load_retry [OF Cons.prems True]
    have l: "is_loaded svc (snd (load_service svc w s))"
      and b: "builds svc (snd (load_service svc w s)) = Suc (builds svc s)"
      by simp_all
    from True b show ?thesis by (simp add: load_calls_loaded [OF l])
  next
    case False
    then obtain e where e: "construction_error svc w = Some e"
      by (auto simp: construction_ok_iff)
    from load_raises [OF Cons.prems e]
    have n: "\<not> is_loaded svc (snd (load_service svc w s))"
      and b: "builds svc (snd (load_service svc w s)) = Suc (builds svc s)"
      and m: "svc = StyleTransfer \<longrightarrow> ip_model (snd (load_service svc w s)) = None"
      by simp_all
    from Cons.IH [OF n m] False b show ?thesis by simp
  qed
qed

lemma load_calls_init_handle:
  "list_all (construction_ok svc) ws \<Longrightarrow>
     handle_of svc (load_calls svc ws init_processor) =
       (if ws = [] then None else Some (constructed svc (hd ws)))"
proof (cases ws)
  case Nil
  then show ?thesis by (simp add: handle_init)
next
  case (Cons w ws')
  assume "list_all (construction_ok svc) ws"
  with Cons have ok: "construction_ok svc w" by simp
  from fresh_init [of svc] have f: "\<not> is_loaded svc init_processor"
    "svc = StyleTransfer \<longrightarrow> ip_model init_processor = None" by simp_all
  from load_retry [OF f ok] load_handle [OF f ok] show ?thesis
    by (simp add: Cons load_calls_loaded)
qed

text \<open>
  C3. When the construction that a loader enters raises, the loader raises that exception
  to its caller and its loaded flag is still unset; the construction code was entered
  once. The next call enters construction again: it raises again when construction
  raises again, and when construction succeeds it returns normally and sets the flag. A
  loader raises nothing but what its construction raised.
\<close>

theorem loader_failure_not_cached:
  assumes "\<not> is_loaded svc s" and "svc = StyleTransfer \<longrightarrow> ip_model s = None"
    and "construction_error svc w = Some e"
  shows "fst (load_service svc w s) = Some e \<and>
     \<not> is_loaded svc (snd (load_service svc w s)) \<and>
     builds svc (snd (load_service svc w s)) = Suc (builds svc s) \<and>
     (\<forall>w'. construction_ok svc w' \<longrightarrow>
        fst (load_service svc w' (snd (load_service svc w s))) = None \<and>
        is_loaded svc (snd (load_service svc w' (snd (load_service svc w s)))) \<and>
        builds svc (snd (load_service svc w' (snd (load_service svc w s))))
          = Suc (Suc (builds svc s))) \<and>
     (\<forall>w' e'. construction_error svc w' = Some e' \<longrightarrow>
        fst (load_service svc w' (snd (load_service svc w s))) = Some e' \<and>
        \<not> is_loaded svc (snd (load_service svc w' (snd (load_service svc w s))))) \<and>
     (\<forall>w0 s0 e0 s1. load_service svc w0 s0 = (Some e0, s1) \<longrightarrow>
        \<not> is_loaded svc s0 \<and> construction_error svc w0 = Some e0) \<and>
     (\<forall>w0. construction_ok svc w0 \<longleftrightarrow> construction_error svc w0 = None)"
proof -
  let ?s' = "snd (load_service svc w s)"
  from load_raises [OF assms] have r: "fst (load_service svc w s) = Some e"
    and f: "\<not> is_loaded svc ?s'"
    and b: "builds svc ?s' = Suc (builds svc s)"
    and m: "svc = StyleTransfer \<longrightarrow> ip_model ?s' = None"
    by simp_all
  show ?thesis
  proof (intro conjI allI impI)
    show "fst (load_service svc w s) = Some e" by (rule r)
    show "\<not> is_loaded svc ?s'" by (rule f)
    show "builds svc ?s' = Suc (builds svc s)" by (rule b)
  next
    fix w'
    assume o: "construction_ok svc w'"
    from load_retry [OF f m o]
    show "fst (load_service svc w' ?s') = None"
      and "is_loaded svc (snd (load_service svc w' ?s'))"
      by simp_all
    from load_retry [OF f m o] b
    show "builds svc (snd (load_service svc w' ?s')) = Suc (Suc (builds svc s))"
      by simp
  next
    fix w' e'
    assume c: "construction_error svc w' = Some e'"
    from load_raises [OF f m c]
    show "fst (load_service svc w' ?s') = Some e'"
      and "\<not> is_loaded svc (snd (load_service svc w' ?s'))"
      by simp_all
  next
    fix w0 s0 e0 s1
    assume "load_service svc w0 s0 = (Some e0, s1)"
    from load_raised [OF this]
    show "\<not> is_loaded svc s0" and "construction_error svc w0 = Some e0"
      by simp_all
  next
    fix w0
    show "construction_ok svc w0 \<longleftrightarrow> construction_error svc w0 = None"
      by (rule construction_ok_iff)
  qed
qed

theorem loader_failure_not_cached_witness:
  "list_all
     (\<lambda>(svc, bad).
        \<not> is_loaded svc init_processor \<and>
        construction_error svc bad = Some (OtherError ''unavailable'') \<and>
        construction_ok svc good_world \<and>
        fst (load_service svc bad init_processor) = Some (OtherError ''unavailable'') \<and>
        \<not> is_loaded svc (snd (load_service svc bad init_processor)) \<and>
        fst (load_service svc bad (snd (load_service svc bad init_processor)))
          = Some (OtherError ''unavailable'') \<and>
        fst (load_service svc good_world (snd (load_service svc bad init_processor))) = None \<and>
        is_loaded svc
          (snd (load_service svc good_world (snd (load_service svc bad init_processor)))) \<and>
        builds svc
          (snd (load_service svc good_world (snd (load_service svc bad init_processor)))) = 2)
     [(StyleTransfer, good_world\<lparr>w_build_pipeline := Some (OtherError ''unavailable'')\<rparr>),
      (RagChat, good_world\<lparr>w_get_collection := Some (OtherError ''unavailable'')\<rparr>),
      (RagChat, good_world\<lparr>w_ollama := Some (OtherError ''unavailable'')\<rparr>),
      (Recommendation, good_world\<lparr>w_read_rating := Some (OtherError ''unavailable'')\<rparr>)]"
proof -
  have ok: "construction_ok svc good_world" for svc
    by (cases svc) (simp_all add: good_world_def)
  have w: "\<not> is_loaded svc init_processor \<and>
        construction_error svc bad = Some (OtherError ''unavailable'') \<and>
        construction_ok svc good_world \<and>
        fst (load_service svc bad init_processor) = Some (OtherError ''unavailable'') \<and>
        \<not> is_loaded svc (snd (load_service svc bad init_processor)) \<and>
        fst (load_service svc bad (snd (load_service svc bad init_processor)))
          = Some (OtherError ''unavailable'') \<and>
        fst (load_service svc good_world (snd (load_service svc bad init_processor))) = None \<and>
        is_loaded svc
          (snd (load_service svc good_world (snd (load_service svc bad init_processor)))) \<and>
        builds svc
          (snd (load_service svc good_world (snd (load_service svc bad init_processor)))) = 2"
    if c: "construction_error svc bad = Some (OtherError ''unavailable'')" for svc bad
  proof -
    from fresh_init [of svc] have n: "\<not> is_loaded svc init_processor"
      and m: "svc = StyleTransfer \<longrightarrow> ip_model init_processor = None"
      and z: "builds svc init_processor = 0"
      by simp_all
    note t = loader_failure_not_cached [OF n m c]
    from t have a: "fst (load_service svc bad init_processor) = Some (OtherError ''unavailable'')"
      and b: "\<not> is_loaded svc (snd (load_service svc bad init_processor))"
      by blast+
    from t c have d: "fst (load_service svc bad (snd (load_service svc bad init_processor)))
          = Some (OtherError ''unavailable'')"
      by blast
    from t ok [of svc]
    have g: "fst (load_service svc good_world (snd (load_service svc bad init_processor))) = None \<and>
        is_loaded svc
          (snd (load_service svc good_world (snd (load_service svc bad init_processor)))) \<and>
        builds svc
          (snd (load_service svc good_world (snd (load_service svc bad init_processor))))
          = Suc (Suc (builds svc init_processor))"
      by blast
    from n c ok [of svc] a b d g z show ?thesis by simp
  qed
  have c1: "construction_error StyleTransfer
      (good_world\<lparr>w_build_pipeline := Some (OtherError ''unavailable'')\<rparr>)
      = Some (OtherError ''unavailable'')"
    by (simp add: good_world_def)
  have c2: "construction_error RagChat
      (good_world\<lparr>w_get_collection := Some (OtherError ''unavailable'')\<rparr>)
      = Some (OtherError ''unavailable'')"
    by (simp add: good_world_def)
  have c3: "construction_error RagChat
      (good_world\<lparr>w_ollama := Some (OtherError ''unavailable'')\<rparr>)
      = Some (OtherError ''unavailable'')"
    by (simp add: good_world_def)
  have c4: "construction_error Recommendation
      (good_world\<lparr>w_read_rating := Some (OtherError ''unavailable'')\<rparr>)
      = Some (OtherError ''unavailable'')"
    by (simp add: good_world_def)
  from w [OF c1] w [OF c2] w [OF c3] w [OF c4] show ?thesis
    by (simp only: list.pred_inject prod.case simp_thms)
qed

text \<open>
  C4. After a call of a loader that returns normally the service is marked loaded, and
  every later call, whatever the world would answer, returns normally and leaves the whole
  state as it is. The first call whose construction succeeds enters construction once and
  leaves the handle that the construction built in the processor; every later call keeps
  that handle and the count of constructions. From a fresh processor, a sequence of calls
  whose constructions succeed enters construction once, and any sequence of calls enters
  it once for every failure before the first success and once for that success.
  \<^verbatim>\<open>model_load\<close> itself returns the cached handle without construction.
\<close>

theorem loader_idempotent:
  "(load_service svc w s = (None, s1) \<longrightarrow>
      is_loaded svc s1 \<and> builds svc s1 \<le> Suc (builds svc s) \<and>
      (\<forall>w'. load_service svc w' s1 = (None, s1)) \<and>
      (\<forall>ws. load_calls svc ws s1 = s1)) \<and>
   (\<not> is_loaded svc s \<and> (svc = StyleTransfer \<longrightarrow> ip_model s = None) \<and> construction_ok svc w \<longrightarrow>
      fst (load_service svc w s) = None \<and>
      builds svc (snd (load_service svc w s)) = Suc (builds svc s) \<and>
      handle_of svc (snd (load_service svc w s)) = Some (constructed svc w) \<and>
      (\<forall>ws' w'. fst (load_service svc w' (load_calls svc ws' (snd (load_service svc w s)))) = None \<and>
         handle_of svc (load_calls svc ws' (snd (load_service svc w s)))
           = Some (constructed svc w) \<and>
         builds svc (load_calls svc ws' (snd (load_service svc w s))) = Suc (builds svc s))) \<and>
   (list_all (construction_ok svc) ws \<longrightarrow>
      builds svc (load_calls svc ws init_processor) = (if ws = [] then 0 else 1) \<and>
      handle_of svc (load_calls svc ws init_processor)
        = (if ws = [] then None else Some (constructed svc (hd ws)))) \<and>
   builds svc (load_calls svc ws2 init_processor)
     = length (takeWhile (\<lambda>w. \<not> construction_ok svc w) ws2) +
       (if list_all (\<lambda>w. \<not> construction_ok svc w) ws2 then 0 else 1) \<and>
   (ip_model s2 = Some m \<longrightarrow> model_load w2 s2 = (Inr m, s2))"
proof (intro conjI impI allI)
  assume a: "load_service svc w s = (None, s1)"
  then show l: "is_loaded svc s1" by (rule load_ok_loaded)
  from a show "builds svc s1 \<le> Suc (builds svc s)" by (rule load_ok_builds)
  from l show "load_service svc w' s1 = (None, s1)" for w' by (simp add: loaded_noop)
  from l show "load_calls svc ws s1 = s1" for ws by (simp add: load_calls_loaded)
next
  assume a: "\<not> is_loaded svc s \<and> (svc = StyleTransfer \<longrightarrow> ip_model s = None) \<and>
    construction_ok svc w"
  then have n: "\<not> is_loaded svc s" and m: "svc = StyleTransfer \<longrightarrow> ip_model s = None"
    and ok: "construction_ok svc w" by simp_all
  let ?s1 = "snd (load_service svc w s)"
  from load_retry [OF n m ok] show r: "fst (load_service svc w s) = None"
    and b: "builds svc ?s1 = Suc (builds svc s)"
    by simp_all
  from load_retry [OF n m ok] have l: "is_loaded svc ?s1" by simp
  from load_handle [OF n m ok] show h: "handle_of svc ?s1 = Some (constructed svc w)" .
  fix ws' w'
  from l have e: "load_calls svc ws' ?s1 = ?s1" by (rule load_calls_loaded)
  from l show "fst (load_service svc w' (load_calls svc ws' ?s1)) = None"
    unfolding e by (simp add: loaded_noop)
  from h show "handle_of svc (load_calls svc ws' ?s1) = Some (constructed svc w)"
    unfolding e .
  from b show "builds svc (load_calls svc ws' ?s1) = Suc (builds svc s)"
    unfolding e .
next
  assume a: "list_all (construction_ok svc) ws"
  then show "builds svc (load_calls svc ws init_processor) = (if ws = [] then 0 else 1)"
    by (rule load_calls_init)
  from a show "handle_of svc (load_calls svc ws init_processor)
        = (if ws = [] then None else Some (constructed svc (hd ws)))"
    by (rule load_calls_init_handle)
next
  from fresh_init [of svc]
  show "builds svc (load_calls svc ws2 init_processor)
     = length (takeWhile (\<lambda>w. \<not> construction_ok svc w) ws2) +
       (if list_all (\<lambda>w. \<not> construction_ok svc w) ws2 then 0 else 1)"
    using load_calls_builds [of svc init_processor ws2] by simp
next
  assume "ip_model s2 = Some m"
  then show "model_load w2 s2 = (Inr m, s2)" by (simp add: model_load_def)
qed

theorem loader_idempotent_witness:
  "list_all
     (\<lambda>(svc, h, bad).
        \<not> is_loaded svc init_processor \<and> construction_ok svc good_world \<and>
        \<not> construction_ok svc bad \<and>
        fst (load_service svc good_world init_processor) = None \<and>
        handle_of svc (snd (load_service svc good_world init_processor)) = Some h \<and>
        builds svc (snd (load_service svc good_world init_processor)) = 1 \<and>
        handle_of svc
          (load_calls svc [bad, good_world, bad] (snd (load_service svc good_world init_processor)))
          = Some h \<and>
        builds svc
          (load_calls svc [bad, good_world, bad] (snd (load_service svc good_world init_processor)))
          = 1 \<and>
        builds svc (load_calls svc [bad, bad, good_world, bad, good_world] init_processor) = 3)
     [(StyleTransfer, StyleHandle IPAdapter,
         good_world\<lparr>w_build_pipeline := Some (OtherError ''unavailable'')\<rparr>),
      (RagChat, RagHandle (Some ()),
         good_world\<lparr>w_chroma_open := Some (OtherError ''unavailable'')\<rparr>),
      (Recommendation, RecHandle [],
         good_world\<lparr>w_read_tourism := Inl (OtherError ''unavailable'')\<rparr>)]"
proof -
  have ok: "construction_ok svc good_world" for svc
    by (cases svc) (simp_all add: good_world_def)
  have w: "\<not> is_loaded svc init_processor \<and> construction_ok svc good_world \<and>
        \<not> construction_ok svc bad \<and>
        fst (load_service svc good_world init_processor) = None \<and>
        handle_of svc (snd (load_service svc good_world init_processor)) = Some h \<and>
        builds svc (snd (load_service svc good_world init_processor)) = 1 \<and>
        handle_of svc
          (load_calls svc [bad, good_world, bad] (snd (load_service svc good_world init_processor)))
          = Some h \<and>
        builds svc
          (load_calls svc [bad, good_world, bad] (snd (load_service svc good_world init_processor)))
          = 1 \<and>
        builds svc (load_calls svc [bad, bad, good_world, bad, good_world] init_processor) = 3"
    if bad: "\<not> construction_ok svc bad" and h: "constructed svc good_world = h" for svc bad h
  proof -
    from fresh_init [of svc] have n: "\<not> is_loaded svc init_processor"
      and m: "svc = StyleTransfer \<longrightarrow> ip_model init_processor = None"
      and z: "builds svc init_processor = 0"
      by simp_all
    note t = loader_idempotent [where svc = svc and w = good_world and s = init_processor
        and ?ws2.0 = "[bad, bad, good_world, bad, good_world]"]
    from t n m ok [of svc]
    have a: "fst (load_service svc good_world init_processor) = None"
      and b: "builds svc (snd (load_service svc good_world init_processor))
          = Suc (builds svc init_processor)"
      and c: "handle_of svc (snd (load_service svc good_world init_processor))
          = Some (constructed svc good_world)"
      and d: "\<forall>ws' w'. fst (load_service svc w'
            (load_calls svc ws' (snd (load_service svc good_world init_processor)))) = None \<and>
         handle_of svc
            (load_calls svc ws' (snd (load_service svc good_world init_processor)))
           = Some (constructed svc good_world) \<and>
         builds svc (load_calls svc ws' (snd (load_service svc good_world init_processor)))
           = Suc (builds svc init_processor)"
      by blast+
    from t have e: "builds svc (load_calls svc [bad, bad, good_world, bad, good_world] init_processor)
       = length (takeWhile (\<lambda>w. \<not> construction_ok svc w) [bad, bad, good_world, bad, good_world]) +
         (if list_all (\<lambda>w. \<not> construction_ok svc w) [bad, bad, good_world, bad, good_world]
          then 0 else 1)"
      by blast
    from bad ok [of svc]
    have e': "builds svc (load_calls svc [bad, bad, good_world, bad, good_world] init_processor) = 3"
      unfolding e by simp
    from d have d1: "handle_of svc
          (load_calls svc [bad, good_world, bad] (snd (load_service svc good_world init_processor)))
          = Some (constructed svc good_world)"
      and d2: "builds svc
          (load_calls svc [bad, good_world, bad] (snd (load_service svc good_world init_processor)))
          = Suc (builds svc init_processor)"
      by blast+
    from n ok [of svc] bad a b c d1 d2 e' z h show ?thesis by simp
  qed
  have b1: "\<not> construction_ok StyleTransfer
      (good_world\<lparr>w_build_pipeline := Some (OtherError ''unavailable'')\<rparr>)"
    by (simp add: good_world_def)
  have b2: "\<not> construction_ok RagChat
      (good_world\<lparr>w_chroma_open := Some (OtherError ''unavailable'')\<rparr>)"
    by (simp add: good_world_def)
  have b3: "\<not> construction_ok Recommendation
      (good_world\<lparr>w_read_tourism := Inl (OtherError ''unavailable'')\<rparr>)"
    by (simp add: good_world_def)
  have h1: "constructed StyleTransfer good_world = StyleHandle IPAdapter"
    by (simp add: good_world_def)
  have h2: "constructed RagChat good_world = RagHandle (Some ())"
    by (simp add: good_world_def)
  have h3: "constructed Recommendation good_world = RecHandle []"
    by (simp add: good_world_def)
  from w [OF b1 h1] w [OF b2 h2] w [OF b3 h3] show ?thesis
    by (simp only: list.pred_inject prod.case simp_thms)
qed

section \<open>Properties of the style transfer\<close>


lemma round_aspect_ge1: "1 \<le> round_aspect q key"
  by (simp add: round_aspect_def)

lemma round_aspect_le: "q \<le> rat_of_int m \<Longrightarrow> 1 \<le> m \<Longrightarrow> round_aspect q key \<le> m"
  by (auto simp: round_aspect_def Let_def ceiling_le_iff floor_le_iff intro: order_trans)

lemma round_aspect_int: "round_aspect (rat_of_int m) key = max m 1"
  by (simp add: round_aspect_def Let_def)

lemma round_aspect_cases:
  "\<bar>rat_of_int (round_aspect q key) - q\<bar> < 1 \<or> (round_aspect q key = 1 \<and> q < 1)"
proof -
  define p where "p = (if key \<lceil>q\<rceil> < key \<lfloor>q\<rfloor> then \<lceil>q\<rceil> else \<lfloor>q\<rfloor>)"
  have r: "round_aspect q key = max p 1" by (simp add: round_aspect_def p_def Let_def)
  have near: "\<bar>rat_of_int p - q\<bar> < 1" unfolding p_def by (auto simp: abs_less_iff) linarith+
  show ?thesis
  proof (cases "1 \<le> p")
    case True
    with r near show ?thesis by (simp add: max_def)
  next
    case False
    then have "p \<le> 0" by simp
    then have "rat_of_int p \<le> 0" by simp
    with near have "q < 1" by (simp add: abs_less_iff)
    with False r show ?thesis by (simp add: max_def)
  qed
qed

lemma round_aspect_close:
  assumes q: "0 \<le> q" and d: "\<bar>number - q\<bar> \<le> D" and D: "0 < D"
  shows "\<bar>rat_of_int (round_aspect number key) - q\<bar> < 1 + D"
  using round_aspect_cases [of number key]
proof
  assume "\<bar>rat_of_int (round_aspect number key) - number\<bar> < 1"
  with d show ?thesis by (simp add: abs_less_iff abs_le_iff)
next
  assume a: "round_aspect number key = 1 \<and> number < 1"
  with d have "q < 1 + D" by (simp add: abs_le_iff)
  with q D a show ?thesis by (simp add: abs_less_iff)
qed

lemma float_eps_pos: "0 < float_eps"
  by (simp add: float_eps_def)

lemma float_tiny_nonneg: "0 \<le> float_tiny"
  by (simp add: float_tiny_def)

lemma float_tiny_le: "float_tiny \<le> float_eps"
  unfolding float_tiny_def float_eps_def
  by (intro divide_left_mono power_increasing) simp_all

lemma float_overflow_big: "2 ^ 53 < float_overflow"
  by (simp add: float_overflow_def)

lemma fl_mono: "double_rounding fl \<Longrightarrow> a \<le> b \<Longrightarrow> fl a \<le> fl b"
  by (simp add: double_rounding_def)

lemma fl_nat: "double_rounding fl \<Longrightarrow> k \<le> 2 ^ 53 \<Longrightarrow> fl (rat_of_nat k) = rat_of_nat k"
  by (simp add: double_rounding_def)

lemma fl_0: "double_rounding fl \<Longrightarrow> fl 0 = 0"
  using fl_nat [of fl 0] by simp

lemma fl_1: "double_rounding fl \<Longrightarrow> fl 1 = 1"
  using fl_nat [of fl 1] by simp

lemma fl_2: "double_rounding fl \<Longrightarrow> fl 2 = 2"
  using fl_nat [of fl 2] by simp

lemma fl_err:
  "double_rounding fl \<Longrightarrow> \<bar>q\<bar> < float_overflow \<Longrightarrow>
     \<bar>fl q - q\<bar> \<le> \<bar>q\<bar> * float_eps + float_tiny"
  by (simp add: double_rounding_def)

lemma err_tall:
  fixes N a q0 num e t :: rat
  assumes q: "0 \<le> q0" "q0 \<le> 1" and a: "0 \<le> a" "a \<le> 1"
    and ea: "\<bar>a - q0\<bar> \<le> \<bar>q0\<bar> * e + t"
    and en: "\<bar>num - N * a\<bar> \<le> \<bar>N * a\<bar> * e + t"
    and N: "1 \<le> N" and e: "0 < e" and t: "0 \<le> t" "t \<le> e"
  shows "\<bar>num - N * q0\<bar> \<le> 4 * N * e"
proof -
  from q e have "q0 * e \<le> 1 * e" by (intro mult_right_mono) simp_all
  with ea q t have d1: "\<bar>a - q0\<bar> \<le> 2 * e" by simp
  have "\<bar>N * a - N * q0\<bar> = N * \<bar>a - q0\<bar>"
    using N by (simp add: abs_mult right_diff_distrib [symmetric])
  also have "\<dots> \<le> N * (2 * e)" using d1 N by (intro mult_left_mono) simp_all
  finally have d2: "\<bar>N * a - N * q0\<bar> \<le> 2 * N * e" by simp
  from a N have na: "0 \<le> N * a" "N * a \<le> N * 1" by (simp_all add: mult_left_mono)
  then have x1: "(N * a) * e \<le> N * e" using e by (intro mult_right_mono) simp_all
  from N e have x2: "1 * e \<le> N * e" by (intro mult_right_mono) simp_all
  from na have x3: "\<bar>N * a\<bar> = N * a" by (simp only: abs_of_nonneg)
  from x1 x2 t have "\<bar>N * a\<bar> * e + t \<le> 2 * N * e" unfolding x3 by linarith
  with en have d3: "\<bar>num - N * a\<bar> \<le> 2 * N * e" by simp
  from d2 d3 show ?thesis by linarith
qed

lemma err_ratio:
  fixes a q0 e t :: rat
  assumes q: "1 \<le> q0" and a: "1 \<le> a"
    and ea: "\<bar>a - q0\<bar> \<le> \<bar>q0\<bar> * e + t" and e: "0 < e" and t: "0 \<le> t" "t \<le> e"
  shows "\<bar>1 / a - 1 / q0\<bar> \<le> 2 * e"
proof -
  from q a have pos: "0 < a" "0 < q0" "0 < a * q0" by simp_all
  have "1 / a - 1 / q0 = (q0 - a) / (a * q0)"
    using pos by (simp add: field_simps)
  then have "\<bar>1 / a - 1 / q0\<bar> = \<bar>a - q0\<bar> / (a * q0)"
    using pos by (simp add: abs_divide abs_minus_commute)
  also have "\<dots> \<le> (q0 * e + t) / (a * q0)"
    using ea pos q by (intro divide_right_mono) simp_all
  also have "\<dots> \<le> (q0 * e + t) / (1 * q0)"
  proof (intro divide_left_mono)
    show "1 * q0 \<le> a * q0" using a pos by (intro mult_right_mono) simp_all
    show "0 \<le> q0 * e + t" using pos e t by simp
    show "0 < a * q0 * (1 * q0)" using pos by simp
  qed
  also have "\<dots> = e + t / q0" using pos by (simp add: field_simps)
  also have "\<dots> \<le> e + t / 1"
    using t q by (intro add_left_mono divide_left_mono) simp_all
  also have "\<dots> \<le> 2 * e" using t by simp
  finally show ?thesis .
qed

lemma err_wide:
  fixes N a q0 num e t :: rat
  assumes q: "1 \<le> q0" and a: "1 \<le> a"
    and ea: "\<bar>a - q0\<bar> \<le> \<bar>q0\<bar> * e + t"
    and en: "\<bar>num - N / a\<bar> \<le> \<bar>N / a\<bar> * e + t"
    and N: "1 \<le> N" and e: "0 < e" and t: "0 \<le> t" "t \<le> e"
  shows "\<bar>num - N / q0\<bar> \<le> 4 * N * e"
proof -
  have "N / a - N / q0 = N * (1 / a - 1 / q0)"
    by (simp add: right_diff_distrib)
  then have "\<bar>N / a - N / q0\<bar> = N * \<bar>1 / a - 1 / q0\<bar>"
    using N by (simp only: abs_mult; simp)
  also have "\<dots> \<le> N * (2 * e)"
    using err_ratio [OF q a ea e t] N by (intro mult_left_mono) simp_all
  finally have d2: "\<bar>N / a - N / q0\<bar> \<le> 2 * N * e" by simp
  from a N have "0 < a" "0 \<le> N" by simp_all
  with a have na: "0 \<le> N / a" "N / a \<le> N / 1"
    by (simp_all add: pos_divide_le_eq mult_le_cancel_left1)
  then have x1: "(N / a) * e \<le> N * e" using e by (intro mult_right_mono) simp_all
  from N e have x2: "1 * e \<le> N * e" by (intro mult_right_mono) simp_all
  from na have x3: "\<bar>N / a\<bar> = N / a" by (simp only: abs_of_nonneg)
  from x1 x2 t have "\<bar>N / a\<bar> * e + t \<le> 2 * N * e" unfolding x3 by linarith
  with en have d3: "\<bar>num - N / a\<bar> \<le> 2 * N * e" by simp
  from d2 d3 show ?thesis by linarith
qed

lemma err_square:
  fixes N q0 e t :: rat
  assumes q: "1 \<le> q0"
    and ea: "\<bar>1 - q0\<bar> \<le> \<bar>q0\<bar> * e + t"
    and N: "1 \<le> N" and e: "0 < e" and t: "0 \<le> t" "t \<le> e"
  shows "\<bar>N - N / q0\<bar> \<le> 2 * N * e"
proof -
  have "N / 1 - N / q0 = N * (1 / 1 - 1 / q0)"
    by (simp add: right_diff_distrib)
  then have "\<bar>N / 1 - N / q0\<bar> = N * \<bar>1 / 1 - 1 / q0\<bar>"
    using N by (simp only: abs_mult; simp)
  also have "\<dots> \<le> N * (2 * e)"
    using err_ratio [OF q _ _ e t, of 1] ea N by (intro mult_left_mono) simp_all
  finally show ?thesis by simp
qed

lemma thumbnail_size:
  "thumbnail fl sz im = Inr im' \<Longrightarrow>
     (preserve_aspect_ratio fl sz im = Inr None \<and> im' = im) \<or>
     (\<exists>fw fh. preserve_aspect_ratio fl sz im = Inr (Some (fw, fh)) \<and>
        width im' = fw \<and> height im' = fh)"
  by (auto simp: thumbnail_def split: sum.splits option.splits if_splits)

lemma preserve_None:
  "preserve_aspect_ratio fl (x, y) im = Inr None \<Longrightarrow> width im \<le> x \<and> height im \<le> y"
  by (simp add: preserve_aspect_ratio_def Let_def split: if_splits)

lemma preserve_Some:
  assumes p: "preserve_aspect_ratio fl (x, y) im = Inr (Some (fw, fh))"
  shows "\<not> (width im \<le> x \<and> height im \<le> y) \<and> height im \<noteq> 0 \<and> y \<noteq> 0 \<and>
     rat_of_nat (width im) / rat_of_nat (height im) < float_overflow \<and>
     ((fl (rat_of_nat (width im) / rat_of_nat (height im)) \<le> fl (rat_of_nat x / rat_of_nat y) \<and>
       fh = y \<and>
       (\<exists>key. fw = nat (round_aspect
          (fl (fl (rat_of_nat y) * fl (rat_of_nat (width im) / rat_of_nat (height im)))) key))) \<or>
      (fl (rat_of_nat x / rat_of_nat y) < fl (rat_of_nat (width im) / rat_of_nat (height im)) \<and>
       fw = x \<and>
       (\<exists>key. fh = nat (round_aspect
          (fl (fl (rat_of_nat x) / fl (rat_of_nat (width im) / rat_of_nat (height im)))) key))))"
proof -
  from p have a: "\<not> (width im \<le> x \<and> height im \<le> y)"
    by (cases "width im \<le> x \<and> height im \<le> y") (simp_all add: preserve_aspect_ratio_def)
  with p have b1: "height im \<noteq> 0"
    by (cases "height im = 0") (simp_all add: preserve_aspect_ratio_def)
  from p a b1 have c: "\<not> float_overflow \<le> rat_of_nat (width im) / rat_of_nat (height im)"
    by (cases "float_overflow \<le> rat_of_nat (width im) / rat_of_nat (height im)")
       (simp_all add: preserve_aspect_ratio_def)
  from p a b1 c have b2: "y \<noteq> 0"
    by (cases "y = 0") (simp_all add: preserve_aspect_ratio_def)
  note b = b1 b2
  define q0 where "q0 = rat_of_nat (width im) / rat_of_nat (height im)"
  have d: "preserve_aspect_ratio fl (x, y) im =
     (if fl q0 \<le> fl (rat_of_nat x / rat_of_nat y)
      then Inr (Some (nat (round_aspect (fl (fl (rat_of_nat y) * fl q0))
                          (\<lambda>n. \<bar>fl (fl q0 - fl (rat_of_int n / rat_of_nat y))\<bar>)), y))
      else if fl q0 = 0 then Inl (ZeroDivisionError ''float division by zero'')
      else Inr (Some (x, nat (round_aspect (fl (fl (rat_of_nat x) / fl q0))
                          (\<lambda>n. if n = 0 then 0
                               else \<bar>fl (fl q0 - fl (rat_of_nat x / rat_of_int n))\<bar>)))))"
    unfolding preserve_aspect_ratio_def Let_def prod.case q0_def
    using a b1 b2 c by (simp only: if_False if_True simp_thms)
  show ?thesis
  proof (cases "fl q0 \<le> fl (rat_of_nat x / rat_of_nat y)")
    case True
    with d p have f: "fw = nat (round_aspect (fl (fl (rat_of_nat y) * fl q0))
                          (\<lambda>n. \<bar>fl (fl q0 - fl (rat_of_int n / rat_of_nat y))\<bar>))" "fh = y"
      by (simp_all only: if_True sum.inject option.inject prod.inject)
    have "\<exists>key. fw = nat (round_aspect (fl (fl (rat_of_nat y) * fl q0)) key)"
      by (rule exI, rule f(1))
    with a b c True f(2) show ?thesis unfolding q0_def by (simp only: not_le simp_thms)
  next
    case False
    from p have e: "(if fl q0 \<le> fl (rat_of_nat x / rat_of_nat y)
      then Inr (Some (nat (round_aspect (fl (fl (rat_of_nat y) * fl q0))
                          (\<lambda>n. \<bar>fl (fl q0 - fl (rat_of_int n / rat_of_nat y))\<bar>)), y))
      else if fl q0 = 0 then Inl (ZeroDivisionError ''float division by zero'')
      else Inr (Some (x, nat (round_aspect (fl (fl (rat_of_nat x) / fl q0))
                          (\<lambda>n. if n = 0 then 0
                               else \<bar>fl (fl q0 - fl (rat_of_nat x / rat_of_int n))\<bar>))))) =
       Inr (Some (fw, fh))"
      unfolding d .
    have z: "fl q0 \<noteq> 0"
    proof
      assume "fl q0 = 0"
      with e False show False by simp
    qed
    with False e have "Inr (Some (x, nat (round_aspect (fl (fl (rat_of_nat x) / fl q0))
                          (\<lambda>n. if n = 0 then 0
                               else \<bar>fl (fl q0 - fl (rat_of_nat x / rat_of_int n))\<bar>)))) =
       (Inr (Some (fw, fh)) :: py_error + (nat \<times> nat) option)"
      by (simp only: if_False)
    then have f: "fw = x" "fh = nat (round_aspect (fl (fl (rat_of_nat x) / fl q0))
                          (\<lambda>n. if n = 0 then 0
                               else \<bar>fl (fl q0 - fl (rat_of_nat x / rat_of_int n))\<bar>))"
      by auto
    have "\<exists>key. fh = nat (round_aspect (fl (fl (rat_of_nat x) / fl q0)) key)"
      by (rule exI, rule f(2))
    with a b c False f(1) show ?thesis unfolding q0_def by (simp only: not_le simp_thms)
  qed
qed

lemma nat_round_aspect:
  "rat_of_nat (nat (round_aspect q key)) = rat_of_int (round_aspect q key)"
  using round_aspect_ge1 [of q key] by simp

lemma preserve_scaled:
  assumes dr: "double_rounding fl" and n: "1 \<le> n" "n \<le> 2 ^ 53"
    and p: "preserve_aspect_ratio fl (n, n) im = Inr (Some (fw, fh))"
  shows "max fw fh = n \<and>
     \<bar>rat_of_nat fw - rat_of_nat n * rat_of_nat (width im) / rat_of_nat (max (width im) (height im))\<bar>
        < 1 + rat_of_nat n / 2 ^ 51 \<and>
     \<bar>rat_of_nat fh - rat_of_nat n * rat_of_nat (height im) / rat_of_nat (max (width im) (height im))\<bar>
        < 1 + rat_of_nat n / 2 ^ 51"
proof -
  define W where "W = rat_of_nat (width im)"
  define H where "H = rat_of_nat (height im)"
  define N where "N = rat_of_nat n"
  define q0 where "q0 = W / H"
  define a where "a = fl q0"
  note ps = preserve_Some [OF p, folded W_def H_def N_def, folded q0_def, folded a_def]
  from ps have g: "\<not> (width im \<le> n \<and> height im \<le> n)" and h0: "height im \<noteq> 0"
    and ov: "q0 < float_overflow" by simp_all
  from h0 have Hpos: "0 < H" by (simp add: H_def)
  have Wnn: "0 \<le> W" by (simp add: W_def)
  from Hpos Wnn have q0nn: "0 \<le> q0" by (simp add: q0_def)
  from n have N1: "1 \<le> N" by (simp add: N_def)
  from n have NN: "N / N = 1" by (simp add: N_def)
  have D: "4 * N * float_eps = N / 2 ^ 51" by (simp add: float_eps_def)
  have Dpos: "0 < 4 * N * float_eps" using N1 float_eps_pos by simp
  from n(2) have flN: "fl N = N" unfolding N_def by (rule fl_nat [OF dr])
  have Nint: "N = rat_of_int (int n)" by (simp add: N_def)
  from n(2) have "N \<le> 2 ^ 53" unfolding N_def
    by (metis of_nat_le_iff of_nat_numeral of_nat_power)
  with float_overflow_big have Nov: "N < float_overflow" by simp
  from q0nn ov have q0ov: "\<bar>q0\<bar> < float_overflow" by simp
  have ea: "\<bar>a - q0\<bar> \<le> \<bar>q0\<bar> * float_eps + float_tiny"
    unfolding a_def by (rule fl_err [OF dr q0ov])
  from q0nn have ann: "0 \<le> a" unfolding a_def using fl_mono [OF dr, of 0 q0] fl_0 [OF dr] by simp
  from ps have "(a \<le> fl (N / N) \<and> fh = n \<and>
        (\<exists>key. fw = nat (round_aspect (fl (fl N * a)) key))) \<or>
      (fl (N / N) < a \<and> fw = n \<and> (\<exists>key. fh = nat (round_aspect (fl (fl N / a)) key)))"
    by simp
  then have cs: "(a \<le> 1 \<and> fh = n \<and> (\<exists>key. fw = nat (round_aspect (fl (N * a)) key))) \<or>
      (1 < a \<and> fw = n \<and> (\<exists>key. fh = nat (round_aspect (fl (N / a)) key)))"
    unfolding NN fl_1 [OF dr] flN .
  show ?thesis
  proof (cases "width im \<le> height im")
    case True
    then have mx: "max (width im) (height im) = height im" by simp
    from True have "W \<le> H" by (simp add: W_def H_def)
    with Hpos have q1: "q0 \<le> 1" by (simp add: q0_def)
    then have a1: "a \<le> 1" unfolding a_def using fl_mono [OF dr, of q0 1] fl_1 [OF dr] by simp
    with cs obtain key where fh: "fh = n" and fw: "fw = nat (round_aspect (fl (N * a)) key)"
      by auto
    from ann a1 N1 have na: "0 \<le> N * a" "N * a \<le> N"
      by (simp_all add: mult_le_cancel_left2)
    with Nov have "\<bar>N * a\<bar> < float_overflow" by simp
    from fl_err [OF dr this]
    have en: "\<bar>fl (N * a) - N * a\<bar> \<le> \<bar>N * a\<bar> * float_eps + float_tiny" .
    have e1: "\<bar>fl (N * a) - N * q0\<bar> \<le> 4 * N * float_eps"
      by (rule err_tall [OF q0nn q1 ann a1 ea en N1 float_eps_pos float_tiny_nonneg float_tiny_le])
    from q0nn N1 have "0 \<le> N * q0" by simp
    from round_aspect_close [OF this e1 Dpos, of key]
    have c1: "\<bar>rat_of_nat fw - N * q0\<bar> < 1 + N / 2 ^ 51"
      unfolding fw nat_round_aspect D .
    from na(2) have "fl (N * a) \<le> N" using fl_mono [OF dr, of "N * a" N] flN by simp
    then have "fl (N * a) \<le> rat_of_int (int n)" unfolding Nint .
    from round_aspect_le [OF this, of key] n(1) have "round_aspect (fl (N * a)) key \<le> int n"
      by simp
    then have "fw \<le> n" unfolding fw by simp
    with fh have m: "max fw fh = n" by simp
    have t1: "N * W / H = N * q0" by (simp add: q0_def)
    from Hpos have t2: "N * H / H = N" by simp
    have c2: "\<bar>N - N\<bar> < 1 + N / 2 ^ 51" using N1 by simp
    from m c1 c2 show ?thesis
      unfolding mx fh W_def [symmetric] H_def [symmetric] N_def [symmetric] t1 t2 by simp
  next
    case False
    then have mx: "max (width im) (height im) = width im" by simp
    from False have HW: "H < W" by (simp add: W_def H_def)
    with Hpos have q1: "1 < q0" by (simp add: q0_def)
    then have a1: "1 \<le> a" unfolding a_def using fl_mono [OF dr, of 1 q0] fl_1 [OF dr] by simp
    from HW Hpos have Wpos: "0 < W" by simp
    then have t1: "N * W / W = N" by simp
    have t2: "N * H / W = N / q0" by (simp add: q0_def)
    have c0: "\<bar>N - N\<bar> < 1 + N / 2 ^ 51" using N1 by simp
    from cs show ?thesis
    proof (elim disjE conjE exE)
      fix key
      assume al: "a \<le> 1" and fh: "fh = n" and fw: "fw = nat (round_aspect (fl (N * a)) key)"
      from al a1 have a_eq: "a = 1" by simp
      have f1: "fl (N * a) = N" unfolding a_eq mult_1_right by (rule flN)
      have "round_aspect (fl (N * a)) key = max (int n) 1"
        by (simp only: f1, simp only: Nint round_aspect_int)
      with n(1) have fwn: "fw = n" unfolding fw by simp
      from ea have "\<bar>1 - q0\<bar> \<le> \<bar>q0\<bar> * float_eps + float_tiny" unfolding a_eq .
      from err_square [OF less_imp_le [OF q1] this N1 float_eps_pos float_tiny_nonneg float_tiny_le]
      have "\<bar>N - N / q0\<bar> \<le> 2 * N * float_eps" .
      also have "\<dots> < 1 + 4 * N * float_eps" using Dpos by simp
      finally have c2: "\<bar>N - N / q0\<bar> < 1 + N / 2 ^ 51" unfolding D .
      from c0 c2 show ?thesis
        unfolding mx fh fwn W_def [symmetric] H_def [symmetric] N_def [symmetric] t1 t2 by simp
    next
      fix key
      assume al: "1 < a" and fw: "fw = n" and fh: "fh = nat (round_aspect (fl (N / a)) key)"
      from al N1 have na: "0 \<le> N / a" "N / a \<le> N"
        by (simp_all add: pos_divide_le_eq mult_le_cancel_left1)
      with Nov have "\<bar>N / a\<bar> < float_overflow" by simp
      from fl_err [OF dr this]
      have en: "\<bar>fl (N / a) - N / a\<bar> \<le> \<bar>N / a\<bar> * float_eps + float_tiny" .
      have e1: "\<bar>fl (N / a) - N / q0\<bar> \<le> 4 * N * float_eps"
        by (rule err_wide [OF less_imp_le [OF q1] a1 ea en N1 float_eps_pos
              float_tiny_nonneg float_tiny_le])
      from q1 N1 have "0 \<le> N / q0" by simp
      from round_aspect_close [OF this e1 Dpos, of key]
      have c2: "\<bar>rat_of_nat fh - N / q0\<bar> < 1 + N / 2 ^ 51"
        unfolding fh nat_round_aspect D .
      from na(2) have "fl (N / a) \<le> N" using fl_mono [OF dr, of "N / a" N] flN by simp
      then have "fl (N / a) \<le> rat_of_int (int n)" unfolding Nint .
      from round_aspect_le [OF this, of key] n(1) have "round_aspect (fl (N / a)) key \<le> int n"
        by simp
      then have "fh \<le> n" unfolding fh by simp
      with fw have m: "max fw fh = n" by simp
      from m c0 c2 show ?thesis
        unfolding mx fw W_def [symmetric] H_def [symmetric] N_def [symmetric] t1 t2 by simp
    qed
  qed
qed

lemma model_load_calls:
  "model_load w s = (r, s1) \<Longrightarrow> generate_calls s1 = generate_calls s"
  by (auto simp: model_load_def Let_def split: option.splits)

lemma canny_size [simp]:
  "longest_side (canny im) = longest_side im"
  "scaled_within n c0 (canny im) = scaled_within n c0 im"
  by (simp_all add: canny_def longest_side_def scaled_within_def)

lemma thumbnail_scaled:
  assumes dr: "double_rounding fl" and n: "1 \<le> n" "n \<le> 2 ^ 53"
    and t: "thumbnail fl (n, n) im = Inr im'"
  shows "longest_side im' \<le> n \<and> scaled_within n im im'"
proof -
  from thumbnail_size [OF t] show ?thesis
  proof (elim disjE conjE exE)
    assume "preserve_aspect_ratio fl (n, n) im = Inr None" and "im' = im"
    with preserve_None [of fl n n im] show ?thesis
      by (simp add: scaled_within_def longest_side_def)
  next
    fix fw fh
    assume p: "preserve_aspect_ratio fl (n, n) im = Inr (Some (fw, fh))"
      and w: "width im' = fw" and h: "height im' = fh"
    from preserve_Some [OF p] have g: "\<not> (width im \<le> n \<and> height im \<le> n)" by simp
    from preserve_scaled [OF dr n p] have
      m: "max fw fh = n"
      and a: "\<bar>rat_of_nat fw -
          rat_of_nat n * rat_of_nat (width im) / rat_of_nat (max (width im) (height im))\<bar>
        < 1 + rat_of_nat n / 2 ^ 51"
      and b: "\<bar>rat_of_nat fh -
          rat_of_nat n * rat_of_nat (height im) / rat_of_nat (max (width im) (height im))\<bar>
        < 1 + rat_of_nat n / 2 ^ 51"
      by simp_all
    from m w h have l: "longest_side im' = n" by (simp add: longest_side_def)
    from g l a b w h have "scaled_within n im im'"
      unfolding scaled_within_def longest_side_def by (simp only: if_False simp_thms)
    with l show ?thesis by simp
  qed
qed

lemma thumbnail_512:
  assumes "double_rounding fl" and "thumbnail fl (max_size, max_size) im = Inr im'"
  shows "longest_side im' \<le> 512 \<and> scaled_within 512 im im'"
  using thumbnail_scaled [of fl 512 im im'] assms
  by (simp add: max_size_def)

lemma style_trans_try_calls:
  assumes dr: "double_rounding (w_float w)"
    and run: "style_trans_try w c st infl cr ap s = (r, s')"
  shows "generate_calls s' = generate_calls s \<or>
     (\<exists>a c0 s0. generate_calls s' = generate_calls s @ [a] \<and>
        decode_base64_image w c = Inr c0 \<and> decode_base64_image w st = Inr s0 \<and>
        longest_side (pil_image a) \<le> 512 \<and> longest_side (canny_image a) \<le> 512 \<and>
        scaled_within 512 s0 (pil_image a) \<and> scaled_within 512 c0 (canny_image a))"
proof -
  obtain r0 s1 where ml: "(case ip_model s of None \<Rightarrow> model_load w s | Some m \<Rightarrow> (Inr m, s)) = (r0, s1)"
    by (cases "(case ip_model s of None \<Rightarrow> model_load w s | Some m \<Rightarrow> (Inr m, s))") blast
  then have g1: "generate_calls s1 = generate_calls s"
    by (auto split: option.splits dest: model_load_calls)
  from run ml g1 show ?thesis
    unfolding style_trans_try_def
    by (auto simp: Let_def dest!: thumbnail_512 [OF dr]
        split: sum.splits model_handle.splits list.splits)
qed

text \<open>
  C8. Whatever \<^verbatim>\<open>style_trans\<close> is called with, it calls the generation collaborator
  at most once, and then with a style image and an edge map of the content image whose
  longest sides are at most 512 pixels: each is the decoded input, unchanged when it
  already fits and otherwise scaled so that its longest side is 512 and both sides are
  within a pixel of the original sides scaled by the same factor. The floating-point
  arithmetic of the size computation is assumed to round as IEEE doubles do.
\<close>

theorem style_trans_downscales:
  assumes "double_rounding (w_float w)"
    and "style_trans w c st infl cr ap s = (r, s')"
  shows "generate_calls s' = generate_calls s \<or>
     (\<exists>a c0 s0. generate_calls s' = generate_calls s @ [a] \<and>
        decode_base64_image w c = Inr c0 \<and> decode_base64_image w st = Inr s0 \<and>
        longest_side (pil_image a) \<le> 512 \<and> longest_side (canny_image a) \<le> 512 \<and>
        scaled_within 512 s0 (pil_image a) \<and> scaled_within 512 c0 (canny_image a))"
proof -
  obtain r0 where "style_trans_try w c st infl cr ap s = (r0, s')"
    using assms(2) by (auto simp: style_trans_def split: prod.splits sum.splits)
  with assms(1) show ?thesis by (rule style_trans_try_calls)
qed

lemma double_rounding_exact: "double_rounding (\<lambda>q. q)"
  by (simp add: double_rounding_def float_eps_def float_tiny_def)

lemmas decode_defs =
  decode_base64_image_def decode_base64_image_try_def startswith_def remove_whitespace_def
  whitespace_length_def unicode_spaces_def is_space_def matches_base64_def is_b64_char_def

lemma decode_example:
  "decode_base64_image big_world (PStr ''data:image/png;base64,QUJD'')
     = Inr \<lparr>width = 1024, height = 768, mode = ''RGB''\<rparr>"
  by (simp add: decode_defs big_world_def good_world_def)

lemma decode_example_raw:
  "decode_base64_image big_world (PStr ''QUJD'')
     = Inr \<lparr>width = 1024, height = 768, mode = ''RGB''\<rparr>"
  by (simp add: decode_defs big_world_def good_world_def)

lemma thumbnail_example:
  "thumbnail (\<lambda>q. q) (max_size, max_size) \<lparr>width = 1024, height = 768, mode = ''RGB''\<rparr>
     = Inr \<lparr>width = 512, height = 384, mode = ''RGB''\<rparr>"
  by (simp add: thumbnail_def preserve_aspect_ratio_def round_aspect_def max_size_def
      float_overflow_def Let_def)

lemma style_trans_example:
  "map (\<lambda>a. (pil_image a, canny_image a, guidance_scale a))
          (generate_calls (snd (style_trans big_world (PStr ''QUJD'')
             (PStr ''data:image/png;base64,QUJD'') (PNum (8 / 10)) (PNum 20) (PStr ''batik'')
             init_processor)))
     = [(\<lparr>width = 512, height = 384, mode = ''RGB''\<rparr>,
         \<lparr>width = 512, height = 384, mode = ''L''\<rparr>, 15)]"
  by (simp add: style_trans_def style_trans_try_def init_processor_def model_load_def
      thumbnail_example Let_def canny_def decode_defs big_world_def good_world_def)

theorem style_trans_downscales_witness:
  "double_rounding (w_float big_world) \<and>
   map (\<lambda>a. (pil_image a, canny_image a, guidance_scale a))
          (generate_calls (snd (style_trans big_world (PStr ''QUJD'')
             (PStr ''data:image/png;base64,QUJD'') (PNum (8 / 10)) (PNum 20) (PStr ''batik'')
             init_processor)))
     = [(\<lparr>width = 512, height = 384, mode = ''RGB''\<rparr>,
         \<lparr>width = 512, height = 384, mode = ''L''\<rparr>, 15)] \<and>
   (\<exists>a c0 s0. generate_calls (snd (style_trans big_world (PStr ''QUJD'')
             (PStr ''data:image/png;base64,QUJD'') (PNum (8 / 10)) (PNum 20) (PStr ''batik'')
             init_processor)) = generate_calls init_processor @ [a] \<and>
        decode_base64_image big_world (PStr ''QUJD'') = Inr c0 \<and>
        decode_base64_image big_world (PStr ''data:image/png;base64,QUJD'') = Inr s0 \<and>
        longest_side (pil_image a) \<le> 512 \<and> longest_side (canny_image a) \<le> 512 \<and>
        scaled_within 512 s0 (pil_image a) \<and> scaled_within 512 c0 (canny_image a))"
proof -
  let ?run = "style_trans big_world (PStr ''QUJD'')
             (PStr ''data:image/png;base64,QUJD'') (PNum (8 / 10)) (PNum 20) (PStr ''batik'')
             init_processor"
  have dr: "double_rounding (w_float big_world)"
    using double_rounding_exact by (simp add: big_world_def good_world_def)
  have h: "?run = (fst ?run, snd ?run)" by simp
  have e: "map (\<lambda>a. (pil_image a, canny_image a, guidance_scale a)) (generate_calls (snd ?run))
     = [(\<lparr>width = 512, height = 384, mode = ''RGB''\<rparr>,
         \<lparr>width = 512, height = 384, mode = ''L''\<rparr>, 15)]"
    by (rule style_trans_example)
  then have ne: "generate_calls (snd ?run) \<noteq> generate_calls init_processor"
    by (auto simp: init_processor_def)
  from style_trans_downscales [OF dr h] ne e dr show ?thesis by blast
qed

section \<open>Properties of the handlers\<close>


lemma process_unfold:
  "process svc w job sys =
     (case process_try svc w job sys of
        (Inl e, sys1) \<Rightarrow> on_exception svc w job e sys1
      | (Inr r, sys1) \<Rightarrow> (Inr r, sys1))"
  by (cases svc)
    (simp_all add: process_style_transfer_def process_rag_chat_def process_recommendation_def
       split: prod.splits sum.splits)

lemma upload_result_ok:
  "w_upload w = None \<Longrightarrow> upload_result w jid d b = Inr (b(blob_name jid \<mapsto> d))"
  by (simp add: upload_result_def upload_blob_def)

lemma on_exception_ok:
  "job_id job = Some jid \<Longrightarrow> w_upload w = None \<Longrightarrow>
     on_exception svc w job e sys =
       (Inl e, sys\<lparr>blobs := (blobs sys)(blob_name jid \<mapsto> error_result svc w jid e)\<rparr>)"
  by (simp add: on_exception_def upload_result_ok error_result_def)

lemma on_exception_raises: "\<exists>e'. fst (on_exception svc w job e sys) = Inl e'"
  by (auto simp: on_exception_def Let_def split: option.splits sum.splits)

lemma call_style_trans_strength:
  "call_style_trans w [a, b] [(''strength'', v)] s =
     (Inl (TypeError (''style_trans() got an unexpected keyword argument '' @ quote ''strength'')), s)"
  by (simp add: call_style_trans_def bind_arguments_def style_trans_params_def quote_def)

lemma style_try_raises:
  "\<exists>e. fst (process_style_transfer_try w job sys) = Inl e"
  by (auto simp: process_style_transfer_try_def call_style_trans_strength Let_def
      split: prod.splits option.splits sum.splits)

lemma style_try_blobs:
  "process_style_transfer_try w job sys = (r, sys1) \<Longrightarrow> blobs sys1 = blobs sys"
  by (auto simp: process_style_transfer_try_def call_style_trans_strength Let_def
      split: prod.splits option.splits sum.splits)

lemma rec_try_Inl:
  "process_recommendation_try w job sys = (Inl e, sys1) \<Longrightarrow> blobs sys1 = blobs sys"
  by (auto simp: process_recommendation_try_def Let_def
      split: prod.splits option.splits sum.splits)

lemma rag_try_Inl:
  "process_rag_chat_try w job sys = (Inl e, sys1) \<Longrightarrow> blobs sys1 = blobs sys"
  by (auto simp: process_rag_chat_try_def Let_def
      split: prod.splits option.splits sum.splits)

lemma rec_try_Inr:
  "process_recommendation_try w job sys = (Inr r, sys1) \<Longrightarrow>
     \<exists>jid. job_id job = Some jid \<and> w_upload w = None \<and> blobs sys1 = (blobs sys)(blob_name jid \<mapsto> r) \<and>
       r_job_id r = jid \<and> r_service_type r = ''recommendation'' \<and> r_status r = ''completed''"
  by (auto simp: process_recommendation_try_def Let_def upload_result_def upload_blob_def
      split: prod.splits option.splits sum.splits if_splits)

lemma rag_try_Inr:
  "process_rag_chat_try w job sys = (Inr r, sys1) \<Longrightarrow>
     \<exists>jid. job_id job = Some jid \<and> w_upload w = None \<and> blobs sys1 = (blobs sys)(blob_name jid \<mapsto> r) \<and>
       r_job_id r = jid \<and> r_service_type r = ''rag_chat'' \<and> r_status r = ''completed''"
  by (auto simp: process_rag_chat_try_def Let_def upload_result_def upload_blob_def
      split: prod.splits option.splits sum.splits if_splits)

lemma try_Inl_blobs:
  "process_try svc w job sys = (Inl e, sys1) \<Longrightarrow> blobs sys1 = blobs sys"
  by (cases svc) (auto dest: style_try_blobs rag_try_Inl rec_try_Inl)

lemma try_Inr:
  "process_try svc w job sys = (Inr r, sys1) \<Longrightarrow>
     \<exists>jid. job_id job = Some jid \<and> w_upload w = None \<and>
       blobs sys1 = (blobs sys)(blob_name jid \<mapsto> r) \<and>
       r_job_id r = jid \<and> r_service_type r = service_name svc \<and> r_status r = ''completed''"
proof (cases svc)
  case StyleTransfer
  assume "process_try svc w job sys = (Inr r, sys1)"
  with StyleTransfer style_try_raises [of w job sys] show ?thesis by auto
next
  case RagChat
  assume "process_try svc w job sys = (Inr r, sys1)"
  with RagChat rag_try_Inr [of w job sys r sys1] show ?thesis
    by (simp add: service_name_def)
next
  case Recommendation
  assume "process_try svc w job sys = (Inr r, sys1)"
  with Recommendation rec_try_Inr [of w job sys r sys1] show ?thesis
    by (simp add: service_name_def)
qed

lemma process_Inl:
  assumes "process_try svc w job sys = (Inl e, sys1)"
    and "job_id job = Some jid" and "w_upload w = None"
  shows "process svc w job sys =
     (Inl e, sys1\<lparr>blobs := (blobs sys)(blob_name jid \<mapsto> error_result svc w jid e)\<rparr>)"
  using assms try_Inl_blobs [OF assms(1)]
  by (simp add: process_unfold on_exception_ok)

lemma process_Inr:
  "process_try svc w job sys = (Inr r, sys1) \<Longrightarrow> process svc w job sys = (Inr r, sys1)"
  by (simp add: process_unfold)

lemma process_Inr_iff:
  "process svc w job sys = (Inr r, sys1) \<longleftrightarrow> process_try svc w job sys = (Inr r, sys1)"
  using on_exception_raises [of svc w job]
  by (auto simp: process_unfold split: prod.splits sum.splits) (metis fst_conv sum.distinct(1))+

lemma process_writes:
  assumes j: "job_id job = Some jid" and u: "w_upload w = None"
    and p: "process svc w job sys = (res, sys')"
  shows "\<exists>d. blobs sys' = (blobs sys)(blob_name jid \<mapsto> d) \<and> r_job_id d = jid \<and>
           r_service_type d = service_name svc \<and>
           (case res of Inr r \<Rightarrow> d = r \<and> r_status d = ''completed''
            | Inl e \<Rightarrow> d = error_result svc w jid e)"
proof -
  obtain r0 sys1 where t: "process_try svc w job sys = (r0, sys1)"
    by (cases "process_try svc w job sys") blast
  show ?thesis
  proof (cases r0)
    case (Inl e)
    with t process_Inl [OF _ j u] p have "res = Inl e"
      and "sys' = sys1\<lparr>blobs := (blobs sys)(blob_name jid \<mapsto> error_result svc w jid e)\<rparr>"
      by auto
    then show ?thesis by (simp add: error_result_def)
  next
    case (Inr r)
    with t process_Inr [of svc w job sys r sys1] p have "res = Inr r" and "sys' = sys1" by auto
    with try_Inr [of svc w job sys r sys1] t Inr j show ?thesis by auto
  qed
qed

lemma handle_message_raised:
  assumes "w_json_loads w (content m) = Inr parsed"
    and "process svc w (parsed\<lparr>start_time := Some (w_now w)\<rparr>) (handler_state d) = (Inl e, sys1)"
  shows "handle_message w svc m d =
     d\<lparr>idle_count := 0, handler_state := sys1,
       events := events d @ [Received svc m, Raised svc m e, Failed svc m e]\<rparr>"
  using assms by (simp add: handle_message_def Let_def)

lemma new_events_append: "events d' = events d @ es \<Longrightarrow> new_events d d' = es"
  by (simp add: new_events_def)

text \<open>
  C1, as stated, fails: a recommendation job without \<^verbatim>\<open>user_id\<close> makes the handler
  end in the \<^verbatim>\<open>KeyError\<close> it caught, and the dispatcher logs the failure without
  calling \<^verbatim>\<open>delete_message\<close>.
\<close>

theorem handler_propagates_counterexample:
  "fst (process_recommendation world_r1 (job_r1\<lparr>start_time := Some 0\<rparr>)
          (handler_state init_dispatcher)) = Inl (KeyError ''user_id'') \<and>
   new_events init_dispatcher (handle_message world_r1 Recommendation msg_r1 init_dispatcher)
     = [Received Recommendation msg_r1, Raised Recommendation msg_r1 (KeyError ''user_id''),
        Failed Recommendation msg_r1 (KeyError ''user_id'')]"
  by (simp add: process_recommendation_def process_recommendation_try_def
      load_recommendation_data_def on_exception_def upload_result_def upload_blob_def
      world_r1_def good_world_def job_r1_def init_dispatcher_def init_processor_def
      handle_message_def new_events_def Let_def)

text \<open>
  C1, amended. When the \<^verbatim>\<open>try\<close> body of a handler fails with \<open>e\<close> for a job
  that has a \<^verbatim>\<open>job_id\<close>, and the store accepts the write, the handler stores a
  result with status \<^verbatim>\<open>error\<close> and the message of \<open>e\<close> under the job's key and
  then re-raises \<open>e\<close>; the dispatcher logs it and does not call \<^verbatim>\<open>delete_message\<close>,
  so the message stays in the queue.
\<close>

theorem handler_failure_persisted_then_reraised:
  assumes "process_try svc w job sys = (Inl e, sys1)"
    and "job_id job = Some jid" and "w_upload w = None"
  shows "process svc w job sys =
       (Inl e, sys1\<lparr>blobs := (blobs sys)(blob_name jid \<mapsto> error_result svc w jid e)\<rparr>) \<and>
     r_status (error_result svc w jid e) = ''error'' \<and>
     r_body (error_result svc w jid e) = ErrorBody (str e) \<and>
     (\<forall>m d parsed. w_json_loads w (content m) = Inr parsed \<and>
        job = parsed\<lparr>start_time := Some (w_now w)\<rparr> \<and> sys = handler_state d \<longrightarrow>
        new_events d (handle_message w svc m d)
          = [Received svc m, Raised svc m e, Failed svc m e])"
proof -
  note p = process_Inl [OF assms]
  have "\<And>m d parsed. w_json_loads w (content m) = Inr parsed \<Longrightarrow>
        job = parsed\<lparr>start_time := Some (w_now w)\<rparr> \<Longrightarrow> sys = handler_state d \<Longrightarrow>
        new_events d (handle_message w svc m d)
          = [Received svc m, Raised svc m e, Failed svc m e]"
  proof -
    fix m :: message and d :: dispatcher and parsed :: job_data
    assume a: "w_json_loads w (content m) = Inr parsed"
      and b: "job = parsed\<lparr>start_time := Some (w_now w)\<rparr>" and c: "sys = handler_state d"
    from p b c have "process svc w (parsed\<lparr>start_time := Some (w_now w)\<rparr>) (handler_state d)
      = (Inl e, sys1\<lparr>blobs := (blobs sys)(blob_name jid \<mapsto> error_result svc w jid e)\<rparr>)"
      by simp
    from handle_message_raised [OF a this] show "new_events d (handle_message w svc m d)
          = [Received svc m, Raised svc m e, Failed svc m e]"
      by (simp add: new_events_def)
  qed
  with p show ?thesis by (simp add: error_result_def)
qed

theorem handler_failure_persisted_then_reraised_witness:
  "process_try Recommendation world_r1 (job_r1\<lparr>start_time := Some 0\<rparr>)
       (handler_state init_dispatcher)
     = (Inl (KeyError ''user_id''),
        snd (process_try Recommendation world_r1 (job_r1\<lparr>start_time := Some 0\<rparr>)
               (handler_state init_dispatcher))) \<and>
   fst (process Recommendation world_r1 (job_r1\<lparr>start_time := Some 0\<rparr>)
          (handler_state init_dispatcher)) = Inl (KeyError ''user_id'') \<and>
   blobs (snd (process Recommendation world_r1 (job_r1\<lparr>start_time := Some 0\<rparr>)
          (handler_state init_dispatcher))) ''results/r1.json''
     = Some \<lparr>r_job_id = ''r1'', r_service_type = ''recommendation'', r_status = ''error'',
             r_body = ErrorBody (str (KeyError ''user_id'')), r_timestamp = 0\<rparr>"
proof -
  let ?job = "job_r1\<lparr>start_time := Some 0\<rparr>"
  let ?s0 = "handler_state init_dispatcher"
  have t: "process_try Recommendation world_r1 ?job ?s0
     = (Inl (KeyError ''user_id''), snd (process_try Recommendation world_r1 ?job ?s0))"
    by (simp add: process_recommendation_try_def load_recommendation_data_def
        world_r1_def good_world_def job_r1_def init_dispatcher_def init_processor_def Let_def)
  have j: "job_id ?job = Some ''r1''" by (simp add: job_r1_def)
  have u: "w_upload world_r1 = None" by (simp add: world_r1_def good_world_def)
  have n: "w_now world_r1 = 0" by (simp add: world_r1_def good_world_def)
  from handler_failure_persisted_then_reraised [OF t j u] t n show ?thesis
    by (simp add: error_result_def blob_name_def service_name_def)
qed

text \<open>
  C7. Processing a job twice, with the same \<^verbatim>\<open>job_id\<close> and a store that accepts the
  writes: each run writes one result, with that \<^verbatim>\<open>job_id\<close> and the service's type,
  to the blob \<^verbatim>\<open>results/<job_id>.json\<close>; the second write replaces the first, no other
  blob changes, and the blob ends holding what the second run produced.
\<close>

theorem redelivery_overwrites_result:
  assumes "job_id job1 = Some jid" and "job_id job2 = Some jid"
    and "w_upload w1 = None" and "w_upload w2 = None"
    and "process svc w1 job1 sys = (res1, sys1)"
    and "process svc w2 job2 sys1 = (res2, sys2)"
  shows "\<exists>d1 d2.
      blobs sys1 = (blobs sys)(''results/'' @ jid @ ''.json'' \<mapsto> d1) \<and>
      blobs sys2 = (blobs sys)(''results/'' @ jid @ ''.json'' \<mapsto> d2) \<and>
      r_job_id d1 = jid \<and> r_job_id d2 = jid \<and>
      r_service_type d1 = service_name svc \<and> r_service_type d2 = service_name svc \<and>
      (case res2 of Inr r \<Rightarrow> d2 = r | Inl e \<Rightarrow> d2 = error_result svc w2 jid e)"
proof -
  from process_writes [OF assms(1) assms(3) assms(5)] obtain d1 where
    d1: "blobs sys1 = (blobs sys)(blob_name jid \<mapsto> d1)" "r_job_id d1 = jid"
      "r_service_type d1 = service_name svc"
    by blast
  from process_writes [OF assms(2) assms(4) assms(6)] obtain d2 where
    d2: "blobs sys2 = (blobs sys1)(blob_name jid \<mapsto> d2)" "r_job_id d2 = jid"
      "r_service_type d2 = service_name svc"
      "(case res2 of Inr r \<Rightarrow> d2 = r \<and> r_status d2 = ''completed''
        | Inl e \<Rightarrow> d2 = error_result svc w2 jid e)"
    by blast
  from d1(1) d2(1) have "blobs sys2 = (blobs sys)(blob_name jid \<mapsto> d2)" by simp
  moreover from d2(4) have "(case res2 of Inr r \<Rightarrow> d2 = r | Inl e \<Rightarrow> d2 = error_result svc w2 jid e)"
    by (cases res2) simp_all
  ultimately show ?thesis using d1 d2(2,3) by (auto simp: blob_name_def)
qed

section \<open>Properties of the recommendation handler\<close>

lemma meets_fun:
  "meets pr =
     (\<lambda>r. (case category pr of None \<Rightarrow> True | Some c \<Rightarrow> Category r = c) \<and>
          (case city pr of None \<Rightarrow> True | Some c \<Rightarrow> City r = c) \<and>
          (case max_price pr of None \<Rightarrow> True | Some p \<Rightarrow> Price r \<le> p) \<and>
          (case min_rating pr of None \<Rightarrow> True | Some m \<Rightarrow> Rating r \<ge> m))"
  by (rule ext) (simp add: meets_def)

lemma filter_preferences_meets: "filter_preferences pr df = filter (meets pr) df"
  by (cases "category pr"; cases "city pr"; cases "max_price pr"; cases "min_rating pr")
    (simp_all add: filter_preferences_def meets_fun Let_def)

lemma nlargest_take:
  "nlargest n df = take (nat n) (sort_key (\<lambda>r. - Rating r) df)"
  by (simp add: nlargest_def)

lemma nlargest_set: "set (nlargest n df) \<subseteq> set df"
  using set_take_subset [of "nat n" "sort_key (\<lambda>r. - Rating r) df"]
  by (simp add: nlargest_take)

lemma nlargest_length: "length (nlargest n df) = min (nat n) (length df)"
  by (simp add: nlargest_take)

lemma sorted_desc: "sorted_wrt (\<lambda>a b. Rating a \<ge> Rating b) (sort_key (\<lambda>r. - Rating r) df)"
proof -
  have "sorted (map (\<lambda>r. - Rating r) (sort_key (\<lambda>r. - Rating r) df))"
    by (rule sorted_sort_key)
  then show ?thesis by (simp add: sorted_map)
qed

lemma nlargest_sorted: "sorted_wrt (\<lambda>a b. Rating a \<ge> Rating b) (nlargest n df)"
  unfolding nlargest_take using sorted_desc by (rule sorted_wrt_take)

lemma nlargest_top:
  assumes x: "x \<in> set (nlargest n df)" and y: "y \<in> set df"
  shows "y \<in> set (nlargest n df) \<or> Rating y \<le> Rating x"
proof -
  let ?ys = "sort_key (\<lambda>r. - Rating r) df"
  have "sorted_wrt (\<lambda>a b. Rating a \<ge> Rating b) (take (nat n) ?ys @ drop (nat n) ?ys)"
    using sorted_desc [of df] by simp
  then have ord: "\<forall>a \<in> set (take (nat n) ?ys). \<forall>b \<in> set (drop (nat n) ?ys). Rating a \<ge> Rating b"
    by (simp only: sorted_wrt_append) blast
  from y have "y \<in> set (take (nat n) ?ys @ drop (nat n) ?ys)" by simp
  then have "y \<in> set (take (nat n) ?ys) \<or> y \<in> set (drop (nat n) ?ys)" by (simp only: set_append Un_iff)
  with ord x show ?thesis by (auto simp: nlargest_take)
qed

lemma rec_try_detail:
  "process_recommendation_try w job sys = (Inr r, sys1) \<Longrightarrow>
     \<exists>uid pr df. user_id job = Some uid \<and> preferences job = Some pr \<and>
       tourism_df (proc sys1) = Some df \<and>
       r_status r = ''completed'' \<and>
       r_body r = RecommendationBody uid pr
         (map to_recommendation (nlargest (job_limit job) (filter_preferences pr df)))
         (length (map to_recommendation (nlargest (job_limit job) (filter_preferences pr df))))"
  by (auto simp: process_recommendation_try_def Let_def job_limit_def
      split: prod.splits option.splits sum.splits if_splits)




lemma process_recommendation_Inr:
  "process_recommendation w job sys = (Inr r, sys') \<Longrightarrow>
     process_recommendation_try w job sys = (Inr r, sys')"
proof -
  assume a: "process_recommendation w job sys = (Inr r, sys')"
  obtain r0 s1 where t: "process_recommendation_try w job sys = (r0, s1)"
    by (cases "process_recommendation_try w job sys") blast
  show ?thesis
  proof (cases r0)
    case (Inl e)
    with a t have "on_exception Recommendation w job e s1 = (Inr r, sys')"
      by (simp add: process_recommendation_def)
    with on_exception_raises [of Recommendation w job e s1] show ?thesis by simp
  next
    case (Inr r1)
    with a t show ?thesis by (simp add: process_recommendation_def)
  qed
qed

text \<open>
  C6, amended. When \<^verbatim>\<open>process_recommendation\<close> returns a result, its records are the
  projections of the first rows, in descending order of rating, of the rows of the dataset
  that meet every preference key that is present (an absent key constrains nothing):
  every record satisfies all the supplied constraints, the list is sorted by rating
  descending, no row left out that meets the preferences has a higher rating than a row
  returned, and the length is the smaller of the number of such rows and the limit, where
  a limit below zero counts as zero (the length is at most \<open>max 0 limit\<close>).
\<close>

theorem recommendation_filter_conjunctive:
  assumes "process_recommendation w job sys = (Inr r, sys')"
  shows "\<exists>uid pr df.
      user_id job = Some uid \<and> preferences job = Some pr \<and>
      tourism_df (proc sys') = Some df \<and> r_status r = ''completed'' \<and>
      r_body r = RecommendationBody uid pr (recommendations_of r)
                   (length (recommendations_of r)) \<and>
      recommendations_of r
        = map to_recommendation (nlargest (job_limit job) (filter (meets pr) df)) \<and>
      (\<forall>x \<in> set (recommendations_of r).
          (\<forall>c. category pr = Some c \<longrightarrow> r_category x = c) \<and>
          (\<forall>c. city pr = Some c \<longrightarrow> r_city x = c) \<and>
          (\<forall>p. max_price pr = Some p \<longrightarrow> r_price x \<le> p) \<and>
          (\<forall>m. min_rating pr = Some m \<longrightarrow> m \<le> r_rating x)) \<and>
      sorted_wrt (\<lambda>a b. r_rating b \<le> r_rating a) (recommendations_of r) \<and>
      int (length (recommendations_of r)) \<le> max 0 (job_limit job) \<and>
      length (recommendations_of r)
        = min (nat (job_limit job)) (length (filter (meets pr) df)) \<and>
      (\<forall>x \<in> set (nlargest (job_limit job) (filter (meets pr) df)).
         \<forall>y \<in> set df. meets pr y \<longrightarrow>
           y \<in> set (nlargest (job_limit job) (filter (meets pr) df)) \<or> Rating y \<le> Rating x)"
proof -
  from rec_try_detail [OF process_recommendation_Inr [OF assms]]
  obtain uid pr df where u: "user_id job = Some uid" and p: "preferences job = Some pr"
    and d: "tourism_df (proc sys') = Some df" and st: "r_status r = ''completed''"
    and b: "r_body r = RecommendationBody uid pr
         (map to_recommendation (nlargest (job_limit job) (filter_preferences pr df)))
         (length (map to_recommendation (nlargest (job_limit job) (filter_preferences pr df))))"
    by blast
  let ?sel = "nlargest (job_limit job) (filter (meets pr) df)"
  from b have recs: "recommendations_of r = map to_recommendation ?sel"
    by (simp add: recommendations_of_def filter_preferences_meets)
  have sel: "\<And>x. x \<in> set ?sel \<Longrightarrow> x \<in> set df \<and> meets pr x"
    using nlargest_set [of "job_limit job" "filter (meets pr) df"] by auto
  have c1: "\<forall>x \<in> set (recommendations_of r).
          (\<forall>c. category pr = Some c \<longrightarrow> r_category x = c) \<and>
          (\<forall>c. city pr = Some c \<longrightarrow> r_city x = c) \<and>
          (\<forall>p. max_price pr = Some p \<longrightarrow> r_price x \<le> p) \<and>
          (\<forall>m. min_rating pr = Some m \<longrightarrow> m \<le> r_rating x)"
  proof
    fix x assume "x \<in> set (recommendations_of r)"
    then obtain row where row: "row \<in> set ?sel" and x: "x = to_recommendation row"
      unfolding recs by auto
    from sel [OF row] have "meets pr row" by simp
    then have m: "(case category pr of None \<Rightarrow> True | Some c \<Rightarrow> Category row = c)"
        "(case city pr of None \<Rightarrow> True | Some c \<Rightarrow> City row = c)"
        "(case max_price pr of None \<Rightarrow> True | Some p \<Rightarrow> Price row \<le> p)"
        "(case min_rating pr of None \<Rightarrow> True | Some m \<Rightarrow> Rating row \<ge> m)"
      by (simp_all add: meets_def)
    have y: "r_category x = Category row" "r_city x = City row" "r_price x = Price row"
        "r_rating x = Rating row"
      by (simp_all add: x to_recommendation_def)
    from m show "(\<forall>c. category pr = Some c \<longrightarrow> r_category x = c) \<and>
          (\<forall>c. city pr = Some c \<longrightarrow> r_city x = c) \<and>
          (\<forall>p. max_price pr = Some p \<longrightarrow> r_price x \<le> p) \<and>
          (\<forall>m. min_rating pr = Some m \<longrightarrow> m \<le> r_rating x)"
      unfolding y by (auto split: option.splits)
  qed
  have c2: "sorted_wrt (\<lambda>a b. r_rating b \<le> r_rating a) (recommendations_of r)"
    unfolding recs using nlargest_sorted [of "job_limit job" "filter (meets pr) df"]
    by (simp add: sorted_wrt_map to_recommendation_def)
  have c3: "length (recommendations_of r)
        = min (nat (job_limit job)) (length (filter (meets pr) df))"
    unfolding recs by (simp add: nlargest_length)
  then have c4: "int (length (recommendations_of r)) \<le> max 0 (job_limit job)" by simp
  have c5: "\<forall>x \<in> set ?sel. \<forall>y \<in> set df. meets pr y \<longrightarrow> y \<in> set ?sel \<or> Rating y \<le> Rating x"
    using nlargest_top [of _ "job_limit job" "filter (meets pr) df"] by simp
  from b recs have b': "r_body r = RecommendationBody uid pr (recommendations_of r)
                   (length (recommendations_of r))"
    by (simp add: filter_preferences_meets)
  show ?thesis
    by (intro exI [of _ uid] exI [of _ pr] exI [of _ df] conjI)
      (fact u p d st b' recs c1 c2 c3 c4 c5)+
qed



lemma run_budaya:
  "process_recommendation tourism_world (job_budaya 2) (handler_state init_dispatcher)
     = (Inr result_r2,
        snd (process_recommendation tourism_world (job_budaya 2) (handler_state init_dispatcher)))"
  by (simp add: process_recommendation_def process_recommendation_try_def
      load_recommendation_data_def upload_result_def upload_blob_def
      tourism_world_def good_world_def job_budaya_def init_dispatcher_def init_processor_def
      filter_preferences_def nlargest_def to_recommendation_def tourism_example_def
      result_r2_def Let_def)

text \<open>
  C6, as stated, fails for a negative limit: the job completes with an empty list, whose
  length is not at most \<open>-1\<close>.
\<close>

theorem recommendation_limit_counterexample:
  "(case fst (process_recommendation tourism_world (job_budaya (- 1))
               (handler_state init_dispatcher)) of
      Inl e \<Rightarrow> False
    | Inr r \<Rightarrow> r_status r = ''completed'' \<and> recommendations_of r = [] \<and>
               \<not> int (length (recommendations_of r)) \<le> - 1) \<and>
   limit (job_budaya (- 1)) = Some (- 1)"
  by (simp add: process_recommendation_def process_recommendation_try_def
      load_recommendation_data_def upload_result_def upload_blob_def
      tourism_world_def good_world_def job_budaya_def init_dispatcher_def init_processor_def
      filter_preferences_def nlargest_def recommendations_of_def Let_def)

theorem recommendation_filter_conjunctive_witness:
  "fst (process_recommendation tourism_world (job_budaya 2) (handler_state init_dispatcher))
     = Inr result_r2 \<and>
   map r_place_name (recommendations_of result_r2) = [''Candi Prambanan'', ''Monumen Nasional''] \<and>
   list_all (\<lambda>x. r_category x = ''Budaya'' \<and> 45 / 10 \<le> r_rating x)
     (recommendations_of result_r2) \<and>
   sorted_wrt (\<lambda>a b. r_rating b \<le> r_rating a) (recommendations_of result_r2) \<and>
   int (length (recommendations_of result_r2)) \<le> max 0 (job_limit (job_budaya 2))"
proof -
  from recommendation_filter_conjunctive [OF run_budaya]
  obtain uid pr df where p: "preferences (job_budaya 2) = Some pr"
    and c1: "\<forall>x \<in> set (recommendations_of result_r2).
          (\<forall>c. category pr = Some c \<longrightarrow> r_category x = c) \<and>
          (\<forall>c. city pr = Some c \<longrightarrow> r_city x = c) \<and>
          (\<forall>p. max_price pr = Some p \<longrightarrow> r_price x \<le> p) \<and>
          (\<forall>m. min_rating pr = Some m \<longrightarrow> m \<le> r_rating x)"
    and c2: "sorted_wrt (\<lambda>a b. r_rating b \<le> r_rating a) (recommendations_of result_r2)"
    and c4: "int (length (recommendations_of result_r2)) \<le> max 0 (job_limit (job_budaya 2))"
    by blast
  from p have "category pr = Some ''Budaya''" and "min_rating pr = Some (45 / 10)"
    by (auto simp: job_budaya_def)
  with c1 have "\<forall>x \<in> set (recommendations_of result_r2).
      r_category x = ''Budaya'' \<and> 45 / 10 \<le> r_rating x"
    by blast
  then have c1': "list_all (\<lambda>x. r_category x = ''Budaya'' \<and> 45 / 10 \<le> r_rating x)
     (recommendations_of result_r2)"
    by (simp only: list_all_iff)
  have n: "map r_place_name (recommendations_of result_r2)
     = [''Candi Prambanan'', ''Monumen Nasional'']"
    by (simp add: result_r2_def recommendations_of_def)
  from run_budaya have "fst (process_recommendation tourism_world (job_budaya 2)
      (handler_state init_dispatcher)) = Inr result_r2"
    by (metis fst_conv)
  with n c1' c2 c4 show ?thesis by blast
qed

section \<open>Redelivery, and the call of \<^verbatim>\<open>style_trans\<close> by the worker\<close>


theorem redelivery_overwrites_result_witness:
  "job_id (job_budaya 2) = Some ''r2'' \<and> w_upload tourism_world = None \<and>
   w_upload (tourism_world\<lparr>w_now := 5\<rparr>) = None \<and>
   fst (process Recommendation tourism_world (job_budaya 2) (handler_state init_dispatcher))
     = Inr result_r2 \<and>
   (\<exists>d1 d2.
      blobs (snd (process Recommendation tourism_world (job_budaya 2)
                    (handler_state init_dispatcher)))
        = (blobs (handler_state init_dispatcher))(''results/'' @ ''r2'' @ ''.json'' \<mapsto> d1) \<and>
      blobs (snd (process Recommendation (tourism_world\<lparr>w_now := 5\<rparr>) (job_budaya 2)
                    (snd (process Recommendation tourism_world (job_budaya 2)
                            (handler_state init_dispatcher)))))
        = (blobs (handler_state init_dispatcher))(''results/'' @ ''r2'' @ ''.json'' \<mapsto> d2) \<and>
      r_job_id d1 = ''r2'' \<and> r_job_id d2 = ''r2'' \<and>
      r_service_type d1 = service_name Recommendation \<and>
      r_service_type d2 = service_name Recommendation \<and>
      (case fst (process Recommendation (tourism_world\<lparr>w_now := 5\<rparr>) (job_budaya 2)
                    (snd (process Recommendation tourism_world (job_budaya 2)
                            (handler_state init_dispatcher)))) of
         Inr r \<Rightarrow> d2 = r
       | Inl e \<Rightarrow> d2 = error_result Recommendation (tourism_world\<lparr>w_now := 5\<rparr>) ''r2'' e))"
proof -
  let ?s0 = "handler_state init_dispatcher"
  let ?w2 = "tourism_world\<lparr>w_now := 5\<rparr>"
  let ?run1 = "process Recommendation tourism_world (job_budaya 2) ?s0"
  let ?run2 = "process Recommendation ?w2 (job_budaya 2) (snd ?run1)"
  have j: "job_id (job_budaya 2) = Some ''r2''" by (simp add: job_budaya_def)
  have u1: "w_upload tourism_world = None" by (simp add: tourism_world_def good_world_def)
  have u2: "w_upload ?w2 = None" by (simp add: tourism_world_def good_world_def)
  have r1: "?run1 = (fst ?run1, snd ?run1)" by simp
  have r2: "?run2 = (fst ?run2, snd ?run2)" by simp
  have f: "fst ?run1 = Inr result_r2" using run_budaya by (metis fst_conv process.simps(3))
  from redelivery_overwrites_result [OF j j u1 u2 r1 r2] j u1 u2 f show ?thesis by blast
qed

lemma handle_message_events:
  "events (handle_message w svc m d) = events d @ message_events w svc m (handler_state d)"
  by (auto simp: handle_message_def message_events_def Let_def
      split: sum.splits prod.splits option.splits)

lemma handle_message_new:
  "new_events d (handle_message w svc m d) = message_events w svc m (handler_state d)"
  by (simp add: new_events_def handle_message_events)

lemma process_style_raises: "\<exists>e. fst (process_style_transfer w job sys) = Inl e"
proof -
  obtain r0 s1 where t: "process_style_transfer_try w job sys = (r0, s1)"
    by (cases "process_style_transfer_try w job sys") blast
  with style_try_raises [of w job sys] obtain e where "r0 = Inl e" by auto
  with t on_exception_raises [of StyleTransfer w job e s1] show ?thesis
    by (simp add: process_style_transfer_def)
qed

lemma on_exception_proc: "proc (snd (on_exception svc w job e sys)) = proc sys"
  by (auto simp: on_exception_def Let_def split: option.splits sum.splits)

lemma load_style_calls:
  "generate_calls (snd (load_style_transfer_model w s)) = generate_calls s"
  by (auto simp: load_style_transfer_model_def model_load_def Let_def
      split: option.splits prod.splits sum.splits)

lemma style_try_calls:
  "generate_calls (proc (snd (process_style_transfer_try w job sys))) = generate_calls (proc sys)"
proof -
  obtain r0 p1 where l: "load_style_transfer_model w (proc sys) = (r0, p1)"
    by (cases "load_style_transfer_model w (proc sys)") blast
  with load_style_calls [of w "proc sys"] have g: "generate_calls p1 = generate_calls (proc sys)"
    by simp
  from l g show ?thesis
    by (auto simp: process_style_transfer_try_def call_style_trans_strength Let_def
        split: prod.splits option.splits sum.splits)
qed

lemma process_style_calls:
  "generate_calls (proc (snd (process_style_transfer w job sys))) = generate_calls (proc sys)"
proof -
  obtain r0 s1 where t: "process_style_transfer_try w job sys = (r0, s1)"
    by (cases "process_style_transfer_try w job sys") blast
  with style_try_calls [of w job sys] have "generate_calls (proc s1) = generate_calls (proc sys)"
    by simp
  with t show ?thesis
    by (cases r0) (simp_all add: process_style_transfer_def on_exception_proc)
qed

lemma style_try_typeerror:
  assumes "fst (load_style_transfer_model w (proc sys)) = None"
    and "job_id job = Some jid"
    and "content_image job = Some cb" and "w_b64decode w False cb = Inr cd"
    and "style_image job = Some sb" and "w_b64decode w False sb = Inr sd"
    and "w_image_open w cd = Inr ci" and "w_image_open w sd = Inr si"
  shows "fst (process_style_transfer_try w job sys) =
     Inl (TypeError (''style_trans() got an unexpected keyword argument '' @ quote ''strength''))"
  using assms
  by (auto simp: process_style_transfer_try_def call_style_trans_strength Let_def
      split: prod.splits)

text \<open>
  C10. \<^verbatim>\<open>process_style_transfer\<close> calls \<^verbatim>\<open>style_trans\<close> with two positional
  arguments and the keyword \<^verbatim>\<open>strength\<close>, which is none of the five parameters of
  \<^verbatim>\<open>style_trans\<close>: binding the arguments raises \<^verbatim>\<open>TypeError\<close>. So every
  invocation of the handler ends in an exception and never reaches the generation
  collaborator; when all the steps before the call succeed the exception is that
  \<^verbatim>\<open>TypeError\<close>; when the job has a \<^verbatim>\<open>job_id\<close> and the store accepts the write, a
  result with status \<^verbatim>\<open>error\<close> is stored for the job; and the dispatcher never
  calls \<^verbatim>\<open>delete_message\<close> for a message of the style-transfer queue.
\<close>

theorem style_transfer_call_always_raises:
  "bind_arguments ''style_trans'' style_trans_params [a, b] [(''strength'', v)]
     = Inl (TypeError (''style_trans() got an unexpected keyword argument '' @ quote ''strength'')) \<and>
   (\<exists>e. fst (process_style_transfer w job sys) = Inl e) \<and>
   generate_calls (proc (snd (process_style_transfer w job sys))) = generate_calls (proc sys) \<and>
   (fst (load_style_transfer_model w (proc sys)) = None \<and> job_id job = Some jid \<and>
    content_image job = Some cb \<and> w_b64decode w False cb = Inr cd \<and>
    style_image job = Some sb \<and> w_b64decode w False sb = Inr sd \<and>
    w_image_open w cd = Inr ci \<and> w_image_open w sd = Inr si \<and> w_upload w = None \<longrightarrow>
      fst (process_style_transfer w job sys) =
        Inl (TypeError (''style_trans() got an unexpected keyword argument '' @ quote ''strength''))) \<and>
   (job_id job = Some jid \<and> w_upload w = None \<longrightarrow>
      (\<exists>e. fst (process_style_transfer w job sys) = Inl e \<and>
         blobs (snd (process_style_transfer w job sys))
           = (blobs sys)(blob_name jid \<mapsto> error_result StyleTransfer w jid e) \<and>
         r_status (error_result StyleTransfer w jid e) = ''error'')) \<and>
   DeleteMessage StyleTransfer m \<notin> set (new_events d (handle_message w StyleTransfer m d))"
proof (intro conjI impI)
  show "bind_arguments ''style_trans'' style_trans_params [a, b] [(''strength'', v)]
     = Inl (TypeError (''style_trans() got an unexpected keyword argument '' @ quote ''strength''))"
    by (simp add: bind_arguments_def style_trans_params_def)
  show "\<exists>e. fst (process_style_transfer w job sys) = Inl e" by (rule process_style_raises)
  show "generate_calls (proc (snd (process_style_transfer w job sys))) = generate_calls (proc sys)"
    by (rule process_style_calls)
next
  assume a: "fst (load_style_transfer_model w (proc sys)) = None \<and> job_id job = Some jid \<and>
    content_image job = Some cb \<and> w_b64decode w False cb = Inr cd \<and>
    style_image job = Some sb \<and> w_b64decode w False sb = Inr sd \<and>
    w_image_open w cd = Inr ci \<and> w_image_open w sd = Inr si \<and> w_upload w = None"
  then have t: "fst (process_style_transfer_try w job sys) =
     Inl (TypeError (''style_trans() got an unexpected keyword argument '' @ quote ''strength''))"
    by (intro style_try_typeerror [of w sys job jid cb cd sb sd ci si]) simp_all
  obtain s1 where "process_try StyleTransfer w job sys =
     (Inl (TypeError (''style_trans() got an unexpected keyword argument '' @ quote ''strength'')), s1)"
    using t by (cases "process_style_transfer_try w job sys") simp
  from process_Inl [OF this] a
  show "fst (process_style_transfer w job sys) =
        Inl (TypeError (''style_trans() got an unexpected keyword argument '' @ quote ''strength''))"
    by simp
next
  assume a: "job_id job = Some jid \<and> w_upload w = None"
  obtain r0 s1 where t: "process_try StyleTransfer w job sys = (r0, s1)"
    by (cases "process_try StyleTransfer w job sys") blast
  with style_try_raises [of w job sys] obtain e where "r0 = Inl e" by auto
  with t have "process_try StyleTransfer w job sys = (Inl e, s1)" by simp
  from process_Inl [OF this] a
  have "process_style_transfer w job sys =
     (Inl e, s1\<lparr>blobs := (blobs sys)(blob_name jid \<mapsto> error_result StyleTransfer w jid e)\<rparr>)"
    by simp
  then show "\<exists>e. fst (process_style_transfer w job sys) = Inl e \<and>
         blobs (snd (process_style_transfer w job sys))
           = (blobs sys)(blob_name jid \<mapsto> error_result StyleTransfer w jid e) \<and>
         r_status (error_result StyleTransfer w jid e) = ''error''"
    by (auto simp: error_result_def)
next
  show "DeleteMessage StyleTransfer m \<notin> set (new_events d (handle_message w StyleTransfer m d))"
  proof (cases "w_json_loads w (content m)")
    case (Inl e)
    then show ?thesis by (simp add: handle_message_new message_events_def)
  next
    case (Inr parsed)
    from process_style_raises [of w "parsed\<lparr>start_time := Some (w_now w)\<rparr>" "handler_state d"]
    obtain e where "fst (process_style_transfer w (parsed\<lparr>start_time := Some (w_now w)\<rparr>)
        (handler_state d)) = Inl e"
      by blast
    with Inr show ?thesis by (simp add: handle_message_new message_events_def)
  qed
qed

theorem style_transfer_call_always_raises_witness:
  "fst (load_style_transfer_model world_s1 (proc (handler_state init_dispatcher))) = None \<and>
   job_id job_s1 = Some ''s1'' \<and> w_upload world_s1 = None \<and>
   fst (process_style_transfer world_s1 job_s1 (handler_state init_dispatcher)) =
     Inl (TypeError (''style_trans() got an unexpected keyword argument '' @ quote ''strength'')) \<and>
   (\<exists>e. blobs (snd (process_style_transfer world_s1 job_s1 (handler_state init_dispatcher)))
           = (blobs (handler_state init_dispatcher))
               (blob_name ''s1'' \<mapsto> error_result StyleTransfer world_s1 ''s1'' e)) \<and>
   DeleteMessage StyleTransfer msg_s1
     \<notin> set (new_events init_dispatcher
               (handle_message world_s1 StyleTransfer msg_s1 init_dispatcher))"
proof -
  let ?s0 = "handler_state init_dispatcher"
  let ?im = "\<lparr>width = 64, height = 64, mode = ''RGB''\<rparr>"
  have l: "fst (load_style_transfer_model world_s1 (proc ?s0)) = None"
    by (simp add: load_style_transfer_model_def model_load_def world_s1_def good_world_def
        init_dispatcher_def init_processor_def Let_def)
  have j: "job_id job_s1 = Some ''s1''" "content_image job_s1 = Some ''QUJD''"
      "style_image job_s1 = Some ''REVG''"
    by (simp_all add: job_s1_def)
  have w: "w_b64decode world_s1 False ''QUJD'' = Inr ''QUJD''"
      "w_b64decode world_s1 False ''REVG'' = Inr ''REVG''"
      "w_image_open world_s1 ''QUJD'' = Inr ?im" "w_image_open world_s1 ''REVG'' = Inr ?im"
      "w_upload world_s1 = None"
    by (simp_all add: world_s1_def good_world_def)
  note t = style_transfer_call_always_raises [where w = world_s1 and job = job_s1
      and sys = ?s0 and jid = "''s1''" and cb = "''QUJD''" and cd = "''QUJD''"
      and sb = "''REVG''" and sd = "''REVG''" and ci = ?im and si = ?im
      and m = msg_s1 and d = init_dispatcher and a = PNone and b = PNone and v = PNone]
  from t l j w have t1: "fst (process_style_transfer world_s1 job_s1 ?s0) =
     Inl (TypeError (''style_trans() got an unexpected keyword argument '' @ quote ''strength''))"
    by blast
  from t j(1) w(5) have t2: "\<exists>e. blobs (snd (process_style_transfer world_s1 job_s1 ?s0))
           = (blobs ?s0)(blob_name ''s1'' \<mapsto> error_result StyleTransfer world_s1 ''s1'' e)"
    by blast
  from t have t3: "DeleteMessage StyleTransfer msg_s1
     \<notin> set (new_events init_dispatcher
               (handle_message world_s1 StyleTransfer msg_s1 init_dispatcher))"
    by blast
  from l j(1) w(5) t1 t2 t3 show ?thesis by blast
qed

section \<open>Properties of the dispatcher\<close>


lemma polled_of_append: "polled_of (xs @ ys) = polled_of xs @ polled_of ys"
  by (induction xs rule: polled_of.induct) simp_all

lemma received_of_append: "received_of s (xs @ ys) = received_of s xs @ received_of s ys"
  by (induction s xs rule: received_of.induct) simp_all

lemma received_of_other:
  "\<forall>ev \<in> set es. event_service ev \<noteq> Some s \<Longrightarrow> received_of s es = []"
  by (induction s es rule: received_of.induct) auto

lemma message_events_service:
  "ev \<in> set (message_events w svc m st) \<Longrightarrow> event_service ev = Some svc"
  by (auto simp: message_events_def split: sum.splits option.splits)

lemma message_events_polled: "polled_of (message_events w svc m st) = []"
  by (auto simp: message_events_def split: sum.splits option.splits)

lemma message_events_received: "received_of s (message_events w svc m st) = (if s = svc then [m] else [])"
  by (auto simp: message_events_def split: sum.splits option.splits)

lemma message_events_delete:
  "DeleteMessage s m' \<in> set (message_events w svc m st) \<longleftrightarrow>
   Returned s m' \<in> set (message_events w svc m st)"
  by (auto simp: message_events_def split: sum.splits option.splits)

lemma message_events_raised:
  "Raised s m' e \<in> set (message_events w svc m st) \<Longrightarrow>
   DeleteMessage s m' \<notin> set (message_events w svc m st)"
  by (auto simp: message_events_def split: sum.splits option.splits)

lemma trace_ok_Nil: "trace_ok qs []"
  by (auto simp: trace_ok_def intro: exI [of _ 0])

lemma trace_ok_Cons:
  assumes X1: "\<forall>ev \<in> set X. event_service ev = Some svc"
    and X2: "polled_of X = [svc]"
    and X3: "length (received_of svc X) \<le> 1"
    and X4: "\<forall>s m. DeleteMessage s m \<in> set X \<longleftrightarrow> Returned s m \<in> set X"
    and X5: "\<forall>s m e. Raised s m e \<in> set X \<longrightarrow> DeleteMessage s m \<notin> set X"
    and Y: "trace_ok rest Y" and d: "svc \<notin> set rest"
  shows "trace_ok (svc # rest) (X @ Y)"
proof -
  from Y have Y1: "\<forall>ev \<in> set Y. \<exists>s \<in> set rest. event_service ev = Some s"
    and Y2: "\<exists>k. polled_of Y = take k rest"
    and Y3: "\<forall>s. length (received_of s Y) \<le> 1"
    and Y4: "\<forall>s m. DeleteMessage s m \<in> set Y \<longleftrightarrow> Returned s m \<in> set Y"
    and Y5: "\<forall>s m e. Raised s m e \<in> set Y \<longrightarrow> DeleteMessage s m \<notin> set Y"
    unfolding trace_ok_def by blast+
  from Y1 d have Ysvc: "\<forall>ev \<in> set Y. event_service ev \<noteq> Some svc" by auto
  have c1: "\<forall>ev \<in> set (X @ Y). \<exists>s \<in> set (svc # rest). event_service ev = Some s"
    using X1 Y1 by auto
  from Y2 obtain k where "polled_of Y = take k rest" by blast
  then have "polled_of (X @ Y) = take (Suc k) (svc # rest)"
    by (simp add: polled_of_append X2)
  then have c2: "\<exists>k. polled_of (X @ Y) = take k (svc # rest)" by blast
  have c3: "\<forall>s. length (received_of s (X @ Y)) \<le> 1"
  proof
    fix s
    show "length (received_of s (X @ Y)) \<le> 1"
    proof (cases "s = svc")
      case True
      with received_of_other [OF Ysvc] X3 show ?thesis by (simp add: received_of_append)
    next
      case False
      with X1 have "\<forall>ev \<in> set X. event_service ev \<noteq> Some s" by auto
      from received_of_other [OF this] Y3 show ?thesis by (simp add: received_of_append)
    qed
  qed
  have c4: "\<forall>s m. DeleteMessage s m \<in> set (X @ Y) \<longleftrightarrow> Returned s m \<in> set (X @ Y)"
    using X4 Y4 by simp
  have c5: "\<forall>s m e. Raised s m e \<in> set (X @ Y) \<longrightarrow> DeleteMessage s m \<notin> set (X @ Y)"
  proof (intro allI impI)
    fix s m e
    assume "Raised s m e \<in> set (X @ Y)"
    then consider "Raised s m e \<in> set X" | "Raised s m e \<in> set Y" by auto
    then show "DeleteMessage s m \<notin> set (X @ Y)"
    proof cases
      case 1
      with X1 have "event_service (Raised s m e) = Some svc" by blast
      then have "s = svc" by simp
      with Ysvc have "DeleteMessage s m \<notin> set Y" by force
      with 1 X5 show ?thesis by auto
    next
      case 2
      with Ysvc have "s \<noteq> svc" by force
      with X1 have "DeleteMessage s m \<notin> set X" by force
      with 2 Y5 show ?thesis by auto
    qed
  qed
  from c1 c2 c3 c4 c5 show ?thesis unfolding trace_ok_def by blast
qed

lemma receive_at_most_one:
  "receive_messages w svc 1 t = Inr ms \<Longrightarrow> ms = [] \<or> (\<exists>m. ms = [m])"
  by (cases "w_receive w svc")
    (auto simp: receive_messages_def take_Suc split: list.splits)

lemma message_events_has_received: "Received svc m \<in> set (message_events w svc m st)"
  by (auto simp: message_events_def split: sum.splits option.splits)

lemma idle_handle_message: "idle_count (handle_message w svc m d) = 0"
  by (auto simp: handle_message_def Let_def split: sum.splits prod.splits option.splits)

lemma step_trace:
  assumes "M = [] \<or> M = message_events w svc m st"
  shows "\<forall>ev \<in> set (Polled svc # M). event_service ev = Some svc"
    and "polled_of (Polled svc # M) = [svc]"
    and "length (received_of svc (Polled svc # M)) \<le> 1"
    and "\<forall>s m'. DeleteMessage s m' \<in> set (Polled svc # M) \<longleftrightarrow> Returned s m' \<in> set (Polled svc # M)"
    and "\<forall>s m' e. Raised s m' e \<in> set (Polled svc # M) \<longrightarrow> DeleteMessage s m' \<notin> set (Polled svc # M)"
  using assms message_events_service [of _ w svc m st] message_events_delete [of _ _ w svc m st]
    message_events_raised [of _ _ _ w svc m st]
  by (auto simp: message_events_polled message_events_received)

lemma trace_ok_step:
  assumes "M = [] \<or> M = message_events w svc m st"
    and "trace_ok rest Y" and "svc \<notin> set rest"
  shows "trace_ok (svc # rest) ((Polled svc # M) @ Y)"
  by (rule trace_ok_Cons [OF step_trace [OF assms(1)] assms(2) assms(3)])

lemma polled_step: "polled_of Y = rest \<Longrightarrow> polled_of ((Polled svc # M) @ Y) = svc # polled_of M @ rest"
  by (simp add: polled_of_append)

lemma received_no_poll: "Received s m \<in> set ((Polled svc # M) @ Y) \<longleftrightarrow> Received s m \<in> set M \<or> Received s m \<in> set Y"
  by auto

lemma poll_queues_trace:
  assumes "distinct qs" and "poll_queues w qs f d = (res, d')"
  shows "\<exists>es. events d' = events d @ es \<and> trace_ok qs es \<and>
     (\<forall>found. res = Inr found \<longrightarrow>
        polled_of es = qs \<and> (found \<longleftrightarrow> f \<or> (\<exists>s m. Received s m \<in> set es))) \<and>
     ((\<exists>s m. Received s m \<in> set es) \<longrightarrow> idle_count d' = 0) \<and>
     ((\<forall>s m. Received s m \<notin> set es) \<longrightarrow> idle_count d' = idle_count d)"
  using assms
proof (induction qs arbitrary: f d)
  case Nil
  then have "events d' = events d @ []" and "res = Inr f" and "idle_count d' = idle_count d"
    by auto
  with trace_ok_Nil [of "[]"] show ?case by (intro exI [of _ "[]"]) simp
next
  case (Cons svc rest)
  let ?d1 = "d\<lparr>events := events d @ [Polled svc]\<rparr>"
  from Cons.prems have dist: "distinct rest" and notin: "svc \<notin> set rest" by simp_all
  show ?case
  proof (cases "receive_messages w svc 1 600")
    case (Inl e)
    with Cons.prems(2) have r: "res = Inl e" and d': "d' = ?d1" by (simp_all add: Let_def)
    have t: "trace_ok (svc # rest) ((Polled svc # []) @ [])"
      by (rule trace_ok_step [OF _ trace_ok_Nil notin]) simp
    from r d' t show ?thesis by (intro exI [of _ "[Polled svc]"]) simp
  next
    case (Inr ms)
    from receive_at_most_one [OF Inr] show ?thesis
    proof (elim disjE exE)
      assume ms: "ms = []"
      with Inr Cons.prems(2) have p: "poll_queues w rest f ?d1 = (res, d')"
        by (simp add: Let_def)
      from Cons.IH [OF dist p] obtain Y where
        Y: "events d' = events ?d1 @ Y" "trace_ok rest Y"
          "\<forall>found. res = Inr found \<longrightarrow>
             polled_of Y = rest \<and> (found \<longleftrightarrow> f \<or> (\<exists>s m. Received s m \<in> set Y))"
          "(\<exists>s m. Received s m \<in> set Y) \<longrightarrow> idle_count d' = 0"
          "(\<forall>s m. Received s m \<notin> set Y) \<longrightarrow> idle_count d' = idle_count ?d1"
        by blast
      have t: "trace_ok (svc # rest) ((Polled svc # []) @ Y)"
        by (rule trace_ok_step [OF _ Y(2) notin]) simp
      from Y t show ?thesis
        by (intro exI [of _ "(Polled svc # []) @ Y"]) (simp add: polled_of_append)
    next
      fix m assume ms: "ms = [m]"
      let ?d2 = "handle_message w svc m ?d1"
      let ?M = "message_events w svc m (handler_state ?d1)"
      from ms Inr Cons.prems(2) have p: "poll_queues w rest True ?d2 = (res, d')"
        by (simp add: Let_def)
      from Cons.IH [OF dist p] obtain Y where
        Y: "events d' = events ?d2 @ Y" "trace_ok rest Y"
          "\<forall>found. res = Inr found \<longrightarrow>
             polled_of Y = rest \<and> (found \<longleftrightarrow> True \<or> (\<exists>s m. Received s m \<in> set Y))"
          "(\<exists>s m. Received s m \<in> set Y) \<longrightarrow> idle_count d' = 0"
          "(\<forall>s m. Received s m \<notin> set Y) \<longrightarrow> idle_count d' = idle_count ?d2"
        by blast
      have "?M = [] \<or> ?M = message_events w svc m (handler_state ?d1)" by simp
      then have t: "trace_ok (svc # rest) ((Polled svc # ?M) @ Y)"
        using Y(2) notin by (rule trace_ok_step)
      have e: "events d' = events d @ ((Polled svc # ?M) @ Y)"
        using Y(1) by (simp add: handle_message_events)
      have rcv: "Received svc m \<in> set ((Polled svc # ?M) @ Y)"
        using message_events_has_received [of svc m w "handler_state ?d1"] by simp
      have idle: "idle_count d' = 0"
        using Y(4) Y(5) idle_handle_message [of w svc m ?d1] by metis
      have pol: "\<forall>found. res = Inr found \<longrightarrow>
          polled_of ((Polled svc # ?M) @ Y) = svc # rest \<and> found"
        using Y(3) by (auto simp: polled_of_append message_events_polled)
      from e t rcv idle pol show ?thesis
        by (intro exI [of _ "(Polled svc # ?M) @ Y"]) blast
    qed
  qed
qed

lemma distinct_queues: "distinct queues"
  by (simp add: queues_def)

lemma poll_queues_ok:
  "list_all (\<lambda>svc. case w_receive w svc of Inl e \<Rightarrow> False | Inr ms \<Rightarrow> True) qs \<Longrightarrow>
     \<exists>found. fst (poll_queues w qs f d) = Inr found"
  by (induction qs arbitrary: f d)
    (auto simp: receive_messages_def Let_def split: sum.splits)

lemma polled_LoopError: "polled_of (es @ [LoopError e]) = polled_of es"
  by (simp add: polled_of_append)

lemma received_LoopError: "received_of s (es @ [LoopError e]) = received_of s es"
  by (simp add: received_of_append)

lemma cycle_trace:
  "\<exists>es l. events (snd (cycle w d)) = events d @ es @ l \<and>
     (l = [] \<or> (\<exists>e. l = [LoopError e])) \<and> trace_ok queues es \<and>
     (receives_ok w \<longrightarrow> polled_of es = queues) \<and>
     ((\<exists>s m. Received s m \<in> set es) \<longrightarrow>
        idle_count (snd (cycle w d)) = 0 \<and> \<not> fst (cycle w d)) \<and>
     ((\<forall>s m. Received s m \<notin> set es) \<longrightarrow>
        (fst (cycle w d) \<longrightarrow>
           idle_count (snd (cycle w d)) = idle_count d + 1 \<and>
           max_idle_time \<le> idle_count d + 1) \<and>
        (\<not> fst (cycle w d) \<longrightarrow>
           idle_count (snd (cycle w d)) = idle_count d \<or>
           (idle_count (snd (cycle w d)) = idle_count d + 1 \<and>
            idle_count d + 1 < max_idle_time)))"
proof -
  obtain res d1 where p: "poll_queues w queues False d = (res, d1)"
    by (cases "poll_queues w queues False d") blast
  from poll_queues_trace [OF distinct_queues p] obtain es where
    es: "events d1 = events d @ es" "trace_ok queues es"
      "\<forall>found. res = Inr found \<longrightarrow>
        polled_of es = queues \<and> (found \<longleftrightarrow> False \<or> (\<exists>s m. Received s m \<in> set es))"
      "(\<exists>s m. Received s m \<in> set es) \<longrightarrow> idle_count d1 = 0"
      "(\<forall>s m. Received s m \<notin> set es) \<longrightarrow> idle_count d1 = idle_count d"
    by blast
  have ok: "receives_ok w \<longrightarrow> polled_of es = queues"
  proof
    assume "receives_ok w"
    then obtain found where "fst (poll_queues w queues False d) = Inr found"
      unfolding receives_ok_def using poll_queues_ok [of w queues False d] by blast
    with p es(3) show "polled_of es = queues" by simp
  qed
  show ?thesis
  proof (cases res)
    case (Inl e)
    with p have c: "cycle w d = (False, d1\<lparr>events := events d1 @ [LoopError e]\<rparr>)"
      by (simp add: cycle_def)
    from c es ok show ?thesis
      by (intro exI [of _ es] exI [of _ "[LoopError e]"]) auto
  next
    case (Inr found)
    with es(3) have f: "found \<longleftrightarrow> (\<exists>s m. Received s m \<in> set es)" by simp
    show ?thesis
    proof (cases found)
      case True
      with Inr p have c: "cycle w d = (False, d1)" by (simp add: cycle_def)
      from c es ok f True show ?thesis
        by (intro exI [of _ es] exI [of _ "[]"]) auto
    next
      case False
      with Inr p have c: "cycle w d =
        (max_idle_time \<le> idle_count d1 + 1, d1\<lparr>idle_count := idle_count d1 + 1\<rparr>)"
        by (simp add: cycle_def Let_def)
      from False f es(5) have i: "idle_count d1 = idle_count d" by blast
      from c es(1,2) ok f False i show ?thesis
        by (intro exI [of _ es] exI [of _ "[]"]) auto
    qed
  qed
qed

section \<open>Properties of the polling loop and of start-up\<close>


lemma quiet_cycle:
  assumes "quiet w"
  shows "fst (cycle w d) = (max_idle_time \<le> idle_count d + 1)"
    and "idle_count (snd (cycle w d)) = idle_count d + 1"
  using assms
  by (simp_all add: quiet_def queues_def cycle_def receive_messages_def Let_def)

lemma main_loop_quiet_running:
  "list_all quiet ws \<Longrightarrow> idle_count d + length ws < max_idle_time \<Longrightarrow>
     \<exists>d'. main_loop ws d = Running d' \<and> idle_count d' = idle_count d + length ws"
proof (induction ws arbitrary: d)
  case Nil
  then show ?case by simp
next
  case (Cons w ws)
  from Cons.prems have q: "quiet w" and qs: "list_all quiet ws" by simp_all
  obtain b d1 where c: "cycle w d = (b, d1)" by (cases "cycle w d") blast
  with quiet_cycle [OF q, of d] Cons.prems(2) have b: "\<not> b"
    and i: "idle_count d1 = idle_count d + 1"
    by auto
  from i Cons.prems(2) have "idle_count d1 + length ws < max_idle_time" by simp
  from Cons.IH [OF qs this] obtain d' where
    "main_loop ws d1 = Running d'" "idle_count d' = idle_count d1 + length ws"
    by blast
  with c b i show ?case by simp
qed

lemma main_loop_quiet_stops:
  "list_all quiet ws \<Longrightarrow> idle_count d < max_idle_time \<Longrightarrow>
   max_idle_time \<le> idle_count d + length ws \<Longrightarrow>
     \<exists>d'. main_loop ws d = Stopped (max_idle_time - idle_count d) d' \<and>
          idle_count d' = max_idle_time"
proof (induction ws arbitrary: d)
  case Nil
  then show ?case by simp
next
  case (Cons w ws)
  from Cons.prems have q: "quiet w" and qs: "list_all quiet ws" by simp_all
  obtain b d1 where c: "cycle w d = (b, d1)" by (cases "cycle w d") blast
  with quiet_cycle [OF q, of d] have b: "b = (max_idle_time \<le> idle_count d + 1)"
    and i: "idle_count d1 = idle_count d + 1"
    by auto
  show ?case
  proof (cases b)
    case True
    with b Cons.prems(2) have "idle_count d + 1 = max_idle_time" by simp
    with c True i show ?thesis by simp
  next
    case False
    with b have lt: "idle_count d1 < max_idle_time" using i by simp
    from Cons.prems(3) i have "max_idle_time \<le> idle_count d1 + length ws" by simp
    from Cons.IH [OF qs lt this] obtain d' where
      "main_loop ws d1 = Stopped (max_idle_time - idle_count d1) d'" "idle_count d' = max_idle_time"
      by blast
    moreover from lt i have "Suc (max_idle_time - idle_count d1) = max_idle_time - idle_count d"
      by simp
    ultimately show ?thesis using c False by simp
  qed
qed

lemma cycle_new_events:
  "\<exists>es l. new_events d (snd (cycle w d)) = es @ l \<and>
     events (snd (cycle w d)) = events d @ new_events d (snd (cycle w d)) \<and>
     (l = [] \<or> (\<exists>e. l = [LoopError e])) \<and> trace_ok queues es \<and>
     (receives_ok w \<longrightarrow> polled_of es = queues) \<and>
     ((\<exists>s m. Received s m \<in> set es) \<longrightarrow>
        idle_count (snd (cycle w d)) = 0 \<and> \<not> fst (cycle w d)) \<and>
     ((\<forall>s m. Received s m \<notin> set es) \<longrightarrow>
        (fst (cycle w d) \<longrightarrow>
           idle_count (snd (cycle w d)) = idle_count d + 1 \<and>
           max_idle_time \<le> idle_count d + 1) \<and>
        (\<not> fst (cycle w d) \<longrightarrow>
           idle_count (snd (cycle w d)) = idle_count d \<or>
           (idle_count (snd (cycle w d)) = idle_count d + 1 \<and>
            idle_count d + 1 < max_idle_time)))"
proof -
  from cycle_trace [of w d] obtain es l where
    a: "events (snd (cycle w d)) = events d @ es @ l"
    and b: "l = [] \<or> (\<exists>e. l = [LoopError e])" "trace_ok queues es"
      "receives_ok w \<longrightarrow> polled_of es = queues"
      "(\<exists>s m. Received s m \<in> set es) \<longrightarrow>
        idle_count (snd (cycle w d)) = 0 \<and> \<not> fst (cycle w d)"
      "(\<forall>s m. Received s m \<notin> set es) \<longrightarrow>
        (fst (cycle w d) \<longrightarrow>
           idle_count (snd (cycle w d)) = idle_count d + 1 \<and>
           max_idle_time \<le> idle_count d + 1) \<and>
        (\<not> fst (cycle w d) \<longrightarrow>
           idle_count (snd (cycle w d)) = idle_count d \<or>
           (idle_count (snd (cycle w d)) = idle_count d + 1 \<and>
            idle_count d + 1 < max_idle_time))"
    by blast
  from a have n: "new_events d (snd (cycle w d)) = es @ l" by (simp add: new_events_def)
  with a have "events (snd (cycle w d)) = events d @ new_events d (snd (cycle w d))" by simp
  with n b show ?thesis by blast
qed

lemma in_tail_LoopError:
  assumes "l = [] \<or> (\<exists>e. l = [LoopError e])"
  shows "Received s m \<in> set (es @ l) \<longleftrightarrow> Received s m \<in> set es"
    and "DeleteMessage s m \<in> set (es @ l) \<longleftrightarrow> DeleteMessage s m \<in> set es"
    and "Returned s m \<in> set (es @ l) \<longleftrightarrow> Returned s m \<in> set es"
    and "Raised s m e' \<in> set (es @ l) \<longleftrightarrow> Raised s m e' \<in> set es"
    and "polled_of (es @ l) = polled_of es"
    and "received_of s (es @ l) = received_of s es"
  using assms by (auto simp: polled_of_append received_of_append)

lemma cycle_reset:
  assumes "Received s m \<in> set (new_events d (snd (cycle w d)))"
  shows "idle_count (snd (cycle w d)) = 0 \<and> \<not> fst (cycle w d)"
proof -
  obtain es l where n: "new_events d (snd (cycle w d)) = es @ l"
    and l: "l = [] \<or> (\<exists>e. l = [LoopError e])"
    and r: "(\<exists>s m. Received s m \<in> set es) \<longrightarrow>
        idle_count (snd (cycle w d)) = 0 \<and> \<not> fst (cycle w d)"
    using cycle_new_events [of d w] by blast
  from assms n in_tail_LoopError(1) [OF l] have "Received s m \<in> set es" by simp
  with r show ?thesis by blast
qed

lemma cycle_break:
  assumes "fst (cycle w d)"
  shows "idle_count (snd (cycle w d)) = idle_count d + 1 \<and> max_idle_time \<le> idle_count d + 1 \<and>
     (\<forall>s m. Received s m \<notin> set (new_events d (snd (cycle w d))))"
proof -
  obtain es l where n: "new_events d (snd (cycle w d)) = es @ l"
    and l: "l = [] \<or> (\<exists>e. l = [LoopError e])"
    and r: "(\<exists>s m. Received s m \<in> set es) \<longrightarrow>
        idle_count (snd (cycle w d)) = 0 \<and> \<not> fst (cycle w d)"
    and q: "(\<forall>s m. Received s m \<notin> set es) \<longrightarrow>
        (fst (cycle w d) \<longrightarrow>
           idle_count (snd (cycle w d)) = idle_count d + 1 \<and>
           max_idle_time \<le> idle_count d + 1) \<and>
        (\<not> fst (cycle w d) \<longrightarrow>
           idle_count (snd (cycle w d)) = idle_count d \<or>
           (idle_count (snd (cycle w d)) = idle_count d + 1 \<and>
            idle_count d + 1 < max_idle_time))"
    using cycle_new_events [of d w] by blast
  from assms r have none: "\<forall>s m. Received s m \<notin> set es" by blast
  with l have "\<forall>s m. Received s m \<notin> set (es @ l)" by auto
  with n have "\<forall>s m. Received s m \<notin> set (new_events d (snd (cycle w d)))" by simp
  with none q assms show ?thesis by blast
qed

lemma cycle_below:
  assumes "\<not> fst (cycle w d)" and "idle_count d < max_idle_time"
  shows "idle_count (snd (cycle w d)) < max_idle_time"
proof -
  obtain es l where
    r: "(\<exists>s m. Received s m \<in> set es) \<longrightarrow>
        idle_count (snd (cycle w d)) = 0 \<and> \<not> fst (cycle w d)"
    and q: "(\<forall>s m. Received s m \<notin> set es) \<longrightarrow>
        (fst (cycle w d) \<longrightarrow>
           idle_count (snd (cycle w d)) = idle_count d + 1 \<and>
           max_idle_time \<le> idle_count d + 1) \<and>
        (\<not> fst (cycle w d) \<longrightarrow>
           idle_count (snd (cycle w d)) = idle_count d \<or>
           (idle_count (snd (cycle w d)) = idle_count d + 1 \<and>
            idle_count d + 1 < max_idle_time))"
    using cycle_new_events [of d w] by blast
  show ?thesis
  proof (cases "\<exists>s m. Received s m \<in> set es")
    case True
    with r assms(2) show ?thesis by simp
  next
    case False
    with q assms show ?thesis by auto
  qed
qed

lemma main_loop_stopped:
  "idle_count d < max_idle_time \<Longrightarrow> main_loop ws d = Stopped n d' \<Longrightarrow>
     idle_count d' = max_idle_time \<and> 1 \<le> n \<and> n \<le> length ws"
proof (induction ws arbitrary: d n)
  case Nil
  then show ?case by simp
next
  case (Cons w ws)
  obtain b d1 where c: "cycle w d = (b, d1)" by (cases "cycle w d") blast
  show ?case
  proof (cases b)
    case True
    with c Cons.prems(2) have e: "d' = d1" "n = 1" by simp_all
    from cycle_break [of w d] c True Cons.prems(1) have "idle_count d1 = max_idle_time"
      by simp
    with e show ?thesis by simp
  next
    case False
    with c cycle_below [of w d] Cons.prems(1) have lt: "idle_count d1 < max_idle_time" by simp
    from c False Cons.prems(2) obtain k where k: "main_loop ws d1 = Stopped k d'" "n = Suc k"
      by (auto split: run.splits)
    from Cons.IH [OF lt k(1)] k(2) show ?thesis by simp
  qed
qed




lemma poll_queues_raises:
  "\<not> list_all (\<lambda>svc. case w_receive w svc of Inl e \<Rightarrow> False | Inr ms \<Rightarrow> True) qs \<Longrightarrow>
     \<exists>e. fst (poll_queues w qs f d) = Inl e"
  by (induction qs arbitrary: f d)
    (auto simp: receive_messages_def Let_def split: sum.splits)

lemma cycle_raises:
  assumes "\<not> receives_ok w"
  shows "\<not> fst (cycle w d) \<and>
     idle_count (snd (cycle w d)) =
       (if \<exists>s m. Received s m \<in> set (new_events d (snd (cycle w d))) then 0 else idle_count d)"
proof -
  obtain res d1 where p: "poll_queues w queues False d = (res, d1)"
    by (cases "poll_queues w queues False d") blast
  from assms obtain e where "fst (poll_queues w queues False d) = Inl e"
    unfolding receives_ok_def using poll_queues_raises [of w queues False d] by blast
  with p have res: "res = Inl e" by simp
  from poll_queues_trace [OF distinct_queues p] obtain es where
    es: "events d1 = events d @ es"
      "(\<exists>s m. Received s m \<in> set es) \<longrightarrow> idle_count d1 = 0"
      "(\<forall>s m. Received s m \<notin> set es) \<longrightarrow> idle_count d1 = idle_count d"
    by blast
  from p res have c: "cycle w d = (False, d1\<lparr>events := events d1 @ [LoopError e]\<rparr>)"
    by (simp add: cycle_def)
  with es(1) have n: "new_events d (snd (cycle w d)) = es @ [LoopError e]"
    by (simp add: new_events_def)
  have r: "(\<exists>s m. Received s m \<in> set (new_events d (snd (cycle w d)))) \<longleftrightarrow>
      (\<exists>s m. Received s m \<in> set es)"
    unfolding n by simp
  from c es(2,3) show ?thesis unfolding r by auto
qed

lemma cycle_complete:
  assumes ok: "receives_ok w"
    and none: "\<forall>s m. Received s m \<notin> set (new_events d (snd (cycle w d)))"
  shows "idle_count (snd (cycle w d)) = idle_count d + 1 \<and>
     fst (cycle w d) = (max_idle_time \<le> idle_count d + 1)"
proof -
  obtain res d1 where p: "poll_queues w queues False d = (res, d1)"
    by (cases "poll_queues w queues False d") blast
  from ok obtain found where "fst (poll_queues w queues False d) = Inr found"
    unfolding receives_ok_def using poll_queues_ok [of w queues False d] by blast
  with p have res: "res = Inr found" by simp
  from poll_queues_trace [OF distinct_queues p] res obtain es where
    es: "events d1 = events d @ es"
      "found \<longleftrightarrow> (\<exists>s m. Received s m \<in> set es)"
      "(\<forall>s m. Received s m \<notin> set es) \<longrightarrow> idle_count d1 = idle_count d"
    by blast
  have nf: "\<not> found"
  proof
    assume f: found
    with p res have "cycle w d = (False, d1)" by (simp add: cycle_def)
    with es(1) have "new_events d (snd (cycle w d)) = es" by (simp add: new_events_def)
    with none es(2) f show False by simp
  qed
  with p res have c: "cycle w d =
      (max_idle_time \<le> idle_count d1 + 1, d1\<lparr>idle_count := idle_count d1 + 1\<rparr>)"
    by (simp add: cycle_def Let_def)
  from nf es(2,3) have "idle_count d1 = idle_count d" by blast
  with c show ?thesis by simp
qed

lemma main_loop_raising:
  "list_all (\<lambda>w. \<not> receives_ok w) ws \<Longrightarrow> \<exists>d'. main_loop ws d = Running d'"
proof (induction ws arbitrary: d)
  case Nil
  then show ?case by simp
next
  case (Cons w ws)
  from Cons.prems have r: "\<not> receives_ok w" and rs: "list_all (\<lambda>w. \<not> receives_ok w) ws"
    by simp_all
  obtain b d1 where c: "cycle w d = (b, d1)" by (cases "cycle w d") blast
  with cycle_raises [OF r, of d] have b: "\<not> b" by simp
  from Cons.IH [OF rs, of d1] obtain d' where "main_loop ws d1 = Running d'" by blast
  with c b show ?case by simp
qed

lemma down_cycle:
  "cycle world_down d =
     (False, d\<lparr>events := events d @
        [Polled StyleTransfer, LoopError (OtherError ''ServiceRequestError'')]\<rparr>)"
  by (simp add: cycle_def queues_def receive_messages_def world_down_def good_world_def)

lemma main_loop_down:
  "\<exists>d'. main_loop (replicate k world_down) d = Running d' \<and> idle_count d' = idle_count d \<and>
     (\<forall>s m. Received s m \<in> set (events d') \<longleftrightarrow> Received s m \<in> set (events d))"
proof (induction k arbitrary: d)
  case 0
  show ?case by simp
next
  case (Suc k)
  let ?d1 = "d\<lparr>events := events d @
        [Polled StyleTransfer, LoopError (OtherError ''ServiceRequestError'')]\<rparr>"
  from Suc [of ?d1] obtain d' where
    d': "main_loop (replicate k world_down) ?d1 = Running d'" "idle_count d' = idle_count ?d1"
      "\<forall>s m. Received s m \<in> set (events d') \<longleftrightarrow> Received s m \<in> set (events ?d1)"
    by blast
  have "main_loop (replicate (Suc k) world_down) d = Running d'"
    by (simp add: down_cycle d'(1))
  with d'(2,3) show ?case by simp
qed

text \<open>
  C5, as stated, fails: when \<^verbatim>\<open>receive_messages\<close> raises, the cycle ends in the outer
  \<^verbatim>\<open>except\<close> before the counter is touched. With a queue service that cannot be
  reached, no queue yields a message in any cycle, and after any number of cycles the loop
  is still polling with the counter at zero.
\<close>

theorem idle_shutdown_counterexample:
  "\<forall>k. \<exists>d. main_loop (replicate k world_down) init_dispatcher = Running d \<and>
      idle_count d = 0 \<and> (\<forall>s m. Received s m \<notin> set (events d))"
proof
  fix k
  from main_loop_down [of k init_dispatcher] obtain d' where
    "main_loop (replicate k world_down) init_dispatcher = Running d'"
    "idle_count d' = idle_count init_dispatcher"
    "\<forall>s m. Received s m \<in> set (events d') \<longleftrightarrow> Received s m \<in> set (events init_dispatcher)"
    by blast
  then show "\<exists>d. main_loop (replicate k world_down) init_dispatcher = Running d \<and>
      idle_count d = 0 \<and> (\<forall>s m. Received s m \<notin> set (events d))"
    by (intro exI [of _ d']) (simp add: init_dispatcher_def)
qed

text \<open>
  C5, amended. The threshold is 120. The counter counts the cycles, since the last
  received message, in which every queue answered and none yielded a message: such a cycle
  adds one to the counter; a cycle in which any message is received leaves the counter at
  zero and does not end the loop; a cycle that a raising \<^verbatim>\<open>receive_messages\<close> cuts short
  does not end the loop either and leaves the counter as it is (at zero if a message was
  received before the exception). The loop ends only in a cycle without a message that
  brings the counter to the threshold, so whenever it ends the counter is 120. With queues
  that answer and never yield a message the loop, started with the counter at
  \<open>k < 120\<close>, is still polling after fewer than \<open>120 - k\<close> cycles and ends in cycle
  \<open>120 - k\<close> exactly; while every cycle is cut short by an exception it never ends.
\<close>

theorem idle_shutdown:
  "max_idle_time = 120 \<and>
   (list_all quiet ws \<and> idle_count d + length ws < max_idle_time \<longrightarrow>
      (\<exists>d'. main_loop ws d = Running d' \<and> idle_count d' = idle_count d + length ws)) \<and>
   (list_all quiet ws \<and> idle_count d < max_idle_time \<and>
    max_idle_time \<le> idle_count d + length ws \<longrightarrow>
      (\<exists>d'. main_loop ws d = Stopped (max_idle_time - idle_count d) d' \<and>
            idle_count d' = max_idle_time)) \<and>
   (quiet w \<longrightarrow> idle_count (snd (cycle w d)) = idle_count d + 1 \<and>
      fst (cycle w d) = (max_idle_time \<le> idle_count d + 1)) \<and>
   (Received svc m \<in> set (new_events d (snd (cycle w d))) \<longrightarrow>
      idle_count (snd (cycle w d)) = 0 \<and> \<not> fst (cycle w d)) \<and>
   (fst (cycle w d) \<longrightarrow>
      idle_count (snd (cycle w d)) = idle_count d + 1 \<and> max_idle_time \<le> idle_count d + 1 \<and>
      (\<forall>s m'. Received s m' \<notin> set (new_events d (snd (cycle w d))))) \<and>
   (idle_count d < max_idle_time \<and> main_loop ws d = Stopped n d1 \<longrightarrow>
      idle_count d1 = max_idle_time \<and> 1 \<le> n \<and> n \<le> length ws) \<and>
   (receives_ok w \<and> (\<forall>s m'. Received s m' \<notin> set (new_events d (snd (cycle w d)))) \<longrightarrow>
      idle_count (snd (cycle w d)) = idle_count d + 1 \<and>
      fst (cycle w d) = (max_idle_time \<le> idle_count d + 1)) \<and>
   (\<not> receives_ok w \<longrightarrow>
      \<not> fst (cycle w d) \<and>
      idle_count (snd (cycle w d)) =
        (if \<exists>s m'. Received s m' \<in> set (new_events d (snd (cycle w d))) then 0
         else idle_count d)) \<and>
   (list_all (\<lambda>w. \<not> receives_ok w) ws \<longrightarrow> (\<exists>d'. main_loop ws d = Running d'))"
proof (intro conjI impI)
  show "max_idle_time = 120" by (simp add: max_idle_time_def)
next
  assume "list_all quiet ws \<and> idle_count d + length ws < max_idle_time"
  then show "\<exists>d'. main_loop ws d = Running d' \<and> idle_count d' = idle_count d + length ws"
    using main_loop_quiet_running [of ws d] by blast
next
  assume "list_all quiet ws \<and> idle_count d < max_idle_time \<and>
    max_idle_time \<le> idle_count d + length ws"
  then show "\<exists>d'. main_loop ws d = Stopped (max_idle_time - idle_count d) d' \<and>
            idle_count d' = max_idle_time"
    using main_loop_quiet_stops [of ws d] by blast
next
  assume "quiet w"
  then show "idle_count (snd (cycle w d)) = idle_count d + 1"
    and "fst (cycle w d) = (max_idle_time \<le> idle_count d + 1)"
    by (rule quiet_cycle)+
next
  assume "Received svc m \<in> set (new_events d (snd (cycle w d)))"
  from cycle_reset [OF this]
  show "idle_count (snd (cycle w d)) = 0" and "\<not> fst (cycle w d)" by simp_all
next
  assume "fst (cycle w d)"
  from cycle_break [OF this]
  show "idle_count (snd (cycle w d)) = idle_count d + 1"
    and "max_idle_time \<le> idle_count d + 1"
    and "\<forall>s m'. Received s m' \<notin> set (new_events d (snd (cycle w d)))"
    by simp_all
next
  assume "idle_count d < max_idle_time \<and> main_loop ws d = Stopped n d1"
  then have "idle_count d1 = max_idle_time \<and> 1 \<le> n \<and> n \<le> length ws"
    using main_loop_stopped [of d ws n d1] by blast
  then show "idle_count d1 = max_idle_time" and "1 \<le> n" and "n \<le> length ws" by simp_all
next
  assume "receives_ok w \<and> (\<forall>s m'. Received s m' \<notin> set (new_events d (snd (cycle w d))))"
  then have "idle_count (snd (cycle w d)) = idle_count d + 1 \<and>
     fst (cycle w d) = (max_idle_time \<le> idle_count d + 1)"
    using cycle_complete [of w d] by blast
  then show "idle_count (snd (cycle w d)) = idle_count d + 1"
    and "fst (cycle w d) = (max_idle_time \<le> idle_count d + 1)"
    by simp_all
next
  assume "\<not> receives_ok w"
  from cycle_raises [OF this, of d]
  show "\<not> fst (cycle w d)"
    and "idle_count (snd (cycle w d)) =
        (if \<exists>s m'. Received s m' \<in> set (new_events d (snd (cycle w d))) then 0
         else idle_count d)"
    by simp_all
next
  assume "list_all (\<lambda>w. \<not> receives_ok w) ws"
  then show "\<exists>d'. main_loop ws d = Running d'" by (rule main_loop_raising)
qed

theorem idle_shutdown_witness:
  "list_all quiet (replicate 120 good_world) \<and> quiet good_world \<and>
   (\<exists>d'. main_loop (replicate 119 good_world) init_dispatcher = Running d' \<and>
         idle_count d' = 119) \<and>
   (\<exists>d'. main_loop (replicate 120 good_world) init_dispatcher = Stopped 120 d' \<and>
         idle_count d' = 120) \<and>
   (\<exists>d'. main_loop (replicate 500 good_world) init_dispatcher = Stopped 120 d' \<and>
         idle_count d' = 120) \<and>
   idle_count (snd (cycle world_busy (init_dispatcher\<lparr>idle_count := 119\<rparr>))) = 0 \<and>
   \<not> receives_ok world_down \<and>
   idle_count (snd (cycle world_down (init_dispatcher\<lparr>idle_count := 119\<rparr>))) = 119 \<and>
   \<not> fst (cycle world_down (init_dispatcher\<lparr>idle_count := 119\<rparr>)) \<and>
   list_all (\<lambda>w. \<not> receives_ok w) (replicate 500 world_down) \<and>
   (\<exists>d'. main_loop (replicate 500 world_down) init_dispatcher = Running d')"
proof -
  have q: "quiet good_world" by (simp add: quiet_def queues_def good_world_def)
  then have qs: "\<And>k. list_all quiet (replicate k good_world)"
    by (simp only: list_all_iff set_replicate_conv_if; simp)
  have i: "idle_count init_dispatcher = 0" by (simp add: init_dispatcher_def)
  have m: "max_idle_time = 120" by (simp add: max_idle_time_def)
  have l119: "idle_count init_dispatcher + length (replicate 119 good_world) < max_idle_time"
    by (simp only: i m length_replicate; simp)
  have l120: "idle_count init_dispatcher < max_idle_time \<and>
      max_idle_time \<le> idle_count init_dispatcher + length (replicate 120 good_world)"
    by (simp only: i m length_replicate; simp)
  have l500: "idle_count init_dispatcher < max_idle_time \<and>
      max_idle_time \<le> idle_count init_dispatcher + length (replicate 500 good_world)"
    by (simp only: i m length_replicate; simp)
  have e119: "idle_count init_dispatcher + length (replicate 119 good_world) = 119"
    by (simp only: i length_replicate; simp)
  note t119 = idle_shutdown [where ws = "replicate 119 good_world" and d = init_dispatcher]
  note t120 = idle_shutdown [where ws = "replicate 120 good_world" and d = init_dispatcher]
  note t500 = idle_shutdown [where ws = "replicate 500 good_world" and d = init_dispatcher]
  from t119 qs [of 119] l119
  have "\<exists>d'. main_loop (replicate 119 good_world) init_dispatcher = Running d' \<and>
         idle_count d' = idle_count init_dispatcher + length (replicate 119 good_world)"
    by blast
  then have a: "\<exists>d'. main_loop (replicate 119 good_world) init_dispatcher = Running d' \<and>
         idle_count d' = 119"
    by (simp only: e119)
  from t120 qs [of 120] l120
  have "\<exists>d'. main_loop (replicate 120 good_world) init_dispatcher =
         Stopped (max_idle_time - idle_count init_dispatcher) d' \<and> idle_count d' = max_idle_time"
    by blast
  then have b: "\<exists>d'. main_loop (replicate 120 good_world) init_dispatcher = Stopped 120 d' \<and>
         idle_count d' = 120"
    by (simp only: m i diff_zero)
  from t500 qs [of 500] l500
  have "\<exists>d'. main_loop (replicate 500 good_world) init_dispatcher =
         Stopped (max_idle_time - idle_count init_dispatcher) d' \<and> idle_count d' = max_idle_time"
    by blast
  then have c: "\<exists>d'. main_loop (replicate 500 good_world) init_dispatcher = Stopped 120 d' \<and>
         idle_count d' = 120"
    by (simp only: m i diff_zero)
  let ?d = "init_dispatcher\<lparr>idle_count := 119\<rparr>"
  have z: "idle_count (snd (cycle world_busy ?d)) = 0"
    by (simp add: cycle_def queues_def receive_messages_def world_busy_def tourism_world_def
      good_world_def msg_s1_def msg_r2_def msg_r3_def job_s1_def job_budaya_def
      handle_message_def init_dispatcher_def init_processor_def
      process_style_transfer_def process_style_transfer_try_def call_style_trans_strength
      load_style_transfer_model_def model_load_def on_exception_def
      process_recommendation_def process_recommendation_try_def
      load_recommendation_data_def upload_result_def upload_blob_def
      Let_def)
  have nr: "\<not> receives_ok world_down"
    by (simp add: receives_ok_def queues_def world_down_def)
  then have nrs: "list_all (\<lambda>w. \<not> receives_ok w) (replicate 500 world_down)"
    by (simp only: list_all_iff set_replicate_conv_if; simp)
  have none: "\<not> (\<exists>s m'. Received s m' \<in> set (new_events ?d (snd (cycle world_down ?d))))"
    by (simp add: down_cycle new_events_def)
  note td = idle_shutdown [where w = world_down and d = ?d]
  from td nr have "\<not> fst (cycle world_down ?d) \<and>
      idle_count (snd (cycle world_down ?d)) =
        (if \<exists>s m'. Received s m' \<in> set (new_events ?d (snd (cycle world_down ?d))) then 0
         else idle_count ?d)"
    by blast
  with none have dn: "\<not> fst (cycle world_down ?d)"
    "idle_count (snd (cycle world_down ?d)) = 119"
    by simp_all
  from idle_shutdown [where ws = "replicate 500 world_down" and d = init_dispatcher] nrs
  have run: "\<exists>d'. main_loop (replicate 500 world_down) init_dispatcher = Running d'"
    by blast
  from qs [of 120] q a b c z nr dn nrs run show ?thesis by blast
qed

text \<open>
  C9, as stated, fails: without the connection string \<^verbatim>\<open>main\<close> logs an error and
  returns, so the process exits with status 0.
\<close>

theorem missing_configuration_counterexample:
  "main \<lparr>AZURE_STORAGE_CONNECTION_STRING = None, gpu_check = None,
         blob_service_client = None, queue_clients = None\<rparr> [] = Exited 0"
  by (simp add: main_def)

text \<open>
  C9, amended. When the connection string is unset or empty (and the GPU probe did not
  crash), \<^verbatim>\<open>main\<close> returns before creating the processor or polling, and the process
  exits with status 0. After a successful start-up, a clean idle shutdown also exits with
  status 0, and that happens once 120 cycles without a message have passed; before that
  the process is still polling.
\<close>

theorem exit_codes:
  "((AZURE_STORAGE_CONNECTION_STRING st = None \<or> AZURE_STORAGE_CONNECTION_STRING st = Some []) \<and>
    (gpu_check st = None \<or> (\<exists>msg. gpu_check st = Some (ImportError msg))) \<longrightarrow>
      main st ws = Exited 0) \<and>
   (startup_ok st \<and> main_loop ws init_dispatcher = Stopped n d \<longrightarrow> main st ws = Exited 0) \<and>
   (startup_ok st \<and> list_all quiet ws \<and> max_idle_time \<le> length ws \<longrightarrow>
      main st ws = Exited 0) \<and>
   (startup_ok st \<and> list_all quiet ws \<and> length ws < max_idle_time \<longrightarrow>
      main st ws = StillPolling)"
proof (intro conjI impI)
  assume "(AZURE_STORAGE_CONNECTION_STRING st = None \<or>
      AZURE_STORAGE_CONNECTION_STRING st = Some []) \<and>
    (gpu_check st = None \<or> (\<exists>msg. gpu_check st = Some (ImportError msg)))"
  then show "main st ws = Exited 0" by (auto simp: main_def)
next
  assume "startup_ok st \<and> main_loop ws init_dispatcher = Stopped n d"
  then show "main st ws = Exited 0"
    by (auto simp: main_def startup_ok_def split: option.splits py_error.splits)
next
  assume a: "startup_ok st \<and> list_all quiet ws \<and> max_idle_time \<le> length ws"
  then have "\<exists>d'. main_loop ws init_dispatcher =
      Stopped (max_idle_time - idle_count init_dispatcher) d' \<and> idle_count d' = max_idle_time"
    by (intro main_loop_quiet_stops) (simp_all add: init_dispatcher_def max_idle_time_def)
  with a show "main st ws = Exited 0"
    by (auto simp: main_def startup_ok_def split: option.splits py_error.splits)
next
  assume a: "startup_ok st \<and> list_all quiet ws \<and> length ws < max_idle_time"
  then have "\<exists>d'. main_loop ws init_dispatcher = Running d' \<and>
      idle_count d' = idle_count init_dispatcher + length ws"
    by (intro main_loop_quiet_running) (simp_all add: init_dispatcher_def)
  with a show "main st ws = StillPolling"
    by (auto simp: main_def startup_ok_def split: option.splits py_error.splits)
qed

theorem exit_codes_witness:
  "main \<lparr>AZURE_STORAGE_CONNECTION_STRING = Some [], gpu_check = Some (ImportError ''torch''),
         blob_service_client = None, queue_clients = None\<rparr> (replicate 3 good_world) = Exited 0 \<and>
   startup_ok \<lparr>AZURE_STORAGE_CONNECTION_STRING = Some ''UseDevelopmentStorage=true'',
         gpu_check = None, blob_service_client = None, queue_clients = None\<rparr> \<and>
   main \<lparr>AZURE_STORAGE_CONNECTION_STRING = Some ''UseDevelopmentStorage=true'',
         gpu_check = None, blob_service_client = None, queue_clients = None\<rparr>
     (replicate 120 good_world) = Exited 0 \<and>
   main \<lparr>AZURE_STORAGE_CONNECTION_STRING = Some ''UseDevelopmentStorage=true'',
         gpu_check = None, blob_service_client = None, queue_clients = None\<rparr>
     (replicate 119 good_world) = StillPolling"
proof -
  let ?bad = "\<lparr>AZURE_STORAGE_CONNECTION_STRING = Some [], gpu_check = Some (ImportError ''torch''),
         blob_service_client = None, queue_clients = None\<rparr>"
  let ?ok = "\<lparr>AZURE_STORAGE_CONNECTION_STRING = Some ''UseDevelopmentStorage=true'',
         gpu_check = None, blob_service_client = None, queue_clients = None\<rparr>"
  have q: "quiet good_world" by (simp add: quiet_def queues_def good_world_def)
  then have qs: "\<And>k. list_all quiet (replicate k good_world)"
    by (simp only: list_all_iff set_replicate_conv_if; simp)
  have s: "startup_ok ?ok" by (simp add: startup_ok_def)
  have m: "max_idle_time = 120" by (simp add: max_idle_time_def)
  have l120: "max_idle_time \<le> length (replicate 120 good_world)"
    by (simp only: m length_replicate; simp)
  have l119: "length (replicate 119 good_world) < max_idle_time"
    by (simp only: m length_replicate; simp)
  have h: "(AZURE_STORAGE_CONNECTION_STRING ?bad = None \<or>
      AZURE_STORAGE_CONNECTION_STRING ?bad = Some []) \<and>
    (gpu_check ?bad = None \<or> (\<exists>msg. gpu_check ?bad = Some (ImportError msg)))"
    by simp
  from exit_codes [where st = ?bad and ws = "replicate 3 good_world"] h
  have a: "main ?bad (replicate 3 good_world) = Exited 0" by blast
  from exit_codes [where st = ?ok and ws = "replicate 120 good_world"] s qs [of 120] l120
  have b: "main ?ok (replicate 120 good_world) = Exited 0" by blast
  from exit_codes [where st = ?ok and ws = "replicate 119 good_world"] s qs [of 119] l119
  have c: "main ?ok (replicate 119 good_world) = StillPolling" by blast
  from a s b c show ?thesis by blast
qed

end
